(* ===== verification/Prelude.thy ===== *)
theory Prelude
  imports Main "HOL-Library.Word" "HOL-Library.List_Lexorder" "HOL-Library.Char_ord"
begin

text \<open>
  What the components share: the machine integers, Rust's \<open>Result\<close> and its \<open>?\<close> operator,
  \<open>checked_add\<close>, decimal and big-endian formatting, strictly ascending lists (what a
  \<open>BTreeSet\<close> iterates and what \<open>sort\<close> followed by \<open>dedup\<close> leaves), and the interface of a
  byte codec with the laws every encoder and decoder pair of the wire formats obeys.
\<close>

section \<open>Machine integers\<close>

type_synonym u8 = "8 word"
type_synonym u16 = "16 word"
type_synonym u32 = "32 word"
type_synonym u64 = "64 word"
type_synonym i32 = "32 word"
type_synonym i64 = "64 word"
type_synonym usize = "64 word"
type_synonym bytes = "8 word list"

named_theorems result_simps "evaluation rules of the Result combinators"
named_theorems codec_simps "evaluation rules of the byte encoders"

lemma unat_less_2p: "unat (w :: 'w::len word) < 2 ^ LENGTH('w)"
  by (rule unsigned_less)

text \<open>Rust's \<open>checked_add\<close> on an unsigned integer: \<open>None\<close> when the sum does not fit.\<close>

definition checked_add :: "'w::len word \<Rightarrow> 'w word \<Rightarrow> 'w word option" where
  "checked_add a b = (if unat a + unat b < 2 ^ LENGTH('w) then Some (a + b) else None)"

lemma checked_add_SomeD:
  "checked_add a b = Some c \<Longrightarrow> unat c = unat a + unat b \<and> c = a + b"
  by (auto simp: checked_add_def unat_word_ariths split: if_splits)

lemma checked_add_NoneD:
  fixes a b :: "'w::len word"
  shows "checked_add a b = None \<Longrightarrow> 2 ^ LENGTH('w) \<le> unat a + unat b"
  by (auto simp: checked_add_def split: if_splits)

lemma checked_add_Some_iff:
  fixes a b c :: "'w::len word"
  shows "checked_add a b = Some c \<longleftrightarrow> unat c = unat a + unat b"
proof
  assume *: "unat c = unat a + unat b"
  then have "unat a + unat b < 2 ^ LENGTH('w)"
    by (metis unat_less_2p)
  moreover have "c = a + b"
    using * by (simp add: word_unat_eq_iff unat_word_ariths flip: *)
  ultimately show "checked_add a b = Some c"
    by (simp add: checked_add_def)
qed (simp add: checked_add_SomeD)

section \<open>Results\<close>

text \<open>
  \<open>Result<A, E>\<close> is the sum \<open>'e + 'a\<close> with the error on the left. \<open>bindR r k\<close> is
  \<open>let x = r?; k(x)\<close>: an error returns at once, a value goes on.
\<close>

definition bindR :: "'e + 'a \<Rightarrow> ('a \<Rightarrow> 'e + 'b) \<Rightarrow> 'e + 'b" where
  "bindR r k = (case r of Inl e \<Rightarrow> Inl e | Inr x \<Rightarrow> k x)"

lemma bindR_simps [simp, result_simps]:
  "bindR (Inl e) k = Inl e"
  "bindR (Inr x) k = k x"
  by (simp_all add: bindR_def)

lemma bindR_cong [fundef_cong]:
  "r = r' \<Longrightarrow> (\<And>x. r' = Inr x \<Longrightarrow> k x = k' x) \<Longrightarrow> bindR r k = bindR r' k'"
  by (cases r') auto

lemma bindR_Inr_iff:
  "bindR r k = Inr y \<longleftrightarrow> (\<exists>x. r = Inr x \<and> k x = Inr y)"
  by (cases r) auto

lemma bindR_Inl_iff:
  "bindR r k = Inl e \<longleftrightarrow> r = Inl e \<or> (\<exists>x. r = Inr x \<and> k x = Inl e)"
  by (cases r) auto

lemma bindR_InrE:
  assumes "bindR r k = Inr y"
  obtains x where "r = Inr x" and "k x = Inr y"
  using assms by (auto simp: bindR_Inr_iff)

lemma bindR_split:
  "P (bindR r k) \<longleftrightarrow> (\<forall>e. r = Inl e \<longrightarrow> P (Inl e)) \<and> (\<forall>x. r = Inr x \<longrightarrow> P (k x))"
  by (cases r) auto

fun is_ok :: "'e + 'a \<Rightarrow> bool" where
  "is_ok (Inr _) = True"
| "is_ok (Inl _) = False"

lemma is_ok_iff: "is_ok r \<longleftrightarrow> (\<exists>x. r = Inr x)"
  by (cases r) auto

section \<open>Stateful code that may fail\<close>

text \<open>An action takes the state, and returns an error or a value and the new state: what happened
  before an error stays done. \<open>bindS m k\<close> is \<open>let x = m?; k(x)\<close>.\<close>

type_synonym ('s, 'e, 'a) action = "'s \<Rightarrow> ('e + 'a) \<times> 's"

definition returnS :: "'a \<Rightarrow> ('s, 'e, 'a) action" where
  "returnS x s = (Inr x, s)"

definition failS :: "'e \<Rightarrow> ('s, 'e, 'a) action" where
  "failS e s = (Inl e, s)"

definition bindS :: "('s, 'e, 'a) action \<Rightarrow> ('a \<Rightarrow> ('s, 'e, 'b) action) \<Rightarrow> ('s, 'e, 'b) action" where
  "bindS m k s = (case m s of (Inl e, s') \<Rightarrow> (Inl e, s') | (Inr x, s') \<Rightarrow> k x s')"

text \<open>\<open>?\<close> at a call whose error type is converted with \<open>From\<close>.\<close>

definition map_errS :: "('e \<Rightarrow> 'f) \<Rightarrow> ('s, 'e, 'a) action \<Rightarrow> ('s, 'f, 'a) action" where
  "map_errS f m s = (case m s of (Inl e, s') \<Rightarrow> (Inl (f e), s') | (Inr x, s') \<Rightarrow> (Inr x, s'))"

text \<open>\<open>let _ = m\<close>: runs it and ignores an error.\<close>

definition ignoreS :: "('s, 'e, 'a) action \<Rightarrow> ('s, 'f, unit) action" where
  "ignoreS m s = (Inr (), snd (m s))"

lemma action_simps [simp]:
  "returnS x s = (Inr x, s)" "failS e s = (Inl e, s)" "ignoreS m s = (Inr (), snd (m s))"
  by (simp_all add: returnS_def failS_def ignoreS_def)

lemma bindS_eq_Inr:
  "bindS m k s = (Inr y, t) \<longleftrightarrow> (\<exists>x s'. m s = (Inr x, s') \<and> k x s' = (Inr y, t))"
  by (auto simp: bindS_def split: prod.splits sum.splits)

lemma bindS_eq_Inl:
  "bindS m k s = (Inl e, t) \<longleftrightarrow>
     m s = (Inl e, t) \<or> (\<exists>x s'. m s = (Inr x, s') \<and> k x s' = (Inl e, t))"
  by (auto simp: bindS_def split: prod.splits sum.splits)

lemma bindS_run [simp]:
  "m s = (Inr x, s') \<Longrightarrow> bindS m k s = k x s'"
  "m s = (Inl e, s') \<Longrightarrow> bindS m k s = (Inl e, s')"
  by (simp_all add: bindS_def)

lemma map_errS_eq_Inr [simp]: "map_errS f m s = (Inr y, t) \<longleftrightarrow> m s = (Inr y, t)"
  by (auto simp: map_errS_def split: prod.splits sum.splits)

lemma map_errS_eq_Inl: "map_errS f m s = (Inl d, t) \<longleftrightarrow> (\<exists>e. m s = (Inl e, t) \<and> d = f e)"
  by (auto simp: map_errS_def split: prod.splits sum.splits)

lemma snd_map_errS [simp]: "snd (map_errS f m s) = snd (m s)"
  by (auto simp: map_errS_def split: prod.splits sum.splits)

text \<open>A relation between the states before and after that every action of a family respects.\<close>

definition keeps :: "('s \<Rightarrow> 's \<Rightarrow> bool) \<Rightarrow> ('s, 'e, 'a) action \<Rightarrow> bool" where
  "keeps R m \<longleftrightarrow> (\<forall>s. R s (snd (m s)))"

lemma keeps_bindS:
  assumes "keeps R m" "\<And>x. keeps R (k x)" "transp R"
  shows "keeps R (bindS m k)"
  unfolding keeps_def
proof
  fix s
  obtain r s' where m: "m s = (r, s')" by fastforce
  with assms(1) have s': "R s s'" by (metis keeps_def snd_conv)
  show "R s (snd (bindS m k s))"
  proof (cases r)
    case (Inl e)
    with m s' show ?thesis by (simp add: bindS_def)
  next
    case (Inr x)
    with m assms(2) [of x] have "R s' (snd (bindS m k s))"
      by (simp add: bindS_def keeps_def)
    with s' assms(3) show ?thesis by (blast dest: transpD)
  qed
qed

lemma keeps_returnS: "reflp R \<Longrightarrow> keeps R (returnS x)"
  by (simp add: keeps_def reflp_def)

lemma keeps_failS: "reflp R \<Longrightarrow> keeps R (failS e)"
  by (simp add: keeps_def reflp_def)

lemma keeps_map_errS: "keeps R m \<Longrightarrow> keeps R (map_errS f m)"
  by (simp add: keeps_def)

lemma keeps_ignoreS: "keeps R m \<Longrightarrow> keeps R (ignoreS m)"
  by (simp add: keeps_def)

section \<open>I/O errors\<close>

text \<open>\<open>io::Error\<close>: its kind, as far as the program names it, and its message.\<close>

datatype io_error_kind =
    NotFound | AlreadyExists | InvalidInput | InvalidData | UnexpectedEof | BrokenPipe
  | OtherKind

datatype io_error = IoError io_error_kind string

section \<open>Decimal formatting\<close>

text \<open>The \<open>Display\<close> form of an unsigned integer.\<close>

definition digit :: "nat \<Rightarrow> char" where
  "digit d = char_of (48 + d)"

fun show_nat :: "nat \<Rightarrow> string" where
  "show_nat n = (if n < 10 then [digit n] else show_nat (n div 10) @ [digit (n mod 10)])"

declare show_nat.simps [simp del]

abbreviation show_u64 :: "u64 \<Rightarrow> string" where
  "show_u64 w \<equiv> show_nat (unat w)"

lemma show_nat_nonempty: "show_nat n \<noteq> []"
  by (subst show_nat.simps) simp

section \<open>Big-endian bytes\<close>

fun be_bytes :: "nat \<Rightarrow> nat \<Rightarrow> bytes" where
  "be_bytes 0 n = []"
| "be_bytes (Suc k) n = be_bytes k (n div 256) @ [of_nat (n mod 256)]"

definition from_be :: "bytes \<Rightarrow> nat" where
  "from_be bs = foldl (\<lambda>a b. a * 256 + unat b) 0 bs"

lemma be_bytes_numeral [simp]:
  "be_bytes (numeral k) n = be_bytes (pred_numeral k) (n div 256) @ [of_nat (n mod 256)]"
  by (simp only: numeral_eq_Suc [of k] be_bytes.simps)

lemma length_be_bytes [simp]: "length (be_bytes k n) = k"
  by (induction k arbitrary: n) auto

lemma from_be_Nil [simp]: "from_be [] = 0"
  by (simp add: from_be_def)

lemma from_be_snoc [simp]: "from_be (bs @ [b]) = from_be bs * 256 + unat b"
  by (simp add: from_be_def)

lemma unat_u8_lt: "unat (b :: u8) < 256"
  using unat_less_2p [of b] by simp

lemma from_be_less: "from_be bs < 256 ^ length bs"
proof (induction bs rule: rev_induct)
  case (snoc b bs)
  then have "from_be bs * 256 + unat b < (from_be bs + 1) * 256"
    using unat_u8_lt [of b] by simp
  also have "\<dots> \<le> 256 ^ length bs * 256"
    using snoc.IH by (intro mult_le_mono1) simp
  finally show ?case by (simp add: mult.commute)
qed simp

lemma from_be_be_bytes: "from_be (be_bytes k n) = n mod 256 ^ k"
proof (induction k arbitrary: n)
  case (Suc k)
  have "unat (of_nat (n mod 256) :: u8) = n mod 256"
    by (simp add: unat_of_nat)
  with Suc show ?case
    by (simp add: mod_mult2_eq)
qed simp

lemma be_bytes_from_be: "be_bytes (length bs) (from_be bs) = bs"
proof (induction bs rule: rev_induct)
  case (snoc b bs)
  have "(from_be bs * 256 + unat b) div 256 = from_be bs"
    using unat_u8_lt [of b] by simp
  moreover have "(from_be bs * 256 + unat b) mod 256 = unat b"
    using unat_u8_lt [of b] by simp
  ultimately show ?case
    using snoc by simp
qed simp

text \<open>\<open>to_be_bytes\<close> and \<open>from_be_bytes\<close> of a word whose width is \<open>k\<close> bytes.\<close>

definition word_to_be :: "nat \<Rightarrow> 'w::len word \<Rightarrow> bytes" where
  "word_to_be k w = be_bytes k (unat w)"

definition word_from_be :: "bytes \<Rightarrow> 'w::len word" where
  "word_from_be bs = of_nat (from_be bs)"

lemma length_word_to_be [simp]: "length (word_to_be k w) = k"
  by (simp add: word_to_be_def)

lemma word_to_be_eq_Nil [simp]: "word_to_be k w = [] \<longleftrightarrow> k = 0"
  by (metis length_0_conv length_word_to_be)

lemma word_from_to_be:
  fixes w :: "'w::len word"
  assumes "LENGTH('w) = 8 * k"
  shows "word_from_be (word_to_be k w) = w"
proof -
  have "unat w < 256 ^ k"
    using unat_less_2p [of w] assms by (simp add: power_mult)
  then show ?thesis
    by (simp add: word_from_be_def word_to_be_def from_be_be_bytes)
qed

lemma unat_word_from_be:
  assumes "LENGTH('w::len) = 8 * length bs"
  shows "unat (word_from_be bs :: 'w word) = from_be bs"
proof -
  have "from_be bs < 2 ^ LENGTH('w)"
    using from_be_less [of bs] assms by (simp add: power_mult)
  then show ?thesis
    by (simp add: word_from_be_def unat_of_nat)
qed

lemma word_to_from_be:
  assumes "LENGTH('w::len) = 8 * length bs" and "k = length bs"
  shows "word_to_be k (word_from_be bs :: 'w word) = bs"
  using assms by (simp add: word_to_be_def unat_word_from_be be_bytes_from_be)

section \<open>Strictly ascending lists\<close>

abbreviation ascending :: "'a::linorder list \<Rightarrow> bool" where
  "ascending xs \<equiv> sorted_wrt (<) xs"

text \<open>\<open>sort\<close> followed by \<open>dedup\<close>, which is also the order in which a \<open>BTreeSet\<close> iterates.\<close>

definition sort_dedup :: "'a::linorder list \<Rightarrow> 'a list" where
  "sort_dedup xs = remdups_adj (sort xs)"

lemma ascending_remdups_adj: "sorted xs \<Longrightarrow> ascending (remdups_adj xs)"
proof (induction xs rule: remdups_adj.induct)
  case (3 x y xs)
  then show ?case
    by (cases "x = y") (auto simp: order.strict_iff_order)
qed simp_all

lemma ascending_sort_dedup [simp]: "ascending (sort_dedup xs)"
  by (simp add: sort_dedup_def ascending_remdups_adj)

lemma set_sort_dedup [simp]: "set (sort_dedup xs) = set xs"
  by (simp add: sort_dedup_def)

lemma ascending_unique:
  "ascending xs \<Longrightarrow> ascending ys \<Longrightarrow> set xs = set ys \<Longrightarrow> xs = ys"
  by (metis sorted_distinct_set_unique strict_sorted_iff)

lemma sort_dedup_ascending: "ascending xs \<Longrightarrow> sort_dedup xs = xs"
  by (rule ascending_unique) simp_all

lemma sort_dedup_eq_iff: "sort_dedup xs = xs \<longleftrightarrow> ascending xs"
  by (metis ascending_sort_dedup sort_dedup_ascending)

lemma sort_dedup_cong: "set xs = set ys \<Longrightarrow> sort_dedup xs = sort_dedup ys"
  by (rule ascending_unique) simp_all

lemma ascending_filter: "ascending xs \<Longrightarrow> ascending (filter P xs)"
  by (rule sorted_wrt_filter)

lemma length_sort_dedup_le: "length (sort_dedup xs) \<le> length xs"
  by (metis length_sort remdups_adj_length sort_dedup_def)

end
