(* ===== verification/Codec.thy ===== *)
theory Codec
  imports Prelude
begin

text \<open>
  The interface of a strict byte codec, and Rust's UTF-8 validation. A decoder takes the
  remaining input and returns an error or a value with the rest of the input; the laws say
  that it reads back exactly what the encoder wrote, accepts nothing else, and reports a
  truncation on every proper prefix of an encoding. Records and lists of fields obey the
  laws because their fields do.
\<close>

section \<open>The codec interface\<close>

locale codec =
  fixes enc :: "'a \<Rightarrow> bytes"
    and dec :: "bytes \<Rightarrow> 'e + 'a \<times> bytes"
    and wf :: "'a \<Rightarrow> bool"
    and trunc :: "'e \<Rightarrow> bool"
  assumes dec_enc: "wf v \<Longrightarrow> dec (enc v @ r) = Inr (v, r)"
    and dec_sound: "dec bs = Inr (v, r) \<Longrightarrow> wf v \<and> bs = enc v @ r"
    and dec_trunc: "wf v \<Longrightarrow> p @ q = enc v \<Longrightarrow> q \<noteq> [] \<Longrightarrow> \<exists>e. dec p = Inl e \<and> trunc e"
begin

lemma dec_wf: "dec bs = Inr (v, r) \<Longrightarrow> wf v"
  by (simp add: dec_sound)

lemma dec_input: "dec bs = Inr (v, r) \<Longrightarrow> bs = enc v @ r"
  by (simp add: dec_sound)

lemma dec_append: "dec bs = Inr (v, r) \<Longrightarrow> dec (bs @ s) = Inr (v, r @ s)"
  using dec_sound [of bs v r] by (simp add: dec_enc)

lemma enc_inj:
  assumes "wf v" "wf w" "enc v @ r = enc w @ s"
  shows "v = w \<and> r = s"
proof -
  have "Inr (v, r) = dec (enc v @ r)"
    by (rule dec_enc [OF assms(1), symmetric])
  also have "\<dots> = dec (enc w @ s)"
    by (rule arg_cong [OF assms(3)])
  also have "\<dots> = Inr (w, s)"
    by (rule dec_enc [OF assms(2)])
  finally show ?thesis by simp
qed

text \<open>On a prefix of an encoded field and what follows it: either the cut is inside the field,
  which is reported as a truncation, or the field is read and the cut is in what follows.\<close>

lemma dec_prefix:
  assumes "wf v" and "p @ q = enc v @ rest"
  shows "(\<exists>e. dec p = Inl e \<and> trunc e) \<or> (\<exists>p'. dec p = Inr (v, p') \<and> p' @ q = rest)"
proof (cases "\<exists>us. p @ us = enc v \<and> us \<noteq> []")
  case True
  then obtain us where "p @ us = enc v" "us \<noteq> []" by blast
  from dec_trunc [OF assms(1) this] show ?thesis by (rule disjI1)
next
  case False
  from assms(2) obtain p' where "p = enc v @ p'" "p' @ q = rest"
    unfolding append_eq_append_conv2 using False by (metis append_Nil append_Nil2)
  then show ?thesis using dec_enc [OF assms(1), of p'] by simp
qed

end

text \<open>A result that reports a truncation, and the rule that follows a cut through a chain of
  fields.\<close>

definition truncates :: "('e \<Rightarrow> bool) \<Rightarrow> 'e + 'a \<Rightarrow> bool" where
  "truncates t r \<longleftrightarrow> (\<exists>e. r = Inl e \<and> t e)"

lemma truncates_Inl [simp]: "truncates t (Inl e) \<longleftrightarrow> t e"
  by (simp add: truncates_def)

context codec
begin

lemma truncates_bind:
  assumes "p @ q = enc v @ rest" and "wf v"
    and "\<And>p'. p' @ q = rest \<Longrightarrow> truncates trunc (k (v, p'))"
  shows "truncates trunc (bindR (dec p) k)"
  using dec_prefix [OF assms(2,1)] assms(3) by (auto simp: truncates_def)

end

section \<open>A counted sequence of fields\<close>

text \<open>The loop \<open>for _ in 0..n \<open>{\<close> items.push(dec()?) \<open>}\<close>\<close>.\<close>

fun decode_n :: "(bytes \<Rightarrow> 'e + 'a \<times> bytes) \<Rightarrow> nat \<Rightarrow> bytes \<Rightarrow> 'e + 'a list \<times> bytes" where
  "decode_n dec 0 bs = Inr ([], bs)"
| "decode_n dec (Suc n) bs =
     bindR (dec bs) (\<lambda>(v, r). bindR (decode_n dec n r) (\<lambda>(vs, s). Inr (v # vs, s)))"

context codec
begin

lemma decode_n_enc:
  "\<forall>v\<in>set vs. wf v \<Longrightarrow> decode_n dec (length vs) (concat (map enc vs) @ r) = Inr (vs, r)"
  by (induction vs) (auto simp: dec_enc)

lemma decode_n_sound:
  "decode_n dec n bs = Inr (vs, r) \<Longrightarrow>
     length vs = n \<and> (\<forall>v\<in>set vs. wf v) \<and> bs = concat (map enc vs) @ r"
proof (induction n arbitrary: bs vs)
  case (Suc n)
  then show ?case
    by (fastforce simp: bindR_Inr_iff dest: dec_sound)
qed simp

lemma decode_n_prefix:
  assumes "\<forall>v\<in>set vs. wf v" and "p @ q = concat (map enc vs) @ rest"
  shows "(\<exists>e. decode_n dec (length vs) p = Inl e \<and> trunc e)
    \<or> (\<exists>p'. decode_n dec (length vs) p = Inr (vs, p') \<and> p' @ q = rest)"
  using assms
proof (induction vs arbitrary: p)
  case (Cons v vs)
  from Cons.prems have "wf v" "p @ q = enc v @ (concat (map enc vs) @ rest)" by simp_all
  from dec_prefix [OF this] consider
      (cut) e where "dec p = Inl e" "trunc e"
    | (go) p' where "dec p = Inr (v, p')" "p' @ q = concat (map enc vs) @ rest"
    by blast
  then show ?case
  proof cases
    case cut
    then show ?thesis by simp
  next
    case go
    with Cons.IH [of p'] Cons.prems(1) show ?thesis by auto
  qed
qed simp

lemma truncates_decode_n:
  assumes "p @ q = concat (map enc vs)" and "q \<noteq> []" and "\<forall>v\<in>set vs. wf v"
  shows "truncates trunc (bindR (decode_n dec (length vs) p) k)"
  using decode_n_prefix [of vs p q "[]"] assms by (auto simp: truncates_def)

end

section \<open>UTF-8\<close>

text \<open>
  The check behind \<open>String::from_utf8\<close>: the byte ranges of well-formed sequences (no overlong
  forms, no surrogates, nothing above U+10FFFF). A Rust \<open>String\<close> is its bytes with this
  property, and \<open>str\<close> comparison is the lexicographic order on them.
\<close>

type_synonym utf8 = bytes

definition utf8_cont :: "u8 \<Rightarrow> bool" where
  "utf8_cont b \<longleftrightarrow> 0x80 \<le> b \<and> b \<le> 0xBF"

definition utf8_second3 :: "u8 \<Rightarrow> u8 \<Rightarrow> bool" where
  "utf8_second3 a b \<longleftrightarrow>
     (if a = 0xE0 then 0xA0 \<le> b \<and> b \<le> 0xBF
      else if a = 0xED then 0x80 \<le> b \<and> b \<le> 0x9F
      else utf8_cont b)"

definition utf8_second4 :: "u8 \<Rightarrow> u8 \<Rightarrow> bool" where
  "utf8_second4 a b \<longleftrightarrow>
     (if a = 0xF0 then 0x90 \<le> b \<and> b \<le> 0xBF
      else if a = 0xF4 then 0x80 \<le> b \<and> b \<le> 0x8F
      else utf8_cont b)"

fun valid_utf8 :: "bytes \<Rightarrow> bool" where
  "valid_utf8 [] = True"
| "valid_utf8 (a # bs) =
     (if a < 0x80 then valid_utf8 bs
      else if 0xC2 \<le> a \<and> a \<le> 0xDF then
        (case bs of b # cs \<Rightarrow> utf8_cont b \<and> valid_utf8 cs | _ \<Rightarrow> False)
      else if 0xE0 \<le> a \<and> a \<le> 0xEF then
        (case bs of b # c # cs \<Rightarrow> utf8_second3 a b \<and> utf8_cont c \<and> valid_utf8 cs | _ \<Rightarrow> False)
      else if 0xF0 \<le> a \<and> a \<le> 0xF4 then
        (case bs of b # c # d # cs \<Rightarrow>
           utf8_second4 a b \<and> utf8_cont c \<and> utf8_cont d \<and> valid_utf8 cs | _ \<Rightarrow> False)
      else False)"

lemma valid_utf8_ascii: "\<forall>b\<in>set bs. b < 0x80 \<Longrightarrow> valid_utf8 bs"
  by (induction bs) auto

text \<open>The bytes of an ASCII literal \<open>b"..."\<close>.\<close>

definition ascii :: "string \<Rightarrow> bytes" where
  "ascii s = map of_char s"

end
