(* ===== verification/Canonical.thy ===== *)
theory Canonical
  imports Codec
begin

text \<open>
  The canonical evidence record of \<open>diskplan-core/src/canonical.rs\<close>: the typed binding, the
  encoder, the strict decoder over a cursor (\<open>Decoder\<close>, whose state is the remaining input),
  the verifier and the digest. SHA-256 comes from the \<open>sha2\<close> package and is a parameter.
  A Rust \<open>String\<close> is its UTF-8 bytes.
\<close>

section \<open>Data\<close>

record timestamp =
  seconds :: i64
  nanos :: u32

datatype activity = ActivityAbsent | ActivityUnknown | ActivityInactive | ActivityActive

datatype coverage =
  CoverageUnknown | CoverageComplete | CoveragePartial | CoverageUnreadable | CoverageFailed

record evidence_binding =
  candidate_id :: utf8
  raw_path :: bytes
  logical_bytes :: u64
  observed_at :: "timestamp option"
  activity :: activity
  coverage :: coverage
  labels :: "utf8 list"

datatype canonical_error =
    Truncated string
  | InvalidMagic
  | UnsupportedVersion u16
  | UnknownVariant string u8
  | InvalidUtf8 string
  | NonCanonicalLabels
  | InvalidNanoseconds
  | NonCanonicalEncoding
  | TrailingBytes
  | FieldTooLong string

fun is_truncated :: "canonical_error \<Rightarrow> bool" where
  "is_truncated (Truncated _) = True"
| "is_truncated _ = False"

definition MAGIC :: bytes where
  "MAGIC = ascii ''DPCB''"

definition VERSION :: u16 where
  "VERSION = 1"

fun activity_as_u8 :: "activity \<Rightarrow> u8" where
  "activity_as_u8 ActivityAbsent = 0"
| "activity_as_u8 ActivityUnknown = 1"
| "activity_as_u8 ActivityInactive = 2"
| "activity_as_u8 ActivityActive = 3"

definition activity_try_from :: "u8 \<Rightarrow> canonical_error + activity" where
  "activity_try_from v =
     (if v = 0 then Inr ActivityAbsent
      else if v = 1 then Inr ActivityUnknown
      else if v = 2 then Inr ActivityInactive
      else if v = 3 then Inr ActivityActive
      else Inl (UnknownVariant ''activity'' v))"

fun coverage_as_u8 :: "coverage \<Rightarrow> u8" where
  "coverage_as_u8 CoverageUnknown = 0"
| "coverage_as_u8 CoverageComplete = 1"
| "coverage_as_u8 CoveragePartial = 2"
| "coverage_as_u8 CoverageUnreadable = 3"
| "coverage_as_u8 CoverageFailed = 4"

definition coverage_try_from :: "u8 \<Rightarrow> canonical_error + coverage" where
  "coverage_try_from v =
     (if v = 0 then Inr CoverageUnknown
      else if v = 1 then Inr CoverageComplete
      else if v = 2 then Inr CoveragePartial
      else if v = 3 then Inr CoverageUnreadable
      else if v = 4 then Inr CoverageFailed
      else Inl (UnknownVariant ''coverage'' v))"

section \<open>Encoder\<close>

text \<open>\<open>value\<close> is a \<open>usize\<close>, which does not fit the wire's \<open>u32\<close> from 2 ^ 32 on.\<close>

definition put_u32 :: "bytes \<Rightarrow> nat \<Rightarrow> string \<Rightarrow> canonical_error + bytes" where
  "put_u32 output value field =
     (if value < 2 ^ 32 then Inr (output @ word_to_be 4 (of_nat value :: u32))
      else Inl (FieldTooLong field))"

definition put_bytes :: "bytes \<Rightarrow> bytes \<Rightarrow> string \<Rightarrow> canonical_error + bytes" where
  "put_bytes output bs field =
     bindR (put_u32 output (length bs) field) (\<lambda>output. Inr (output @ bs))"

definition put_string :: "bytes \<Rightarrow> utf8 \<Rightarrow> string \<Rightarrow> canonical_error + bytes" where
  "put_string output s field = put_bytes output s field"

definition put_observed_at :: "bytes \<Rightarrow> timestamp option \<Rightarrow> bytes" where
  "put_observed_at output t =
     (case t of
        None \<Rightarrow> output @ [0]
      | Some t \<Rightarrow> output @ [1] @ word_to_be 8 (seconds t) @ word_to_be 4 (nanos t))"

fun put_labels :: "bytes \<Rightarrow> utf8 list \<Rightarrow> canonical_error + bytes" where
  "put_labels output [] = Inr output"
| "put_labels output (l # ls) =
     bindR (put_string output l ''label'') (\<lambda>output. put_labels output ls)"

definition nanos_out_of_range :: "timestamp \<Rightarrow> bool" where
  "nanos_out_of_range t \<longleftrightarrow> nanos t \<ge> 1000000000"

definition encode_evidence :: "evidence_binding \<Rightarrow> canonical_error + bytes" where
  "encode_evidence v =
     (if (case observed_at v of None \<Rightarrow> False | Some t \<Rightarrow> nanos_out_of_range t)
      then Inl InvalidNanoseconds
      else
        let output = MAGIC @ word_to_be 2 VERSION in
        bindR (put_string output (candidate_id v) ''candidate_id'') (\<lambda>output.
        bindR (put_bytes output (raw_path v) ''raw_path'') (\<lambda>output.
          let output = output @ word_to_be 8 (logical_bytes v);
              output = put_observed_at output (observed_at v);
              output = output @ [activity_as_u8 (activity v)];
              output = output @ [coverage_as_u8 (coverage v)];
              ls = sort_dedup (labels v)
          in bindR (put_u32 output (length ls) ''labels'') (\<lambda>output. put_labels output ls))))"

section \<open>Decoder\<close>

text \<open>Each operation takes the remaining input and returns what is left of it.\<close>

definition decoder_take :: "nat \<Rightarrow> string \<Rightarrow> bytes \<Rightarrow> canonical_error + bytes \<times> bytes" where
  "decoder_take count field remaining =
     (if length remaining < count then Inl (Truncated field)
      else Inr (take count remaining, drop count remaining))"

definition decoder_is_empty :: "bytes \<Rightarrow> bool" where
  "decoder_is_empty remaining \<longleftrightarrow> remaining = []"

definition decoder_remaining_len :: "bytes \<Rightarrow> nat" where
  "decoder_remaining_len remaining = length remaining"

definition decoder_u8 :: "string \<Rightarrow> bytes \<Rightarrow> canonical_error + u8 \<times> bytes" where
  "decoder_u8 field r =
     bindR (decoder_take 1 field r) (\<lambda>(value, r). Inr (value ! 0, r))"

definition decoder_u16 :: "string \<Rightarrow> bytes \<Rightarrow> canonical_error + u16 \<times> bytes" where
  "decoder_u16 field r =
     bindR (decoder_take 2 field r) (\<lambda>(value, r). Inr (word_from_be value, r))"

definition decoder_u32 :: "string \<Rightarrow> bytes \<Rightarrow> canonical_error + u32 \<times> bytes" where
  "decoder_u32 field r =
     bindR (decoder_take 4 field r) (\<lambda>(value, r). Inr (word_from_be value, r))"

definition decoder_u64 :: "string \<Rightarrow> bytes \<Rightarrow> canonical_error + u64 \<times> bytes" where
  "decoder_u64 field r =
     bindR (decoder_take 8 field r) (\<lambda>(value, r). Inr (word_from_be value, r))"

definition decoder_i64 :: "string \<Rightarrow> bytes \<Rightarrow> canonical_error + i64 \<times> bytes" where
  "decoder_i64 field r =
     bindR (decoder_take 8 field r) (\<lambda>(value, r). Inr (word_from_be value, r))"

definition decoder_bytes :: "string \<Rightarrow> bytes \<Rightarrow> canonical_error + bytes \<times> bytes" where
  "decoder_bytes field r =
     bindR (decoder_u32 field r) (\<lambda>(len, r). decoder_take (unat len) field r)"

definition decoder_string :: "string \<Rightarrow> bytes \<Rightarrow> canonical_error + utf8 \<times> bytes" where
  "decoder_string field r =
     bindR (decoder_bytes field r) (\<lambda>(bs, r).
       if valid_utf8 bs then Inr (bs, r) else Inl (InvalidUtf8 field))"

definition decode_observed_at :: "bytes \<Rightarrow> canonical_error + timestamp option \<times> bytes" where
  "decode_observed_at r =
     bindR (decoder_u8 ''observed_at variant'' r) (\<lambda>(variant, r).
       if variant = 0 then Inr (None, r)
       else if variant = 1 then
         bindR (decoder_i64 ''observed_at seconds'' r) (\<lambda>(s, r).
         bindR (decoder_u32 ''observed_at nanos'' r) (\<lambda>(n, r).
           let t = \<lparr>seconds = s, nanos = n\<rparr> in
           if nanos_out_of_range t then Inl InvalidNanoseconds else Inr (Some t, r)))
       else Inl (UnknownVariant ''observed_at'' variant))"

definition decode_activity :: "bytes \<Rightarrow> canonical_error + activity \<times> bytes" where
  "decode_activity r =
     bindR (decoder_u8 ''activity'' r) (\<lambda>(v, r).
     bindR (activity_try_from v) (\<lambda>a. Inr (a, r)))"

definition decode_coverage :: "bytes \<Rightarrow> canonical_error + coverage \<times> bytes" where
  "decode_coverage r =
     bindR (decoder_u8 ''coverage'' r) (\<lambda>(v, r).
     bindR (coverage_try_from v) (\<lambda>c. Inr (c, r)))"

text \<open>\<open>labels.windows(2).all(|pair| pair[0] < pair[1])\<close>\<close>

fun windows_ascending :: "utf8 list \<Rightarrow> bool" where
  "windows_ascending (x # y # zs) = (x < y \<and> windows_ascending (y # zs))"
| "windows_ascending _ = True"

definition decode_evidence_record :: "bytes \<Rightarrow> canonical_error + evidence_binding" where
  "decode_evidence_record bs =
     bindR (decoder_take 4 ''magic'' bs) (\<lambda>(magic, r).
     if magic \<noteq> MAGIC then Inl InvalidMagic else
     bindR (decoder_u16 ''version'' r) (\<lambda>(version, r).
     if version \<noteq> VERSION then Inl (UnsupportedVersion version) else
     bindR (decoder_string ''candidate_id'' r) (\<lambda>(cid, r).
     bindR (decoder_bytes ''raw_path'' r) (\<lambda>(path, r).
     bindR (decoder_u64 ''logical_bytes'' r) (\<lambda>(lbytes, r).
     bindR (decode_observed_at r) (\<lambda>(observed, r).
     bindR (decode_activity r) (\<lambda>(act, r).
     bindR (decode_coverage r) (\<lambda>(cov, r).
     bindR (decoder_u32 ''labels'' r) (\<lambda>(label_count, r).
     if unat label_count > decoder_remaining_len r div 4 then Inl (Truncated ''labels'') else
     bindR (decode_n (decoder_string ''label'') (unat label_count) r) (\<lambda>(ls, r).
     if \<not> windows_ascending ls then Inl NonCanonicalLabels else
     if \<not> decoder_is_empty r then Inl TrailingBytes else
     Inr \<lparr>candidate_id = cid, raw_path = path, logical_bytes = lbytes, observed_at = observed,
          activity = act, coverage = cov, labels = ls\<rparr>))))))))))"

definition verify_evidence :: "bytes \<Rightarrow> canonical_error + evidence_binding" where
  "verify_evidence bs =
     bindR (decode_evidence_record bs) (\<lambda>binding.
     bindR (encode_evidence binding) (\<lambda>encoded.
       if encoded \<noteq> bs then Inl NonCanonicalEncoding else Inr binding))"

definition evidence_domain :: bytes where
  "evidence_domain = ascii ''diskplan/evidence/v1'' @ [0]"

definition evidence_digest :: "(bytes \<Rightarrow> 'd) \<Rightarrow> bytes \<Rightarrow> canonical_error + 'd" where
  "evidence_digest sha256 canonical_bytes =
     bindR (verify_evidence canonical_bytes) (\<lambda>_.
       Inr (sha256 (evidence_domain @ canonical_bytes)))"

end
