(* ===== verification/Canonical_Laws.thy ===== *)
theory Canonical_Laws
  imports Canonical
begin

text \<open>
  The decoder operations as codecs, the byte layout of a record, and what the strict verifier
  guarantees: it accepts exactly the encodings of well-formed bindings, one per binding, no
  encoding is a prefix of another, and re-encoding never finds a difference.
\<close>

section \<open>Every field is a codec\<close>

lemma decoder_take_append [simp]:
  "length xs = n \<Longrightarrow> decoder_take n f (xs @ r) = Inr (xs, r)"
  by (simp add: decoder_take_def)

lemma decoder_take_Inr:
  "decoder_take n f bs = Inr (v, r) \<Longrightarrow> length v = n \<and> bs = v @ r"
  by (auto simp: decoder_take_def split: if_splits)

lemma decoder_take_short: "length bs < n \<Longrightarrow> decoder_take n f bs = Inl (Truncated f)"
  by (simp add: decoder_take_def)

lemma append_shorter: "p @ q = xs \<Longrightarrow> q \<noteq> [] \<Longrightarrow> length p < length xs"
  by auto

lemma word_field_codec:
  assumes "LENGTH('w::len) = 8 * k"
  shows "codec (word_to_be k)
     (\<lambda>r. bindR (decoder_take k f r) (\<lambda>(v, r). Inr (word_from_be v :: 'w word, r)))
     (\<lambda>_. True) is_truncated"
proof
  fix v :: "'w word" and r
  show "bindR (decoder_take k f (word_to_be k v @ r)) (\<lambda>(v, r). Inr (word_from_be v, r)) = Inr (v, r)"
    using assms by (simp add: word_from_to_be)
next
  fix bs and v :: "'w word" and r
  assume "bindR (decoder_take k f bs) (\<lambda>(v, r). Inr (word_from_be v, r)) = Inr (v, r)"
  then obtain x where "decoder_take k f bs = Inr (x, r)" "v = word_from_be x"
    by (auto simp: bindR_Inr_iff)
  then show "True \<and> bs = word_to_be k v @ r"
    using assms by (auto dest!: decoder_take_Inr simp: word_to_from_be)
next
  fix v :: "'w word" and p q
  assume "p @ q = word_to_be k v" "q \<noteq> []"
  then have "length p < k" using append_shorter by fastforce
  then show "\<exists>e. bindR (decoder_take k f p) (\<lambda>(v, r). Inr (word_from_be v, r)) = Inl e \<and> is_truncated e"
    by (simp add: decoder_take_short)
qed

interpretation u16c: codec "word_to_be 2" "decoder_u16 f" "\<lambda>_. True" is_truncated for f
  unfolding decoder_u16_def by (rule word_field_codec) simp

interpretation u32c: codec "word_to_be 4" "decoder_u32 f" "\<lambda>_. True" is_truncated for f
  unfolding decoder_u32_def by (rule word_field_codec) simp

interpretation u64c: codec "word_to_be 8" "decoder_u64 f" "\<lambda>_. True" is_truncated for f
  unfolding decoder_u64_def by (rule word_field_codec) simp

interpretation i64c: codec "word_to_be 8" "decoder_i64 f" "\<lambda>_. True" is_truncated for f
  unfolding decoder_i64_def by (rule word_field_codec) simp

interpretation u8c: codec "\<lambda>b. [b]" "decoder_u8 f" "\<lambda>_. True" is_truncated for f
proof
  fix bs v r
  assume "decoder_u8 f bs = Inr (v, r)"
  then show "True \<and> bs = [v] @ r"
    by (auto simp: decoder_u8_def bindR_Inr_iff length_Suc_conv dest!: decoder_take_Inr)
qed (auto simp: decoder_u8_def decoder_take_def append_eq_Cons_conv)

text \<open>A length-prefixed field.\<close>

definition enc_bytes :: "bytes \<Rightarrow> bytes" where
  "enc_bytes bs = word_to_be 4 (of_nat (length bs) :: u32) @ bs"

definition fits_u32 :: "'a list \<Rightarrow> bool" where
  "fits_u32 xs \<longleftrightarrow> length xs < 2 ^ 32"

lemma unat_of_nat_u32 [simp]: "n < 2 ^ 32 \<Longrightarrow> unat (of_nat n :: u32) = n"
  by (simp add: unat_of_nat)

interpretation bytesc: codec enc_bytes "decoder_bytes f" fits_u32 is_truncated for f
proof
  fix v :: bytes and r
  assume "fits_u32 v"
  then show "decoder_bytes f (enc_bytes v @ r) = Inr (v, r)"
    by (simp add: decoder_bytes_def enc_bytes_def fits_u32_def u32c.dec_enc)
next
  fix bs v r
  assume "decoder_bytes f bs = Inr (v, r)"
  then obtain len s where len: "decoder_u32 f bs = Inr (len, s)"
    and v: "decoder_take (unat len) f s = Inr (v, r)"
    by (auto simp: decoder_bytes_def bindR_Inr_iff)
  have "unat len < 2 ^ 32" using unat_less_2p [of len] by simp
  with decoder_take_Inr [OF v] u32c.dec_input [OF len]
  show "fits_u32 v \<and> bs = enc_bytes v @ r"
    by (auto simp: fits_u32_def enc_bytes_def)
next
  fix v p q :: bytes
  assume wf: "fits_u32 v" and pq: "p @ q = enc_bytes v" and q: "q \<noteq> []"
  from pq have "p @ q = word_to_be 4 (of_nat (length v) :: u32) @ v"
    by (simp add: enc_bytes_def)
  from u32c.dec_prefix [OF TrueI this, of f]
  show "\<exists>e. decoder_bytes f p = Inl e \<and> is_truncated e"
  proof (elim disjE exE conjE)
    fix p' assume *: "decoder_u32 f p = Inr (of_nat (length v), p')" "p' @ q = v"
    with q have "length p' < length v" by auto
    with * wf show ?thesis
      by (simp add: decoder_bytes_def fits_u32_def decoder_take_short)
  qed (simp add: decoder_bytes_def)
qed

definition wf_string :: "utf8 \<Rightarrow> bool" where
  "wf_string s \<longleftrightarrow> valid_utf8 s \<and> fits_u32 s"

interpretation stringc: codec enc_bytes "decoder_string f" wf_string is_truncated for f
proof
  fix v p q
  assume "wf_string v" "p @ q = enc_bytes v" "q \<noteq> []"
  then show "\<exists>e. decoder_string f p = Inl e \<and> is_truncated e"
    using bytesc.dec_trunc [of v p q f] by (auto simp: decoder_string_def wf_string_def)
qed (auto simp: decoder_string_def wf_string_def bytesc.dec_enc bindR_Inr_iff
       split: if_splits dest!: bytesc.dec_sound)

definition wf_observed :: "timestamp option \<Rightarrow> bool" where
  "wf_observed t \<longleftrightarrow> (case t of None \<Rightarrow> True | Some t \<Rightarrow> \<not> nanos_out_of_range t)"

interpretation observedc: codec "put_observed_at []" decode_observed_at wf_observed is_truncated
proof
  fix t r
  assume "wf_observed t"
  then show "decode_observed_at (put_observed_at [] t @ r) = Inr (t, r)"
    using u8c.dec_enc [where v = 0]
      u8c.dec_enc [where v = 1]
    by (auto simp: decode_observed_at_def put_observed_at_def wf_observed_def
        i64c.dec_enc u32c.dec_enc Let_def nanos_out_of_range_def split: option.splits)
next
  fix bs t r
  assume "decode_observed_at bs = Inr (t, r)"
  then show "wf_observed t \<and> bs = put_observed_at [] t @ r"
    by (auto simp: decode_observed_at_def put_observed_at_def wf_observed_def Let_def bindR_Inr_iff
        split: if_splits dest!: u8c.dec_input i64c.dec_input u32c.dec_input)
next
  fix t p q
  assume wf: "wf_observed t" and pq: "p @ q = put_observed_at [] t" and q: "q \<noteq> []"
  show "\<exists>e. decode_observed_at p = Inl e \<and> is_truncated e"
  proof (cases t)
    case None
    with pq q have "p = []" by (auto simp: put_observed_at_def append_eq_Cons_conv)
    then show ?thesis
      by (simp add: decode_observed_at_def decoder_u8_def decoder_take_def)
  next
    case (Some ts)
    with pq have "p @ q = [1] @ (word_to_be 8 (seconds ts) @ word_to_be 4 (nanos ts))"
      by (simp add: put_observed_at_def)
    from u8c.dec_prefix [OF TrueI this, of "''observed_at variant''"] consider
        (cut) e where "decoder_u8 ''observed_at variant'' p = Inl e" "is_truncated e"
      | (go) p1 where "decoder_u8 ''observed_at variant'' p = Inr (1, p1)"
          "p1 @ q = word_to_be 8 (seconds ts) @ word_to_be 4 (nanos ts)"
      by blast
    then show ?thesis
    proof cases
      case cut then show ?thesis by (simp add: decode_observed_at_def)
    next
      case go
      from i64c.dec_prefix [OF TrueI go(2), of "''observed_at seconds''"] go(1) q
        u32c.dec_trunc [of _ q "nanos ts" "''observed_at nanos''", OF TrueI]
      show ?thesis by (fastforce simp: decode_observed_at_def)
    qed
  qed
qed

interpretation activityc: codec "\<lambda>a. [activity_as_u8 a]" decode_activity "\<lambda>_. True" is_truncated
proof
  fix v :: activity and r
  show "decode_activity ([activity_as_u8 v] @ r) = Inr (v, r)"
    by (cases v) (simp_all add: decode_activity_def activity_try_from_def
        u8c.dec_enc [where r = r, simplified])
next
  fix bs v r
  assume "decode_activity bs = Inr (v, r)"
  then show "True \<and> bs = [activity_as_u8 v] @ r"
    by (auto simp: decode_activity_def activity_try_from_def bindR_Inr_iff
        split: if_splits dest!: u8c.dec_input)
qed (auto simp: decode_activity_def decoder_u8_def decoder_take_def append_eq_Cons_conv)

interpretation coveragec: codec "\<lambda>a. [coverage_as_u8 a]" decode_coverage "\<lambda>_. True" is_truncated
proof
  fix v :: coverage and r
  show "decode_coverage ([coverage_as_u8 v] @ r) = Inr (v, r)"
    by (cases v) (simp_all add: decode_coverage_def coverage_try_from_def
        u8c.dec_enc [where r = r, simplified])
next
  fix bs v r
  assume "decode_coverage bs = Inr (v, r)"
  then show "True \<and> bs = [coverage_as_u8 v] @ r"
    by (auto simp: decode_coverage_def coverage_try_from_def bindR_Inr_iff
        split: if_splits dest!: u8c.dec_input)
qed (auto simp: decode_coverage_def decoder_u8_def decoder_take_def append_eq_Cons_conv)

section \<open>The layout of a record\<close>

definition record_bytes :: "evidence_binding \<Rightarrow> bytes" where
  "record_bytes b =
     MAGIC @ word_to_be 2 VERSION @ enc_bytes (candidate_id b) @ enc_bytes (raw_path b) @
     word_to_be 8 (logical_bytes b) @ put_observed_at [] (observed_at b) @
     [activity_as_u8 (activity b)] @ [coverage_as_u8 (coverage b)] @
     word_to_be 4 (of_nat (length (labels b)) :: u32) @ concat (map enc_bytes (labels b))"

text \<open>The bindings a record can hold: every length fits its prefix, every string is UTF-8, the
  labels are strictly ascending.\<close>

definition canonical_binding :: "evidence_binding \<Rightarrow> bool" where
  "canonical_binding b \<longleftrightarrow>
     wf_string (candidate_id b) \<and> fits_u32 (raw_path b) \<and> wf_observed (observed_at b) \<and>
     fits_u32 (labels b) \<and> (\<forall>l\<in>set (labels b). wf_string l) \<and> ascending (labels b)"

text \<open>The type invariant of Rust: every \<open>String\<close> is UTF-8.\<close>

definition rust_binding :: "evidence_binding \<Rightarrow> bool" where
  "rust_binding b \<longleftrightarrow> valid_utf8 (candidate_id b) \<and> (\<forall>l\<in>set (labels b). valid_utf8 l)"

definition with_canonical_labels :: "evidence_binding \<Rightarrow> evidence_binding" where
  "with_canonical_labels b = b\<lparr>labels := sort_dedup (labels b)\<rparr>"

lemma length_MAGIC [simp]: "length MAGIC = 4"
  by (simp add: MAGIC_def ascii_def)

lemma windows_ascending_iff: "windows_ascending xs \<longleftrightarrow> ascending xs"
  by (induction xs rule: windows_ascending.induct) (auto intro: order.strict_trans)

lemma put_observed_at_append: "put_observed_at out t = out @ put_observed_at [] t"
  by (simp add: put_observed_at_def split: option.splits)

lemma put_string_eq:
  "put_string out s f = (if fits_u32 s then Inr (out @ enc_bytes s) else Inl (FieldTooLong f))"
  by (simp add: put_string_def put_bytes_def put_u32_def fits_u32_def enc_bytes_def)

lemma put_bytes_eq:
  "put_bytes out s f = (if fits_u32 s then Inr (out @ enc_bytes s) else Inl (FieldTooLong f))"
  using put_string_eq by (simp add: put_string_def)

lemma put_labels_eq:
  "put_labels out ls =
     (if \<forall>l\<in>set ls. fits_u32 l then Inr (out @ concat (map enc_bytes ls))
      else Inl (FieldTooLong ''label''))"
  by (induction ls arbitrary: out) (auto simp: put_string_eq)

lemma nanos_check_iff:
  "(case t of None \<Rightarrow> False | Some t \<Rightarrow> nanos_out_of_range t) \<longleftrightarrow> \<not> wf_observed t"
  by (simp add: wf_observed_def split: option.splits)

text \<open>What the encoder returns, errors included, in the order of its checks.\<close>

lemma encode_evidence_eq:
  "encode_evidence b =
     (if \<not> wf_observed (observed_at b) then Inl InvalidNanoseconds
      else if \<not> fits_u32 (candidate_id b) then Inl (FieldTooLong ''candidate_id'')
      else if \<not> fits_u32 (raw_path b) then Inl (FieldTooLong ''raw_path'')
      else if \<not> fits_u32 (sort_dedup (labels b)) then Inl (FieldTooLong ''labels'')
      else if \<exists>l\<in>set (labels b). \<not> fits_u32 l then Inl (FieldTooLong ''label'')
      else Inr (record_bytes (with_canonical_labels b)))"
  by (simp add: encode_evidence_def nanos_check_iff put_string_eq put_bytes_eq put_labels_eq
      put_observed_at_append [of "_ @ _"] put_u32_def fits_u32_def [of "sort_dedup _"] Let_def
      record_bytes_def with_canonical_labels_def)

lemma encode_canonical: "canonical_binding b \<Longrightarrow> encode_evidence b = Inr (record_bytes b)"
  by (auto simp: encode_evidence_eq canonical_binding_def with_canonical_labels_def wf_string_def
      sort_dedup_ascending)

lemma encode_Inr_canonical:
  assumes "rust_binding b" and "encode_evidence b = Inr bs"
  shows "canonical_binding (with_canonical_labels b) \<and> bs = record_bytes (with_canonical_labels b)"
  using assms by (auto simp: encode_evidence_eq canonical_binding_def with_canonical_labels_def
      rust_binding_def wf_string_def split: if_splits)

section \<open>Decoding\<close>

lemma length_labels_bytes: "4 * length ls \<le> length (concat (map enc_bytes ls))"
  by (induction ls) (auto simp: enc_bytes_def)

lemma decode_record_bytes:
  assumes "canonical_binding b"
  shows "decode_evidence_record (record_bytes b @ r) = (if r = [] then Inr b else Inl TrailingBytes)"
proof -
  have len: "length (labels b) \<le> length (concat (map enc_bytes (labels b)) @ r) div 4"
    using length_labels_bytes [of "labels b"] by simp
  have labels: "decode_n (decoder_string ''label'') (length (labels b))
      (concat (map enc_bytes (labels b)) @ r) = Inr (labels b, r)"
    using assms by (intro stringc.decode_n_enc) (simp add: canonical_binding_def)
  show ?thesis
    using assms len labels
    by (simp add: decode_evidence_record_def record_bytes_def canonical_binding_def
        u16c.dec_enc stringc.dec_enc bytesc.dec_enc u64c.dec_enc observedc.dec_enc
        activityc.dec_enc [simplified] coveragec.dec_enc [simplified] u32c.dec_enc
        decoder_remaining_len_def decoder_is_empty_def windows_ascending_iff fits_u32_def)
qed

lemma unat_u32_less [simp]: "unat (w :: u32) < 4294967296"
  using unat_less_2p [of w] by simp

lemma decode_sound:
  assumes "decode_evidence_record bs = Inr b"
  shows "canonical_binding b \<and> bs = record_bytes b"
  using assms
  by (auto simp: decode_evidence_record_def bindR_Inr_iff record_bytes_def canonical_binding_def
      decoder_is_empty_def windows_ascending_iff fits_u32_def
      split: if_splits dest!: decoder_take_Inr u16c.dec_sound stringc.dec_sound bytesc.dec_sound
      u64c.dec_sound observedc.dec_sound activityc.dec_sound coveragec.dec_sound u32c.dec_sound
      stringc.decode_n_sound)

lemma take_prefix:
  assumes "p @ q = xs @ rest" and "length xs = n"
    and "\<And>p'. p' @ q = rest \<Longrightarrow> truncates is_truncated (k (xs, p'))"
  shows "truncates is_truncated (bindR (decoder_take n f p) k)"
proof (cases "length p < n")
  case True
  then show ?thesis by (simp add: decoder_take_short)
next
  case False
  with assms(1,2) obtain p' where "p = xs @ p'" "p' @ q = rest"
    by (auto simp: append_eq_append_conv2)
  with assms(2,3) show ?thesis by simp
qed

lemma decode_truncated:
  assumes wf: "canonical_binding b" and cut: "p @ q = record_bytes b" and q: "q \<noteq> []"
  shows "truncates is_truncated (decode_evidence_record p)"
proof -
  have wfs: "wf_string (candidate_id b)" "fits_u32 (raw_path b)" "wf_observed (observed_at b)"
      "length (labels b) < 2 ^ 32" "\<forall>l\<in>set (labels b). wf_string l"
    using wf by (simp_all add: canonical_binding_def fits_u32_def)
  show ?thesis
    unfolding decode_evidence_record_def
    apply (rule take_prefix [OF cut [unfolded record_bytes_def]])
     apply simp
    apply (simp only: prod.case not_True_eq_False refl if_False)
    apply (erule u16c.truncates_bind, simp)
    apply (simp only: prod.case not_True_eq_False refl if_False)
    apply (erule stringc.truncates_bind, rule wfs, simp only: prod.case)
    apply (erule bytesc.truncates_bind, rule wfs, simp only: prod.case)
    apply (erule u64c.truncates_bind, simp, simp only: prod.case)
    apply (erule observedc.truncates_bind, rule wfs, simp only: prod.case)
    apply (erule activityc.truncates_bind, simp, simp only: prod.case)
    apply (erule coveragec.truncates_bind, simp, simp only: prod.case)
    apply (erule u32c.truncates_bind, simp)
    using wfs q by (auto intro!: stringc.truncates_decode_n)
qed

section \<open>Properties of the evidence record\<close>

lemma verify_eq_decode: "verify_evidence bs = decode_evidence_record bs"
proof (cases "decode_evidence_record bs")
  case (Inr b)
  with decode_sound [OF Inr] show ?thesis
    by (simp add: verify_evidence_def encode_canonical)
qed (simp add: verify_evidence_def)

lemma verify_record_bytes: "canonical_binding b \<Longrightarrow> verify_evidence (record_bytes b) = Inr b"
  using decode_record_bytes [of b "[]"] by (simp add: verify_eq_decode)

lemma verify_Inr_iff: "verify_evidence bs = Inr b \<longleftrightarrow> canonical_binding b \<and> bs = record_bytes b"
  using decode_sound [of bs b] verify_record_bytes by (auto simp: verify_eq_decode)

definition sample_binding :: evidence_binding where
  "sample_binding = \<lparr>candidate_id = ascii ''c1'', raw_path = [0x2F, 0xFF], logical_bytes = 4096,
     observed_at = Some \<lparr>seconds = 0xFFFFFFFFFFFFFFFF, nanos = 999999999\<rparr>, activity = ActivityActive,
     coverage = CoveragePartial, labels = [ascii ''b'', ascii ''a'', ascii ''b'']\<rparr>"

definition sample_record :: bytes where
  "sample_record =
     [0x44, 0x50, 0x43, 0x42, 0, 1, 0, 0, 0, 2, 0x63, 0x31, 0, 0, 0, 2, 0x2F, 0xFF,
      0, 0, 0, 0, 0, 0, 0x10, 0, 1, 0xFF, 0xFF, 0xFF, 0xFF, 0xFF, 0xFF, 0xFF, 0xFF,
      0x3B, 0x9A, 0xC9, 0xFF, 3, 2, 0, 0, 0, 2, 0, 0, 0, 1, 0x61, 0, 0, 0, 1, 0x62]"

lemma sample_rust_binding: "rust_binding sample_binding"
  by (simp add: rust_binding_def sample_binding_def ascii_def)

lemma sample_encoding: "encode_evidence sample_binding = Inr sample_record"
  by (simp add: encode_evidence_def sample_binding_def sample_record_def put_string_def
      put_bytes_def put_u32_def MAGIC_def VERSION_def nanos_out_of_range_def put_observed_at_def
      ascii_def sort_dedup_def word_to_be_def)

lemma sample_verified:
  "verify_evidence sample_record = Inr (with_canonical_labels sample_binding)"
  using encode_Inr_canonical [OF sample_rust_binding sample_encoding] verify_Inr_iff by blast

text \<open>C10: What the encoder writes for any binding (its labels in any order, with duplicates) is
  verified, and the binding read back is the one encoded with its labels sorted and deduplicated.\<close>

theorem encode_then_verify:
  assumes "rust_binding b" and "encode_evidence b = Inr bs"
  shows "verify_evidence bs = Inr (b\<lparr>labels := sort_dedup (labels b)\<rparr>)"
  using encode_Inr_canonical [OF assms] verify_record_bytes
  by (simp add: with_canonical_labels_def)

theorem encode_then_verify_witness:
  "verify_evidence sample_record = Inr (sample_binding\<lparr>labels := [ascii ''a'', ascii ''b'']\<rparr>)"
proof -
  have "sort_dedup (labels sample_binding) = [ascii ''a'', ascii ''b'']"
    by (simp add: sample_binding_def sort_dedup_def ascii_def)
  with encode_then_verify [OF sample_rust_binding sample_encoding] show ?thesis by simp
qed

text \<open>The strict decoder already accepts only canonical bytes: the verifier's re-encoding never
  fails and never differs, so the verifier and the decoder agree on every input, errors included.\<close>

theorem verify_agrees_with_decode: "verify_evidence bs = decode_evidence_record bs"
  by (rule verify_eq_decode)

text \<open>C19: Exactness: the verifier accepts a byte string as the binding \<open>b\<close> exactly when \<open>b\<close> is well
  formed with ascending labels and the bytes are what the encoder writes for \<open>b\<close>.\<close>

theorem verify_exact:
  "verify_evidence bs = Inr b \<longleftrightarrow> canonical_binding b \<and> encode_evidence b = Inr bs"
  using encode_canonical [of b] by (auto simp: verify_Inr_iff)

text \<open>C29: No record is a proper prefix of another: cutting a verified record anywhere is reported as a
  truncation, and appending anything at all to it as trailing bytes.\<close>

theorem verify_prefix_free:
  assumes "verify_evidence bs = Inr b"
  shows "(bs = p @ q \<and> q \<noteq> [] \<longrightarrow> (\<exists>field. verify_evidence p = Inl (Truncated field)))
    \<and> verify_evidence (bs @ r) = (if r = [] then Inr b else Inl TrailingBytes)"
proof -
  have b: "canonical_binding b" "bs = record_bytes b"
    using assms by (simp_all add: verify_Inr_iff)
  have "\<exists>field. verify_evidence p = Inl (Truncated field)" if "bs = p @ q" "q \<noteq> []"
  proof -
    have "truncates is_truncated (verify_evidence p)"
      using decode_truncated [OF b(1) _ that(2), of p] b(2) that(1) by (simp add: verify_eq_decode)
    then show ?thesis by (auto simp: truncates_def elim: is_truncated.elims)
  qed
  moreover have "verify_evidence (bs @ r) = (if r = [] then Inr b else Inl TrailingBytes)"
    using decode_record_bytes [OF b(1), of r] b(2) by (simp add: verify_eq_decode)
  ultimately show ?thesis by blast
qed

theorem verify_prefix_free_witness:
  "(\<exists>field. verify_evidence (take 20 sample_record) = Inl (Truncated field))
    \<and> verify_evidence (sample_record @ [0xFF]) = Inl TrailingBytes"
proof -
  have "sample_record = take 20 sample_record @ drop 20 sample_record" by simp
  moreover have "drop 20 sample_record \<noteq> []" by (simp add: sample_record_def)
  moreover note verify_prefix_free [OF sample_verified, of "take 20 sample_record" "drop 20 sample_record" "[0xFF]"]
  ultimately show ?thesis by simp
qed

text \<open>Encoding fails exactly when the nanoseconds are out of range or a length does not fit its
  32-bit prefix, and its result depends on the set of labels only, not on their order.\<close>

theorem encode_total_and_order_free:
  "(is_ok (encode_evidence (b\<lparr>labels := ls\<rparr>)) \<longleftrightarrow>
      wf_observed (observed_at b) \<and> length (candidate_id b) < 2 ^ 32 \<and> length (raw_path b) < 2 ^ 32
      \<and> card (set ls) < 2 ^ 32 \<and> list_all (\<lambda>l. length l < 2 ^ 32) ls)
   \<and> (set ls = set ls' \<longrightarrow>
      encode_evidence (b\<lparr>labels := ls\<rparr>) = encode_evidence (b\<lparr>labels := ls'\<rparr>))"
proof -
  have "length (sort_dedup ls) = card (set ls)"
    by (metis ascending_sort_dedup distinct_card set_sort_dedup strict_sorted_iff)
  then show ?thesis
    using sort_dedup_cong [of ls ls']
    by (auto simp: encode_evidence_eq fits_u32_def list_all_iff with_canonical_labels_def)
qed

theorem encode_total_and_order_free_witness:
  "encode_evidence (sample_binding\<lparr>labels := [ascii ''b'', ascii ''a'']\<rparr>)
     = encode_evidence (sample_binding\<lparr>labels := [ascii ''a'', ascii ''b'', ascii ''a'']\<rparr>)"
  using encode_total_and_order_free
    [where b = sample_binding and ls = "[ascii ''b'', ascii ''a'']"
      and ls' = "[ascii ''a'', ascii ''b'', ascii ''a'']"]
  by auto

text \<open>The digest rejects exactly what the verifier rejects, and for a verified record it hashes the
  domain tag followed by the one encoding of its binding, so equal bindings have equal digests.\<close>

theorem digest_of_binding:
  "evidence_digest sha256 bs =
     (case verify_evidence bs of
        Inl e \<Rightarrow> Inl e
      | Inr b \<Rightarrow> bindR (encode_evidence b) (\<lambda>enc. Inr (sha256 (ascii ''diskplan/evidence/v1'' @ [0] @ enc))))"
proof (cases "verify_evidence bs")
  case (Inr b)
  then have "encode_evidence b = Inr bs"
    by (auto simp: verify_Inr_iff encode_canonical)
  with Inr show ?thesis
    by (simp add: evidence_digest_def evidence_domain_def)
qed (simp add: evidence_digest_def)

end
