(* ===== verification/Framing.thy ===== *)
theory Framing
  imports Codec
begin

text \<open>
  The length-prefixed frames of \<open>diskplan-core/src/framing.rs\<close>. The reader is a script of what
  its \<open>read\<close> calls meet (some bytes, a signal, a failure, end of file once the script is over),
  so every way the kernel can cut a stream into short reads is a script. The writer is a
  parameter, as it is in the code: its \<open>write_all\<close> and \<open>flush\<close> on a state of its own.
\<close>

section \<open>Errors and environment\<close>

datatype frame_error =
    FrameIo io_error
  | TruncatedPrefix nat
  | Oversized nat nat
  | TruncatedPayload nat nat

text \<open>What one \<open>read\<close> call meets.\<close>

datatype read_event = Data bytes | Interrupted | Failure io_error

datatype read_outcome = ReadOk bytes | ReadInterrupted | ReadFailed io_error

text \<open>\<open>reader.read(&mut buffer[offset..])\<close> with \<open>room\<close> bytes left in the buffer: at most \<open>room\<close>
  bytes of the next chunk, the rest of which stays for the next call; \<open>Ok(0)\<close> at end of file.\<close>

fun reader_read :: "nat \<Rightarrow> read_event list \<Rightarrow> read_outcome \<times> read_event list" where
  "reader_read room [] = (ReadOk [], [])"
| "reader_read room (Data bs # evs) =
     (if length bs \<le> room then (ReadOk bs, evs)
      else (ReadOk (take room bs), Data (drop room bs) # evs))"
| "reader_read room (Interrupted # evs) = (ReadInterrupted, evs)"
| "reader_read room (Failure e # evs) = (ReadFailed e, evs)"

definition MAX_FRAME_LENGTH :: nat where
  "MAX_FRAME_LENGTH = 16 * 1024 * 1024"

section \<open>Reading\<close>

text \<open>The amount of work a script still holds: its calls and its bytes.\<close>

fun script_size :: "read_event list \<Rightarrow> nat" where
  "script_size [] = 0"
| "script_size (Data bs # evs) = Suc (length bs) + script_size evs"
| "script_size (_ # evs) = Suc (script_size evs)"

lemma reader_read_size:
  "reader_read room evs = (out, evs') \<Longrightarrow> 0 < room \<Longrightarrow> evs \<noteq> [] \<Longrightarrow> script_size evs' < script_size evs"
  by (induction room evs rule: reader_read.induct) (auto split: if_splits)

text \<open>
  The loop of \<open>read_until_eof\<close> with \<open>buf\<close> the \<open>offset\<close> bytes read so far and \<open>want\<close> the size of
  the buffer. The result is the bytes in the buffer, of which there are \<open>offset\<close>.
\<close>

function read_loop :: "nat \<Rightarrow> bytes \<Rightarrow> read_event list \<Rightarrow> io_error + bytes \<times> read_event list" where
  "read_loop want buf evs =
     (if length buf < want then
        (case reader_read (want - length buf) evs of
           (ReadOk bs, evs') \<Rightarrow>
             if bs = [] then Inr (buf, evs') else read_loop want (buf @ bs) evs'
         | (ReadInterrupted, evs') \<Rightarrow> read_loop want buf evs'
         | (ReadFailed e, evs') \<Rightarrow> Inl e)
      else Inr (buf, evs))"
  by pat_completeness auto
termination
proof (relation "measure (\<lambda>(want, buf, evs). script_size evs)", goal_cases)
  case (2 want buf evs x evs' bs)
  then have "evs \<noteq> []" by (cases evs) auto
  with 2 show ?case
    using reader_read_size [of "want - length buf" evs "ReadOk bs" evs'] by simp
next
  case (3 want buf evs x evs')
  then have "evs \<noteq> []" by (cases evs) auto
  with 3 show ?case
    using reader_read_size [of "want - length buf" evs ReadInterrupted evs'] by simp
qed simp

declare read_loop.simps [simp del]

definition read_until_eof :: "nat \<Rightarrow> read_event list \<Rightarrow> io_error + bytes \<times> read_event list" where
  "read_until_eof want evs = read_loop want [] evs"

definition map_io :: "io_error + 'a \<Rightarrow> frame_error + 'a" where
  "map_io r = (case r of Inl e \<Rightarrow> Inl (FrameIo e) | Inr x \<Rightarrow> Inr x)"

lemma map_io_simps [simp]: "map_io (Inl e) = Inl (FrameIo e)" "map_io (Inr x) = Inr x"
  by (simp_all add: map_io_def)

definition read_frame :: "read_event list \<Rightarrow> frame_error + bytes option \<times> read_event list" where
  "read_frame reader =
     bindR (map_io (read_until_eof 4 reader)) (\<lambda>(prefix, reader).
       if length prefix = 0 then Inr (None, reader)
       else if length prefix \<noteq> 4 then Inl (TruncatedPrefix (length prefix))
       else
         let len = unat (word_from_be prefix :: u32) in
         if len > MAX_FRAME_LENGTH then Inl (Oversized len MAX_FRAME_LENGTH)
         else
           bindR (map_io (read_until_eof len reader)) (\<lambda>(payload, reader).
             if length payload \<noteq> len then Inl (TruncatedPayload len (length payload))
             else Inr (Some payload, reader)))"

section \<open>Writing\<close>

definition write_frame ::
  "('w \<Rightarrow> bytes \<Rightarrow> io_error + 'w) \<Rightarrow> ('w \<Rightarrow> io_error + 'w) \<Rightarrow> 'w \<Rightarrow> bytes \<Rightarrow> frame_error + 'w" where
  "write_frame write_all flush writer payload =
     (if length payload > MAX_FRAME_LENGTH
      then Inl (Oversized (length payload) MAX_FRAME_LENGTH)
      else
        bindR (map_io (write_all writer (word_to_be 4 (of_nat (length payload) :: u32)))) (\<lambda>writer.
        bindR (map_io (write_all writer payload)) (\<lambda>writer.
        map_io (flush writer))))"

text \<open>The writer the tests use, a \<open>Vec<u8>\<close>: \<open>write_all\<close> appends and nothing fails.\<close>

definition vec_write_all :: "bytes \<Rightarrow> bytes \<Rightarrow> io_error + bytes" where
  "vec_write_all out bs = Inr (out @ bs)"

definition vec_flush :: "bytes \<Rightarrow> io_error + bytes" where
  "vec_flush out = Inr out"

section \<open>A stream seen through short reads\<close>

text \<open>The bytes of a script that meets no failure and no early end of file.\<close>

fun stream_bytes :: "read_event list \<Rightarrow> bytes" where
  "stream_bytes [] = []"
| "stream_bytes (Data bs # evs) = bs @ stream_bytes evs"
| "stream_bytes (_ # evs) = stream_bytes evs"

fun well_behaved :: "read_event list \<Rightarrow> bool" where
  "well_behaved [] = True"
| "well_behaved (Data bs # evs) = (bs \<noteq> [] \<and> well_behaved evs)"
| "well_behaved (Interrupted # evs) = well_behaved evs"
| "well_behaved (Failure e # evs) = False"

lemma reader_read_well_behaved:
  "well_behaved evs \<Longrightarrow> 0 < room \<Longrightarrow> reader_read room evs = (out, evs') \<Longrightarrow>
     well_behaved evs' \<and>
     (case out of
        ReadOk bs \<Rightarrow> stream_bytes evs = bs @ stream_bytes evs' \<and> length bs \<le> room
          \<and> (bs = [] \<longrightarrow> evs = [] \<and> evs' = [])
      | ReadInterrupted \<Rightarrow> stream_bytes evs = stream_bytes evs'
      | ReadFailed e \<Rightarrow> False)"
  by (induction room evs rule: reader_read.induct) (auto split: if_splits)

lemma read_loop_well_behaved:
  "well_behaved evs \<Longrightarrow> length buf \<le> want \<Longrightarrow>
     \<exists>evs'. read_loop want buf evs = Inr (buf @ take (want - length buf) (stream_bytes evs), evs')
       \<and> stream_bytes evs' = drop (want - length buf) (stream_bytes evs) \<and> well_behaved evs'"
proof (induction want buf evs rule: read_loop.induct)
  case (1 want buf evs)
  show ?case
  proof (cases "length buf < want")
    case True
    obtain out evs' where rd: "reader_read (want - length buf) evs = (out, evs')"
      by (cases "reader_read (want - length buf) evs")
    from True have room: "0 < want - length buf" by simp
    note wb = reader_read_well_behaved [OF 1(3) room rd]
    show ?thesis
    proof (cases out)
      case (ReadOk bs)
      with wb rd have bs: "stream_bytes evs = bs @ stream_bytes evs'" "length bs \<le> want - length buf"
        "bs = [] \<Longrightarrow> evs = [] \<and> evs' = []" "well_behaved evs'" by auto
      show ?thesis
      proof (cases "bs = []")
        case True
        with bs rd ReadOk \<open>length buf < want\<close> show ?thesis
          by (subst read_loop.simps) simp
      next
        case False
        from 1(1) [OF True rd [symmetric] ReadOk False bs(4)] bs(2) True
        show ?thesis
          using rd ReadOk False bs(1) by (subst read_loop.simps) (simp add: diff_diff_left)
      qed
    next
      case ReadInterrupted
      with 1(2) [OF True rd [symmetric] ReadInterrupted] wb rd 1(4) True show ?thesis
        by (subst read_loop.simps) simp
    next
      case (ReadFailed e)
      with wb show ?thesis by simp
    qed
  next
    case False
    with 1(3,4) show ?thesis by (subst read_loop.simps) simp
  qed
qed

lemma read_until_eof_well_behaved:
  assumes "well_behaved evs"
  obtains evs' where "read_until_eof want evs = Inr (take want (stream_bytes evs), evs')"
    "stream_bytes evs' = drop want (stream_bytes evs)" "well_behaved evs'"
  using read_loop_well_behaved [OF assms, of "[]" want] by (auto simp: read_until_eof_def)

end
