(* ===== verification/Framing_Laws.thy ===== *)
theory Framing_Laws
  imports Framing
begin

text \<open>
  What the frame reader computes on a byte stream, whatever way the stream is cut into reads,
  and that it reads back what the writer wrote.
\<close>

section \<open>The stream specification\<close>

definition parse_frame :: "bytes \<Rightarrow> frame_error + bytes option \<times> bytes" where
  "parse_frame s =
     (if s = [] then Inr (None, [])
      else if length s < 4 then Inl (TruncatedPrefix (length s))
      else
        let n = from_be (take 4 s); rest = drop 4 s in
        if n > MAX_FRAME_LENGTH then Inl (Oversized n MAX_FRAME_LENGTH)
        else if length rest < n then Inl (TruncatedPayload n (length rest))
        else Inr (Some (take n rest), drop n rest))"

definition frame_bytes :: "bytes \<Rightarrow> bytes" where
  "frame_bytes payload = word_to_be 4 (of_nat (length payload) :: u32) @ payload"

lemma read_frame_stream:
  assumes "well_behaved evs"
  shows "(case read_frame evs of
            Inl e \<Rightarrow> parse_frame (stream_bytes evs) = Inl e
          | Inr (p, evs') \<Rightarrow> parse_frame (stream_bytes evs) = Inr (p, stream_bytes evs') \<and> well_behaved evs')"
proof -
  obtain e1 where e1: "read_until_eof 4 evs = Inr (take 4 (stream_bytes evs), e1)"
      "stream_bytes e1 = drop 4 (stream_bytes evs)" "well_behaved e1"
    using read_until_eof_well_behaved [OF assms] .
  show ?thesis
  proof (cases "length (stream_bytes evs) < 4")
    case True
    with e1 show ?thesis
      by (auto simp: read_frame_def parse_frame_def split: sum.split)
  next
    case False
    let ?n = "unat (word_from_be (take 4 (stream_bytes evs)) :: u32)"
    from False have n: "?n = from_be (take 4 (stream_bytes evs))"
      by (simp add: unat_word_from_be)
    obtain e2 where "read_until_eof ?n e1 = Inr (take ?n (stream_bytes e1), e2)"
        "stream_bytes e2 = drop ?n (stream_bytes e1)" "well_behaved e2"
      using read_until_eof_well_behaved [OF e1(3)] .
    with False e1 show ?thesis
      by (auto simp: read_frame_def parse_frame_def n [symmetric] Let_def)
  qed
qed

lemma parse_frame_bytes:
  assumes "length payload \<le> MAX_FRAME_LENGTH"
  shows "parse_frame (frame_bytes payload @ rest) = Inr (Some payload, rest)"
proof -
  have "from_be (word_to_be 4 (of_nat (length payload) :: u32)) = length payload"
    using assms by (simp add: word_to_be_def from_be_be_bytes MAX_FRAME_LENGTH_def unat_of_nat
        del: be_bytes_numeral)
  with assms show ?thesis
    by (simp add: parse_frame_def frame_bytes_def)
qed

lemma vec_write_frame:
  "write_frame vec_write_all vec_flush out payload =
     (if length payload > MAX_FRAME_LENGTH then Inl (Oversized (length payload) MAX_FRAME_LENGTH)
      else Inr (out @ frame_bytes payload))"
  by (simp add: write_frame_def vec_write_all_def vec_flush_def frame_bytes_def)

section \<open>Properties\<close>

text \<open>C30: However a byte stream is cut into reads (short reads, signals between them), \<open>read_frame\<close>
  returns what the frame format says of the bytes: clean end of file, the payload and the rest
  of the stream, or the precise truncation or size error.\<close>

theorem read_frame_ignores_chunking:
  assumes "well_behaved evs"
  shows "map_sum id (map_prod id stream_bytes) (read_frame evs) = parse_frame (stream_bytes evs)"
  using read_frame_stream [OF assms] by (auto split: sum.splits)

theorem read_frame_ignores_chunking_witness:
  "map_sum id (map_prod id stream_bytes)
     (read_frame [Data [0, 0], Interrupted, Data [0], Data [3, 97], Data [98]])
   = Inl (TruncatedPayload 3 2)"
proof -
  have "well_behaved [Data [0, 0], Interrupted, Data [0], Data [3, 97], Data [98]]" by simp
  from read_frame_ignores_chunking [OF this] show ?thesis
    by (simp add: parse_frame_def from_be_def MAX_FRAME_LENGTH_def)
qed

text \<open>C31: Reading back: a stream that starts with what \<open>write_frame\<close> wrote yields that payload, leaves
  exactly the rest, and no frame over the limit is ever written or returned by a read.\<close>

theorem frame_roundtrip:
  "(\<forall>bs. write_frame vec_write_all vec_flush [] payload = Inr bs \<longrightarrow>
      well_behaved evs \<longrightarrow> stream_bytes evs = bs @ rest \<longrightarrow>
      (\<exists>evs'. read_frame evs = Inr (Some payload, evs') \<and> stream_bytes evs' = rest))
   \<and> (\<forall>p evs'. read_frame evs = Inr (Some p, evs') \<longrightarrow> length p \<le> MAX_FRAME_LENGTH)
   \<and> (length payload > MAX_FRAME_LENGTH \<longrightarrow>
      write_frame wa fl w payload = Inl (Oversized (length payload) MAX_FRAME_LENGTH))"
proof (intro conjI allI impI)
  fix bs assume bs: "write_frame vec_write_all vec_flush [] payload = Inr bs"
    and evs: "well_behaved evs" "stream_bytes evs = bs @ rest"
  from bs have "parse_frame (stream_bytes evs) = Inr (Some payload, rest)"
    by (auto simp: vec_write_frame evs(2) parse_frame_bytes split: if_splits)
  with read_frame_stream [OF evs(1)]
  show "\<exists>evs'. read_frame evs = Inr (Some payload, evs') \<and> stream_bytes evs' = rest"
    by (auto split: sum.splits)
next
  fix p evs' assume "read_frame evs = Inr (Some p, evs')"
  then show "length p \<le> MAX_FRAME_LENGTH"
    by (auto simp: read_frame_def bindR_Inr_iff Let_def split: if_splits)
qed (simp add: write_frame_def)

theorem frame_roundtrip_witness:
  "\<exists>evs'. read_frame [Data [0, 0, 0], Data [3, 97, 98, 99, 0]] = Inr (Some [97, 98, 99], evs')
     \<and> stream_bytes evs' = [0]"
proof -
  have "write_frame vec_write_all vec_flush [] [97, 98, 99] = Inr [0, 0, 0, 3, 97, 98, 99]"
    by (simp add: vec_write_frame frame_bytes_def MAX_FRAME_LENGTH_def word_to_be_def)
  then show ?thesis
    using frame_roundtrip [where payload = "[97, 98, 99]" and rest = "[0]"
      and evs = "[Data [0, 0, 0], Data [3, 97, 98, 99, 0]]"
      and wa = vec_write_all and fl = vec_flush and w = "[]"]
    by auto
qed

end
