(* ===== verification/Proto.thy ===== *)
theory Proto
  imports Prelude
begin

text \<open>
  The messages of \<open>diskplan-proto\<close> (the tracked \<open>generated/diskplan.v1.rs\<close>). An enumeration
  field is an \<open>i32\<close> on the message and a Rust enum after \<open>try_from\<close>, whose discriminants are the
  ones written in the enum; a \<open>oneof\<close> is an optional datatype. Field names carry the message's
  initials, since two records cannot share a field name. The wire encoding of the messages is
  the \<open>prost\<close> package's and appears as parameters where it is used.
\<close>

section \<open>Enumerations\<close>

datatype reject_code =
    RejectUnspecified | ProtocolMajorMismatch | MissingRequiredCapability
  | BusinessBeforeHandshake | MalformedEnvelope | FrameTooLarge | InternalError
  | BusinessUnsupported

datatype scan_control_kind =
    ControlUnspecified | StartScan | PauseScan | ResumeScan
  | PauseAndBuildProvisionalPlan | CancelScan

datatype scan_state =
    StateUnspecified | Idle | Running | Paused | BuildingProvisionalPlan
  | PlanReady | Cancelling | Cancelled | Finished | Failed

datatype control_reject_code =
    ControlRejectUnspecified | InvalidState | DuplicateRequestId | MalformedRequest

fun reject_code_as_i32 :: "reject_code \<Rightarrow> i32" where
  "reject_code_as_i32 RejectUnspecified = 0"
| "reject_code_as_i32 ProtocolMajorMismatch = 1"
| "reject_code_as_i32 MissingRequiredCapability = 2"
| "reject_code_as_i32 BusinessBeforeHandshake = 3"
| "reject_code_as_i32 MalformedEnvelope = 4"
| "reject_code_as_i32 FrameTooLarge = 5"
| "reject_code_as_i32 InternalError = 6"
| "reject_code_as_i32 BusinessUnsupported = 7"

fun control_as_i32 :: "scan_control_kind \<Rightarrow> i32" where
  "control_as_i32 ControlUnspecified = 0"
| "control_as_i32 StartScan = 1"
| "control_as_i32 PauseScan = 2"
| "control_as_i32 ResumeScan = 3"
| "control_as_i32 PauseAndBuildProvisionalPlan = 4"
| "control_as_i32 CancelScan = 5"

fun scan_state_as_i32 :: "scan_state \<Rightarrow> i32" where
  "scan_state_as_i32 StateUnspecified = 0"
| "scan_state_as_i32 Idle = 1"
| "scan_state_as_i32 Running = 2"
| "scan_state_as_i32 Paused = 3"
| "scan_state_as_i32 BuildingProvisionalPlan = 4"
| "scan_state_as_i32 PlanReady = 5"
| "scan_state_as_i32 Cancelling = 6"
| "scan_state_as_i32 Cancelled = 7"
| "scan_state_as_i32 Finished = 8"
| "scan_state_as_i32 Failed = 9"

fun control_reject_code_as_i32 :: "control_reject_code \<Rightarrow> i32" where
  "control_reject_code_as_i32 ControlRejectUnspecified = 0"
| "control_reject_code_as_i32 InvalidState = 1"
| "control_reject_code_as_i32 DuplicateRequestId = 2"
| "control_reject_code_as_i32 MalformedRequest = 3"

text \<open>\<open>TryFrom<i32>\<close>: the variant with that discriminant, if there is one.\<close>

definition scan_state_try_from :: "i32 \<Rightarrow> scan_state option" where
  "scan_state_try_from v =
     (if v = 0 then Some StateUnspecified
      else if v = 1 then Some Idle
      else if v = 2 then Some Running
      else if v = 3 then Some Paused
      else if v = 4 then Some BuildingProvisionalPlan
      else if v = 5 then Some PlanReady
      else if v = 6 then Some Cancelling
      else if v = 7 then Some Cancelled
      else if v = 8 then Some Finished
      else if v = 9 then Some Failed
      else None)"

definition control_reject_code_try_from :: "i32 \<Rightarrow> control_reject_code option" where
  "control_reject_code_try_from v =
     (if v = 0 then Some ControlRejectUnspecified
      else if v = 1 then Some InvalidState
      else if v = 2 then Some DuplicateRequestId
      else if v = 3 then Some MalformedRequest
      else None)"

lemma scan_state_try_from_as_i32 [simp]: "scan_state_try_from (scan_state_as_i32 s) = Some s"
  by (cases s) (simp_all add: scan_state_try_from_def)

lemma scan_state_try_from_Some: "scan_state_try_from v = Some s \<Longrightarrow> v = scan_state_as_i32 s"
  by (auto simp: scan_state_try_from_def split: if_splits)

lemma control_reject_code_try_from_as_i32 [simp]:
  "control_reject_code_try_from (control_reject_code_as_i32 c) = Some c"
  by (cases c) (simp_all add: control_reject_code_try_from_def)

lemma control_as_i32_inject [simp]: "control_as_i32 a = control_as_i32 b \<longleftrightarrow> a = b"
  by (cases a; cases b) simp_all

section \<open>Schema names\<close>

fun reject_code_as_str_name :: "reject_code \<Rightarrow> string" where
  "reject_code_as_str_name RejectUnspecified = ''REJECT_CODE_UNSPECIFIED''"
| "reject_code_as_str_name ProtocolMajorMismatch = ''REJECT_CODE_PROTOCOL_MAJOR_MISMATCH''"
| "reject_code_as_str_name MissingRequiredCapability = ''REJECT_CODE_MISSING_REQUIRED_CAPABILITY''"
| "reject_code_as_str_name BusinessBeforeHandshake = ''REJECT_CODE_BUSINESS_BEFORE_HANDSHAKE''"
| "reject_code_as_str_name MalformedEnvelope = ''REJECT_CODE_MALFORMED_ENVELOPE''"
| "reject_code_as_str_name FrameTooLarge = ''REJECT_CODE_FRAME_TOO_LARGE''"
| "reject_code_as_str_name InternalError = ''REJECT_CODE_INTERNAL_ERROR''"
| "reject_code_as_str_name BusinessUnsupported = ''REJECT_CODE_BUSINESS_UNSUPPORTED''"

definition reject_code_from_str_name :: "string \<Rightarrow> reject_code option" where
  "reject_code_from_str_name v =
     (if v = ''REJECT_CODE_UNSPECIFIED'' then Some RejectUnspecified
      else if v = ''REJECT_CODE_PROTOCOL_MAJOR_MISMATCH'' then Some ProtocolMajorMismatch
      else if v = ''REJECT_CODE_MISSING_REQUIRED_CAPABILITY'' then Some MissingRequiredCapability
      else if v = ''REJECT_CODE_BUSINESS_BEFORE_HANDSHAKE'' then Some BusinessBeforeHandshake
      else if v = ''REJECT_CODE_MALFORMED_ENVELOPE'' then Some MalformedEnvelope
      else if v = ''REJECT_CODE_FRAME_TOO_LARGE'' then Some FrameTooLarge
      else if v = ''REJECT_CODE_INTERNAL_ERROR'' then Some InternalError
      else if v = ''REJECT_CODE_BUSINESS_UNSUPPORTED'' then Some BusinessUnsupported
      else None)"

fun control_as_str_name :: "scan_control_kind \<Rightarrow> string" where
  "control_as_str_name ControlUnspecified = ''SCAN_CONTROL_KIND_UNSPECIFIED''"
| "control_as_str_name StartScan = ''SCAN_CONTROL_KIND_START_SCAN''"
| "control_as_str_name PauseScan = ''SCAN_CONTROL_KIND_PAUSE_SCAN''"
| "control_as_str_name ResumeScan = ''SCAN_CONTROL_KIND_RESUME_SCAN''"
| "control_as_str_name PauseAndBuildProvisionalPlan =
     ''SCAN_CONTROL_KIND_PAUSE_AND_BUILD_PROVISIONAL_PLAN''"
| "control_as_str_name CancelScan = ''SCAN_CONTROL_KIND_CANCEL_SCAN''"

definition control_from_str_name :: "string \<Rightarrow> scan_control_kind option" where
  "control_from_str_name v =
     (if v = ''SCAN_CONTROL_KIND_UNSPECIFIED'' then Some ControlUnspecified
      else if v = ''SCAN_CONTROL_KIND_START_SCAN'' then Some StartScan
      else if v = ''SCAN_CONTROL_KIND_PAUSE_SCAN'' then Some PauseScan
      else if v = ''SCAN_CONTROL_KIND_RESUME_SCAN'' then Some ResumeScan
      else if v = ''SCAN_CONTROL_KIND_PAUSE_AND_BUILD_PROVISIONAL_PLAN''
        then Some PauseAndBuildProvisionalPlan
      else if v = ''SCAN_CONTROL_KIND_CANCEL_SCAN'' then Some CancelScan
      else None)"

fun scan_state_as_str_name :: "scan_state \<Rightarrow> string" where
  "scan_state_as_str_name StateUnspecified = ''SCAN_STATE_UNSPECIFIED''"
| "scan_state_as_str_name Idle = ''SCAN_STATE_IDLE''"
| "scan_state_as_str_name Running = ''SCAN_STATE_RUNNING''"
| "scan_state_as_str_name Paused = ''SCAN_STATE_PAUSED''"
| "scan_state_as_str_name BuildingProvisionalPlan = ''SCAN_STATE_BUILDING_PROVISIONAL_PLAN''"
| "scan_state_as_str_name PlanReady = ''SCAN_STATE_PROVISIONAL_PLAN_READY''"
| "scan_state_as_str_name Cancelling = ''SCAN_STATE_CANCELLING''"
| "scan_state_as_str_name Cancelled = ''SCAN_STATE_CANCELLED''"
| "scan_state_as_str_name Finished = ''SCAN_STATE_FINISHED''"
| "scan_state_as_str_name Failed = ''SCAN_STATE_FAILED''"

definition scan_state_from_str_name :: "string \<Rightarrow> scan_state option" where
  "scan_state_from_str_name v =
     (if v = ''SCAN_STATE_UNSPECIFIED'' then Some StateUnspecified
      else if v = ''SCAN_STATE_IDLE'' then Some Idle
      else if v = ''SCAN_STATE_RUNNING'' then Some Running
      else if v = ''SCAN_STATE_PAUSED'' then Some Paused
      else if v = ''SCAN_STATE_BUILDING_PROVISIONAL_PLAN'' then Some BuildingProvisionalPlan
      else if v = ''SCAN_STATE_PROVISIONAL_PLAN_READY'' then Some PlanReady
      else if v = ''SCAN_STATE_CANCELLING'' then Some Cancelling
      else if v = ''SCAN_STATE_CANCELLED'' then Some Cancelled
      else if v = ''SCAN_STATE_FINISHED'' then Some Finished
      else if v = ''SCAN_STATE_FAILED'' then Some Failed
      else None)"

fun control_reject_code_as_str_name :: "control_reject_code \<Rightarrow> string" where
  "control_reject_code_as_str_name ControlRejectUnspecified = ''CONTROL_REJECT_CODE_UNSPECIFIED''"
| "control_reject_code_as_str_name InvalidState = ''CONTROL_REJECT_CODE_INVALID_STATE''"
| "control_reject_code_as_str_name DuplicateRequestId = ''CONTROL_REJECT_CODE_DUPLICATE_REQUEST_ID''"
| "control_reject_code_as_str_name MalformedRequest = ''CONTROL_REJECT_CODE_MALFORMED_REQUEST''"

definition control_reject_code_from_str_name :: "string \<Rightarrow> control_reject_code option" where
  "control_reject_code_from_str_name v =
     (if v = ''CONTROL_REJECT_CODE_UNSPECIFIED'' then Some ControlRejectUnspecified
      else if v = ''CONTROL_REJECT_CODE_INVALID_STATE'' then Some InvalidState
      else if v = ''CONTROL_REJECT_CODE_DUPLICATE_REQUEST_ID'' then Some DuplicateRequestId
      else if v = ''CONTROL_REJECT_CODE_MALFORMED_REQUEST'' then Some MalformedRequest
      else None)"

section \<open>Messages\<close>

record protocol_version =
  major :: u32
  minor :: u32

record hello =
  hello_version :: "protocol_version option"
  required_capabilities :: "string list"
  optional_capabilities :: "string list"
  implementation :: string

record hello_accepted =
  selected_version :: "protocol_version option"
  negotiated_capabilities :: "string list"

record hello_rejected =
  hr_code :: i32
  hr_detail :: string
  hr_peer_version :: "protocol_version option"

record business_envelope =
  be_type :: string
  be_payload :: bytes

record start_scan_request =
  ssr_request_id :: u64
  ssr_profile :: string

record scan_control_request =
  scr_request_id :: u64
  scr_control :: i32

record control_accepted =
  ca_control :: i32
  ca_resulting_state :: i32

record control_rejected =
  cr_control :: i32
  cr_code :: i32
  cr_detail :: string
  cr_current_state :: i32

record scan_state_changed =
  sc_state :: i32
  sc_reason :: string

record scan_progress =
  sp_profile :: string
  elapsed_millis :: u64
  sp_entries :: u64
  sp_directories :: u64
  sp_candidates :: u64
  allocated_bytes_observed :: u64
  reclaim_estimate_bytes :: u64
  complete_roots :: u64
  partial_roots :: u64
  entries_per_second :: u64
  current_root :: string
  structural_budget :: u64

record plan_group_summary =
  pg_group_id :: string
  pg_title :: string
  pg_action_count :: u64
  pg_immediate_reclaim_bytes :: u64
  pg_conditional_reclaim_bytes :: u64
  pg_status :: string

record provisional_plan =
  plan_id :: string
  plan_action_count :: u64
  plan_immediate_reclaim_bytes :: u64
  plan_conditional_reclaim_bytes :: u64
  plan_groups :: "plan_group_summary list"

record plan_invalidated =
  previous_plan_id :: string

record scan_cancelled =
  cancel_reason :: string

record scan_finished =
  finish_summary :: string

record engine_failed =
  ef_code :: string
  ef_detail :: string

datatype engine_body =
    ControlAccepted control_accepted
  | ControlRejected control_rejected
  | ScanStateChanged scan_state_changed
  | ScanProgress scan_progress
  | ProvisionalPlanReady provisional_plan
  | ProvisionalPlanInvalidated plan_invalidated
  | ScanCancelled scan_cancelled
  | ScanFinished scan_finished
  | EngineFailed engine_failed

record engine_event =
  event_sequence :: u64
  ev_request_id :: u64
  ev_body :: "engine_body option"

datatype envelope_body =
    BodyHello hello
  | BodyHelloAccepted hello_accepted
  | BodyHelloRejected hello_rejected
  | BodyBusiness business_envelope
  | BodyStartScanRequest start_scan_request
  | BodyScanControlRequest scan_control_request
  | BodyEngineEvent engine_event

record envelope =
  env_sequence :: u64
  env_body :: "envelope_body option"

section \<open>Properties\<close>

lemma reject_code_from_str_name_iff:
  "reject_code_from_str_name n = Some r \<longleftrightarrow> n = reject_code_as_str_name r"
  by (cases r) (auto simp: reject_code_from_str_name_def)

lemma control_from_str_name_iff: "control_from_str_name n = Some k \<longleftrightarrow> n = control_as_str_name k"
  by (cases k) (auto simp: control_from_str_name_def)

lemma scan_state_from_str_name_iff:
  "scan_state_from_str_name n = Some s \<longleftrightarrow> n = scan_state_as_str_name s"
  by (cases s) (auto simp: scan_state_from_str_name_def)

lemma control_reject_code_from_str_name_iff:
  "control_reject_code_from_str_name n = Some c \<longleftrightarrow> n = control_reject_code_as_str_name c"
  by (cases c) (auto simp: control_reject_code_from_str_name_def)

lemma scan_state_try_from_iff: "scan_state_try_from v = Some s \<longleftrightarrow> v = scan_state_as_i32 s"
  using scan_state_try_from_Some by auto

lemma control_reject_code_try_from_iff:
  "control_reject_code_try_from v = Some c \<longleftrightarrow> v = control_reject_code_as_i32 c"
  by (cases c) (auto simp: control_reject_code_try_from_def)

text \<open>The schema names and the discriminants identify the enum variants: reading a name or a
  number gives a variant exactly when it is the one that variant is written as.\<close>

theorem enum_names_roundtrip:
  "(reject_code_from_str_name n = Some r \<longleftrightarrow> n = reject_code_as_str_name r)
   \<and> (control_from_str_name n = Some k \<longleftrightarrow> n = control_as_str_name k)
   \<and> (scan_state_from_str_name n = Some s \<longleftrightarrow> n = scan_state_as_str_name s)
   \<and> (control_reject_code_from_str_name n = Some c \<longleftrightarrow> n = control_reject_code_as_str_name c)
   \<and> (scan_state_try_from v = Some s \<longleftrightarrow> v = scan_state_as_i32 s)
   \<and> (control_reject_code_try_from v = Some c \<longleftrightarrow> v = control_reject_code_as_i32 c)"
  by (intro conjI reject_code_from_str_name_iff control_from_str_name_iff
      scan_state_from_str_name_iff control_reject_code_from_str_name_iff scan_state_try_from_iff
      control_reject_code_try_from_iff)

end
