(* ===== verification/Handshake.thy ===== *)
theory Handshake
  imports Proto
begin

text \<open>
  Version and capability negotiation, \<open>diskplan-core/src/handshake.rs\<close>. A \<open>BTreeSet\<close> of
  capability names is the ascending list it iterates.
\<close>

section \<open>Definitions\<close>

definition PROTOCOL_MAJOR :: u32 where
  "PROTOCOL_MAJOR = 1"

definition PROTOCOL_MINOR :: u32 where
  "PROTOCOL_MINOR = 2"

datatype handshake_result = Accepted hello_accepted | Rejected hello_rejected

datatype accepted_handshake_error =
    SequenceMismatch u64 u64
  | MissingSelectedVersion
  | MajorMismatch u32 u32
  | MinorOutOfRange u32 u32
  | NonCanonicalCapabilities
  | UnofferedCapability string
  | MissingRequired string

definition rust_client_hello :: hello where
  "rust_client_hello =
     \<lparr>hello_version = Some \<lparr>major = PROTOCOL_MAJOR, minor = PROTOCOL_MINOR\<rparr>,
      required_capabilities = [''framing-v1''],
      optional_capabilities = [''canonical-binary-v1'', ''plan-bootstrap'', ''scan-control-v1''],
      implementation = ''diskplan-rust''\<rparr>"

definition offered_capabilities :: "hello \<Rightarrow> string list" where
  "offered_capabilities h = sort_dedup (required_capabilities h @ optional_capabilities h)"

definition reject :: "reject_code \<Rightarrow> string \<Rightarrow> hello \<Rightarrow> handshake_result" where
  "reject code detail peer =
     Rejected \<lparr>hr_code = reject_code_as_i32 code, hr_detail = detail,
               hr_peer_version = hello_version peer\<rparr>"

text \<open>\<open>wanted.iter().find(|c| !offered.contains(c))\<close>, also what a loop over \<open>wanted\<close> that returns at
  the first one not \<open>contains\<close>-ed finds.\<close>

definition first_missing :: "string list \<Rightarrow> string list \<Rightarrow> string option" where
  "first_missing offered wanted = find (\<lambda>c. c \<notin> set offered) wanted"

definition negotiate :: "hello \<Rightarrow> hello \<Rightarrow> handshake_result" where
  "negotiate local peer =
     (case hello_version local of
        None \<Rightarrow> reject MalformedEnvelope ''local hello has no version'' peer
      | Some local_version \<Rightarrow>
     (case hello_version peer of
        None \<Rightarrow> reject MalformedEnvelope ''peer hello has no version'' peer
      | Some peer_version \<Rightarrow>
     if major local_version \<noteq> major peer_version
     then reject ProtocolMajorMismatch ''protocol major versions differ'' peer
     else
       let local_offered = offered_capabilities local;
           peer_offered = offered_capabilities peer
       in
     (case first_missing local_offered (required_capabilities peer) of
        Some missing \<Rightarrow> reject MissingRequiredCapability
          (''local implementation does not offer required capability: '' @ missing) peer
      | None \<Rightarrow>
     (case first_missing peer_offered (required_capabilities local) of
        Some missing \<Rightarrow> reject MissingRequiredCapability
          (''peer does not offer required capability: '' @ missing) peer
      | None \<Rightarrow>
        Accepted
          \<lparr>selected_version =
             Some \<lparr>major = major local_version, minor = min (minor local_version) (minor peer_version)\<rparr>,
           negotiated_capabilities = filter (\<lambda>c. c \<in> set peer_offered) local_offered\<rparr>))))"

text \<open>
  \<open>validate_accepted\<close> expects the local hello to have a version and panics otherwise (it is only
  called with the built-in one); the panic is the outer \<open>None\<close>.
\<close>

definition validate_accepted ::
  "hello \<Rightarrow> u64 \<Rightarrow> u64 \<Rightarrow> hello_accepted \<Rightarrow> (accepted_handshake_error + unit) option" where
  "validate_accepted local request_sequence response_sequence accepted =
     (if response_sequence \<noteq> request_sequence
      then Some (Inl (SequenceMismatch request_sequence response_sequence))
      else
     (case hello_version local of
        None \<Rightarrow> None
      | Some local_version \<Rightarrow>
     (case selected_version accepted of
        None \<Rightarrow> Some (Inl MissingSelectedVersion)
      | Some selected \<Rightarrow>
     if major selected \<noteq> major local_version
     then Some (Inl (MajorMismatch (major local_version) (major selected)))
     else if minor selected > minor local_version
     then Some (Inl (MinorOutOfRange (minor local_version) (minor selected)))
     else if sort_dedup (negotiated_capabilities accepted) \<noteq> negotiated_capabilities accepted
     then Some (Inl NonCanonicalCapabilities)
     else
     (case first_missing (offered_capabilities local) (negotiated_capabilities accepted) of
        Some capability \<Rightarrow> Some (Inl (UnofferedCapability capability))
      | None \<Rightarrow>
     (case first_missing (sort_dedup (negotiated_capabilities accepted))
             (required_capabilities local) of
        Some required \<Rightarrow> Some (Inl (MissingRequired required))
      | None \<Rightarrow> Some (Inr ()))))))"

section \<open>Lemmas\<close>

lemma set_offered [simp]:
  "set (offered_capabilities h) = set (required_capabilities h) \<union> set (optional_capabilities h)"
  by (simp add: offered_capabilities_def)

lemma ascending_offered: "ascending (offered_capabilities h)"
  by (simp add: offered_capabilities_def)

lemma first_missing_None: "first_missing offered wanted = None \<longleftrightarrow> set wanted \<subseteq> set offered"
  by (auto simp: first_missing_def find_None_iff)

text \<open>The set-level meaning of an agreement: what both sides promise of it.\<close>

definition agreed :: "hello \<Rightarrow> hello \<Rightarrow> hello_accepted \<Rightarrow> bool" where
  "agreed local peer a \<longleftrightarrow>
     (\<exists>lv pv. hello_version local = Some lv \<and> hello_version peer = Some pv \<and> major lv = major pv
        \<and> selected_version a = Some \<lparr>major = major lv, minor = min (minor lv) (minor pv)\<rparr>)
     \<and> set (required_capabilities local) \<union> set (required_capabilities peer)
          \<subseteq> set (negotiated_capabilities a)
     \<and> set (negotiated_capabilities a) =
          set (offered_capabilities local) \<inter> set (offered_capabilities peer)
     \<and> ascending (negotiated_capabilities a)"

lemma negotiate_Accepted:
  "negotiate local peer = Accepted a \<Longrightarrow> agreed local peer a"
  by (auto simp: negotiate_def agreed_def reject_def Let_def first_missing_None ascending_filter
      ascending_offered split: option.splits if_splits)

lemma negotiate_exists:
  assumes "agreed local peer a"
    and "set (required_capabilities peer) \<subseteq> set (offered_capabilities local)"
    and "set (required_capabilities local) \<subseteq> set (offered_capabilities peer)"
  shows "\<exists>b. negotiate local peer = Accepted b"
  using assms unfolding agreed_def first_missing_None [symmetric]
  by (auto simp: negotiate_def Let_def)

lemma agreed_unique: "agreed local peer a \<Longrightarrow> agreed local peer b \<Longrightarrow> a = b"
  by (auto simp: agreed_def intro!: hello_accepted.equality ascending_unique)

lemma validate_accepted_ok:
  "validate_accepted local rs ss a = Some (Inr ()) \<longleftrightarrow>
     ss = rs \<and>
     (\<exists>lv sv. hello_version local = Some lv \<and> selected_version a = Some sv \<and> major sv = major lv
        \<and> minor sv \<le> minor lv) \<and>
     ascending (negotiated_capabilities a) \<and>
     set (negotiated_capabilities a) \<subseteq> set (offered_capabilities local) \<and>
     set (required_capabilities local) \<subseteq> set (negotiated_capabilities a)"
  unfolding first_missing_None [symmetric]
  by (auto simp: validate_accepted_def sort_dedup_eq_iff sort_dedup_ascending not_less
      split: option.splits if_splits)

lemma negotiated_peer_valid:
  "negotiate local peer = Accepted a \<Longrightarrow> validate_accepted peer n n a = Some (Inr ())"
  by (drule negotiate_Accepted) (auto simp: validate_accepted_ok agreed_def)

section \<open>Properties\<close>

text \<open>C27: \<open>negotiate\<close> accepts exactly when both hellos carry the same major version and each side
  offers what the other requires, and what it accepts is then the one agreement: the smaller
  minor version and the ascending list of the capabilities both sides offer.\<close>

theorem negotiate_accepts_iff:
  "negotiate local peer = Accepted a \<longleftrightarrow>
     agreed local peer a
     \<and> set (required_capabilities peer) \<subseteq> set (offered_capabilities local)
     \<and> set (required_capabilities local) \<subseteq> set (offered_capabilities peer)"
  (is "_ \<longleftrightarrow> ?agr")
proof
  assume *: "negotiate local peer = Accepted a"
  from negotiate_Accepted [OF this] show ?agr
    by (auto simp: agreed_def)
next
  assume *: ?agr
  then obtain b where "negotiate local peer = Accepted b"
    using negotiate_exists by blast
  with negotiate_Accepted [OF this] agreed_unique * show "negotiate local peer = Accepted a"
    by blast
qed

text \<open>C26: Both ends agree: the answer an engine negotiates for this client's hello passes the client's
  validation, and swapping the two roles negotiates the same agreement.\<close>

theorem negotiated_is_valid:
  assumes "negotiate local peer = Accepted a"
  shows "validate_accepted peer n n a = Some (Inr ()) \<and> validate_accepted local n n a = Some (Inr ())
    \<and> negotiate peer local = Accepted a"
proof -
  note agr = negotiate_Accepted [OF assms]
  then have sym: "agreed peer local a"
    by (auto simp: agreed_def min.commute)
  from negotiate_exists [OF this] agr obtain b where b: "negotiate peer local = Accepted b"
    by (auto simp: agreed_def)
  note sym
  moreover from negotiate_Accepted [OF b] b sym have "negotiate peer local = Accepted a"
    by (metis agreed_unique)
  ultimately show ?thesis
    using agr by (auto simp: validate_accepted_ok agreed_def)
qed

definition sample_engine_hello :: hello where
  "sample_engine_hello =
     \<lparr>hello_version = Some \<lparr>major = 1, minor = 4\<rparr>, required_capabilities = [''scan-control-v1''],
      optional_capabilities = [''framing-v1'', ''extra''], implementation = ''engine''\<rparr>"

theorem negotiated_is_valid_witness:
  "validate_accepted rust_client_hello 1 1
     \<lparr>selected_version = Some \<lparr>major = 1, minor = 2\<rparr>,
      negotiated_capabilities = [''framing-v1'', ''scan-control-v1'']\<rparr> = Some (Inr ())"
proof -
  have "negotiate sample_engine_hello rust_client_hello = Accepted
     \<lparr>selected_version = Some \<lparr>major = 1, minor = 2\<rparr>,
      negotiated_capabilities = [''framing-v1'', ''scan-control-v1'']\<rparr>"
    by (simp add: negotiate_def sample_engine_hello_def rust_client_hello_def PROTOCOL_MAJOR_def
        PROTOCOL_MINOR_def offered_capabilities_def sort_dedup_def first_missing_def)
  from negotiated_is_valid [OF this] show ?thesis by blast
qed

text \<open>C28: Fail closed: the client accepts an answer exactly when it repeats the request's sequence,
  selects the client's major version and no newer minor one, and lists, strictly ascending,
  capabilities the client offered, every required one among them.\<close>

theorem validate_accepted_exact:
  "validate_accepted local request response a = Some (Inr ()) \<longleftrightarrow>
     response = request \<and>
     (\<exists>lv sv. hello_version local = Some lv \<and> selected_version a = Some sv \<and> major sv = major lv
        \<and> minor sv \<le> minor lv) \<and>
     ascending (negotiated_capabilities a) \<and>
     set (negotiated_capabilities a) \<subseteq> set (offered_capabilities local) \<and>
     set (required_capabilities local) \<subseteq> set (negotiated_capabilities a)"
  by (rule validate_accepted_ok)

end
