(* ===== verification/Process.thy ===== *)
theory Process
  imports Prelude
begin

text \<open>
  The operating system as the session of \<open>diskplan-cli/src/lib.rs\<close> sees it: the answers its calls
  will get, in order, the log of what it did and the number of calls made. Every behaviour of the
  child, of \<open>/bin/kill\<close>, of the clock and of the threads the session starts is a value of these
  scripts; a script that is used up answers that the child still runs, that time is over, that no such
  process group exists, that threads start and that the reaper takes what it is sent.
\<close>

section \<open>State\<close>

text \<open>\<open>ExitStatus::code\<close>; a child ended by a signal has none.\<close>

datatype exit_status = ExitStatus (code: "i32 option")

definition success :: "exit_status \<Rightarrow> bool" where
  "success status \<longleftrightarrow> code status = Some 0"

datatype os_action =
    Reaped u32 exit_status
  | Signalled string u32
  | KilledChild u32
  | HandedOver u32
  | SpawnedReaper

text \<open>\<open>call_count\<close> is not in the code: every call below counts itself there, failing ones too.\<close>

record os =
  try_waits :: "(io_error + exit_status option) list"
  clock :: "bool list"
  kill_commands :: "(io_error + bool) list"
  child_kills :: "(io_error + unit) list"
  reaper_spawns :: "(io_error + unit) list"
  reaper_accepts :: "bool list"
  reader_spawns :: "bool list"
  call_count :: nat
  actions :: "os_action list"

definition log :: "os_action \<Rightarrow> os \<Rightarrow> os" where
  "log a w = w\<lparr>actions := actions w @ [a]\<rparr>"

definition tick :: "os \<Rightarrow> os" where
  "tick w = w\<lparr>call_count := Suc (call_count w)\<rparr>"

section \<open>Calls of the standard library\<close>

text \<open>\<open>Child::try_wait\<close> reaps the child when it has exited.\<close>

definition try_wait :: "u32 \<Rightarrow> (os, io_error, exit_status option) action" where
  "try_wait pid w =
     (case try_waits w of
        [] \<Rightarrow> (Inr None, tick w)
      | r # rs \<Rightarrow>
          let w = tick (w\<lparr>try_waits := rs\<rparr>) in
          (r, case r of Inr (Some status) \<Rightarrow> log (Reaped pid status) w | _ \<Rightarrow> w))"

text \<open>\<open>Instant::now() >= deadline\<close>.\<close>

definition deadline_passed :: "os \<Rightarrow> bool \<times> os" where
  "deadline_passed w =
     (case clock w of [] \<Rightarrow> (True, tick w) | b # bs \<Rightarrow> (b, tick (w\<lparr>clock := bs\<rparr>)))"

text \<open>\<open>/bin/kill <signal> -- -<group>\<close>: whether it exits successfully.\<close>

definition kill_command :: "string \<Rightarrow> u32 \<Rightarrow> (os, io_error, bool) action" where
  "kill_command signal pgid w =
     (let w = log (Signalled signal pgid) (tick w) in
      case kill_commands w of
        [] \<Rightarrow> (Inr False, w)
      | r # rs \<Rightarrow> (r, w\<lparr>kill_commands := rs\<rparr>))"

definition child_kill :: "u32 \<Rightarrow> (os, io_error, unit) action" where
  "child_kill pid w =
     (let w = log (KilledChild pid) (tick w) in
      case child_kills w of [] \<Rightarrow> (Inr (), w) | r # rs \<Rightarrow> (r, w\<lparr>child_kills := rs\<rparr>))"

section \<open>Helpers of the session\<close>

text \<open>Starts the thread that will wait for a child handed to it.\<close>

definition spawn_reaper :: "(os, io_error, unit) action" where
  "spawn_reaper w =
     (case reaper_spawns w of
        [] \<Rightarrow> (Inr (), log SpawnedReaper (tick w))
      | r # rs \<Rightarrow>
          let w = tick (w\<lparr>reaper_spawns := rs\<rparr>) in
          (r, if is_ok r then log SpawnedReaper w else w))"

text \<open>\<open>self.reaper.send(child)\<close>: whether the reaper took the child.\<close>

definition reaper_send :: "u32 \<Rightarrow> os \<Rightarrow> bool \<times> os" where
  "reaper_send pid w =
     (case reaper_accepts w of
        [] \<Rightarrow> (True, log (HandedOver pid) (tick w))
      | b # bs \<Rightarrow>
          let w = tick (w\<lparr>reaper_accepts := bs\<rparr>) in (b, if b then log (HandedOver pid) w else w))"

text \<open>\<open>thread::spawn\<close> of the thread that reads the engine's frames: whether the thread was created;
  when it was not, \<open>thread::spawn\<close> panics.\<close>

definition start_reader :: "os \<Rightarrow> bool \<times> os" where
  "start_reader w =
     (case reader_spawns w of
        [] \<Rightarrow> (True, tick w)
      | b # bs \<Rightarrow> (b, tick (w\<lparr>reader_spawns := bs\<rparr>)))"

lemma tick_simps [simp]:
  "try_waits (tick w) = try_waits w" "clock (tick w) = clock w" "kill_commands (tick w) = kill_commands w"
  "child_kills (tick w) = child_kills w" "reaper_spawns (tick w) = reaper_spawns w"
  "reaper_accepts (tick w) = reaper_accepts w" "reader_spawns (tick w) = reader_spawns w"
  "call_count (tick w) = Suc (call_count w)" "actions (tick w) = actions w"
  by (simp_all add: tick_def)

lemma try_wait_clock: "try_wait pid w = (r, w') \<Longrightarrow> clock w' = clock w"
  by (auto simp: try_wait_def log_def Let_def split: list.splits sum.splits option.splits)

lemma deadline_passed_False: "deadline_passed w = (False, w') \<Longrightarrow> length (clock w') < length (clock w)"
  by (auto simp: deadline_passed_def split: list.splits)

lemma kill_command_clock: "kill_command signal pgid w = (r, w') \<Longrightarrow> clock w' = clock w"
  by (auto simp: kill_command_def log_def Let_def split: list.splits)

text \<open>Polls until the child has exited or the deadline has passed; the poll at the deadline counts.\<close>

function wait_for_exit :: "u32 \<Rightarrow> os \<Rightarrow> (io_error + exit_status option) \<times> os" where
  "wait_for_exit pid w =
     (case try_wait pid w of
        (Inl e, w1) \<Rightarrow> (Inl e, w1)
      | (Inr (Some status), w1) \<Rightarrow> (Inr (Some status), w1)
      | (Inr None, w1) \<Rightarrow>
          (case deadline_passed w1 of
             (True, w2) \<Rightarrow> (Inr None, w2)
           | (False, w2) \<Rightarrow> wait_for_exit pid w2))"
  by pat_completeness auto
termination
  by (relation "measure (\<lambda>(pid, w). length (clock w))")
    (auto dest!: try_wait_clock [OF sym] deadline_passed_False [OF sym])

declare wait_for_exit.simps [simp del]

definition process_group_exists :: "u32 \<Rightarrow> (os, io_error, bool) action" where
  "process_group_exists pgid = kill_command ''-0'' pgid"

definition signal_process_group :: "u32 \<Rightarrow> string \<Rightarrow> (os, io_error, unit) action" where
  "signal_process_group pgid signal =
     bindS (kill_command signal pgid) (\<lambda>ok.
       if ok then returnS ()
       else bindS (process_group_exists pgid) (\<lambda>exists.
         if \<not> exists then returnS ()
         else failS (IoError OtherKind
           (''/bin/kill '' @ signal @ '' failed for engine process group '' @ show_nat (unat pgid)))))"

function wait_for_process_group_exit :: "u32 \<Rightarrow> os \<Rightarrow> (io_error + bool) \<times> os" where
  "wait_for_process_group_exit pgid w =
     (case process_group_exists pgid w of
        (Inl e, w1) \<Rightarrow> (Inl e, w1)
      | (Inr False, w1) \<Rightarrow> (Inr True, w1)
      | (Inr True, w1) \<Rightarrow>
          (case deadline_passed w1 of
             (True, w2) \<Rightarrow> (Inr False, w2)
           | (False, w2) \<Rightarrow> wait_for_process_group_exit pgid w2))"
  by pat_completeness auto
termination
  by (relation "measure (\<lambda>(pgid, w). length (clock w))")
    (auto simp: process_group_exists_def dest!: kill_command_clock [OF sym] deadline_passed_False [OF sym])

declare wait_for_process_group_exit.simps [simp del]

end
