(* ===== verification/Session.thy ===== *)
theory Session
  imports Process Framing Handshake
begin

text \<open>
  A session with the engine process, \<open>diskplan-cli/src/lib.rs\<close>: spawning it, the handshake, requests
  and events over frames, and the shutdown that never abandons the child. The wire functions that are
  not this repository's (the protobuf codec of \<open>prost\<close>, the pipe's \<open>write_all\<close> and \<open>flush\<close>) are a
  parameter. Durations are in milliseconds; an \<open>expect\<close> that fails is the error \<open>Panic\<close>.
\<close>

section \<open>Errors and constants\<close>

datatype client_error =
    Io io_error
  | Frame frame_error
  | Protobuf string
  | CleanEof
  | Timeout string nat
  | UnexpectedResponse string
  | InvalidRequestId
  | ResponseSequenceMismatch u64 u64
  | EventSequenceMismatch u64 u64
  | EventSequenceExhausted u64
  | EventEnvelopeSequenceMismatch u64 u64
  | RejectedByEngine i32 string
  | InvalidAcceptance accepted_handshake_error
  | EngineFailure "i32 option"
  | EngineExitedAfterHandshake
  | MissingScanControlCapability
  | ExtraFrameAfterShutdown
  | DecoderDisconnected
  | CleanupIncomplete u32 u32 nat
  | ProcessGroupCleanupIncomplete u32 nat

datatype failure = Error client_error | Panic string

definition DEFAULT_HANDSHAKE_TIMEOUT :: nat where "DEFAULT_HANDSHAKE_TIMEOUT = 5000"
definition SHUTDOWN_GRACE :: nat where "SHUTDOWN_GRACE = 250"
definition SHUTDOWN_DRAIN_TIMEOUT :: nat where "SHUTDOWN_DRAIN_TIMEOUT = 250"
definition HANDSHAKE_SEQUENCE :: u64 where "HANDSHAKE_SEQUENCE = 1"

type_synonym frame_result = "frame_error + bytes option"

text \<open>What a \<open>recv_timeout\<close> on the frame channel meets.\<close>

datatype recv_event = Received frame_result | RecvTimeout | Disconnected

record 'w wire =
  encode :: "envelope \<Rightarrow> bytes"
  decode :: "bytes \<Rightarrow> string + envelope"
  write_all :: "'w \<Rightarrow> bytes \<Rightarrow> io_error + 'w"
  flush :: "'w \<Rightarrow> io_error + 'w"

record 'w session =
  ses_child :: "u32 option"
  ses_stdin :: "'w option"
  ses_frames :: "recv_event list"
  ses_timeout :: nat
  ses_accepted :: hello_accepted
  ses_last_event :: u64
  ses_pgid :: u32
  ses_os :: os

section \<open>The reader thread\<close>

text \<open>Reads frames until the stream ends or fails; the last result, which is not a frame, is sent
  too. (When the session has dropped the receiver the thread stops earlier, unseen.)\<close>

lemma reader_read_size_le:
  "reader_read room evs = (out, evs') \<Longrightarrow> script_size evs' \<le> script_size evs"
  by (induction room evs rule: reader_read.induct) (auto split: if_splits)

lemma read_loop_size:
  "read_loop want buf evs = Inr (buf', evs') \<Longrightarrow>
     script_size evs' \<le> script_size evs \<and> (buf' \<noteq> buf \<longrightarrow> script_size evs' < script_size evs)"
proof (induction want buf evs rule: read_loop.induct)
  case (1 want buf evs)
  show ?case
  proof (cases "length buf < want")
    case True
    obtain out evs1 where rd: "reader_read (want - length buf) evs = (out, evs1)" by fastforce
    have le: "script_size evs1 \<le> script_size evs" by (rule reader_read_size_le [OF rd])
    have less: "script_size evs1 < script_size evs" if "evs \<noteq> []"
      using reader_read_size [OF rd _ that] True by simp
    show ?thesis
    proof (cases out)
      case (ReadOk bs)
      then have "bs \<noteq> [] \<Longrightarrow> evs \<noteq> []" using rd by (cases evs) auto
      with ReadOk 1(1) [OF True rd [symmetric] ReadOk] 1(3) True rd le less show ?thesis
        by (subst (asm) (2) read_loop.simps) (auto split: if_splits)
    next
      case ReadInterrupted
      then have "evs \<noteq> []" using rd by (cases evs) auto
      with ReadInterrupted 1(2) [OF True rd [symmetric] ReadInterrupted] 1(3) True rd less show ?thesis
        by (subst (asm) (2) read_loop.simps) auto
    next
      case (ReadFailed e)
      with 1(3) True rd show ?thesis by (subst (asm) read_loop.simps) simp
    qed
  next
    case False
    with 1(3) show ?thesis by (subst (asm) read_loop.simps) simp
  qed
qed

lemma read_frame_size:
  "read_frame evs = Inr (Some p, evs') \<Longrightarrow> script_size evs' < script_size evs"
  by (force simp: read_frame_def read_until_eof_def map_io_def bindR_Inr_iff Let_def
      dest: read_loop_size split: if_splits sum.splits)

function reader_thread :: "read_event list \<Rightarrow> frame_result list" where
  "reader_thread stdout =
     (case read_frame stdout of
        Inr (Some payload, stdout') \<Rightarrow> Inr (Some payload) # reader_thread stdout'
      | Inr (None, stdout') \<Rightarrow> [Inr None]
      | Inl e \<Rightarrow> [Inl e])"
  by pat_completeness auto
termination
  by (relation "measure script_size") (auto dest: read_frame_size)

declare reader_thread.simps [simp del]

section \<open>Children and process groups\<close>

text \<open>Runs an action of the operating system inside the session.\<close>

definition on_os :: "(os, 'e, 'a) action \<Rightarrow> ('w session, 'e, 'a) action" where
  "on_os m s = (let (r, w) = m (ses_os s) in (r, s\<lparr>ses_os := w\<rparr>))"

definition io_failure :: "io_error \<Rightarrow> failure" where
  "io_failure e = Error (Io e)"

definition child_mut :: "('w session, io_error, u32) action" where
  "child_mut s =
     (case ses_child s of
        Some pid \<Rightarrow> (Inr pid, s)
      | None \<Rightarrow> (Inl (IoError BrokenPipe ''engine process is unavailable''), s))"

definition terminate_remaining_process_group :: "u32 \<Rightarrow> (os, client_error, unit) action" where
  "terminate_remaining_process_group pgid =
     bindS (map_errS Io (process_group_exists pgid)) (\<lambda>exists.
     if \<not> exists then returnS ()
     else bindS (map_errS Io (signal_process_group pgid ''-TERM'')) (\<lambda>_.
     bindS (map_errS Io (wait_for_process_group_exit pgid)) (\<lambda>gone.
     if gone then returnS ()
     else bindS (map_errS Io (signal_process_group pgid ''-KILL'')) (\<lambda>_.
     bindS (map_errS Io (wait_for_process_group_exit pgid)) (\<lambda>gone.
     if gone then returnS ()
     else failS (ProcessGroupCleanupIncomplete pgid SHUTDOWN_GRACE))))))"

definition finish_reaped_child :: "exit_status \<Rightarrow> ('w session, failure, exit_status) action" where
  "finish_reaped_child status s =
     (let s = s\<lparr>ses_child := None\<rparr> in
      bindS (map_errS Error (on_os (terminate_remaining_process_group (ses_pgid s))))
        (\<lambda>_. returnS status) s)"

definition try_handoff_child :: "('w session, failure, u32) action" where
  "try_handoff_child s =
     (case ses_child s of
        None \<Rightarrow> (Inl (Panic ''a running engine child must still be owned by the session''), s)
      | Some pid \<Rightarrow>
          let s = s\<lparr>ses_child := None\<rparr>;
              (sent, w) = reaper_send pid (ses_os s);
              s = s\<lparr>ses_os := w\<rparr>
          in
          if sent then (Inr pid, s)
          else (Inl (io_failure (IoError BrokenPipe ''engine background reaper stopped unexpectedly'')),
                s\<lparr>ses_child := Some pid\<rparr>))"

definition handoff_live_child :: "('w session, failure, u32) action" where
  "handoff_live_child s =
     (case try_handoff_child s of
        (Inr pid, s) \<Rightarrow> (Inr pid, s)
      | (Inl (Panic message), s) \<Rightarrow> (Inl (Panic message), s)
      | (Inl (Error e), s) \<Rightarrow>
          bindS (map_errS io_failure (on_os spawn_reaper)) (\<lambda>_. try_handoff_child) s)"

text \<open>\<open>if let Ok(Some(status)) = wait_for_exit(self.child_mut()?, SHUTDOWN_GRACE)\<close>: the status when
  the child was seen to exit; an error of the poll counts as not seen.\<close>

definition poll_child :: "('w session, failure, exit_status option) action" where
  "poll_child =
     bindS (map_errS io_failure child_mut) (\<lambda>pid s.
       case on_os (wait_for_exit pid) s of
         (Inr (Some status), s) \<Rightarrow> (Inr (Some status), s)
       | (_, s) \<Rightarrow> (Inr None, s))"

definition kill_direct_child :: "('w session, failure, unit) action" where
  "kill_direct_child =
     bindS (map_errS io_failure child_mut) (\<lambda>pid. ignoreS (on_os (child_kill pid)))"

definition give_up_child :: "('w session, failure, exit_status) action" where
  "give_up_child =
     bindS handoff_live_child (\<lambda>child_process_id s.
       let (_, s) = on_os (terminate_remaining_process_group (ses_pgid s)) s in
       (Inl (Error (CleanupIncomplete child_process_id (ses_pgid s) SHUTDOWN_GRACE)), s))"

text \<open>Finishes when the poll sees the child exit, or goes on with the next measure.\<close>

definition poll_or :: "('w session, failure, exit_status) action \<Rightarrow> ('w session, failure, exit_status) action" where
  "poll_or next =
     bindS poll_child (\<lambda>seen. case seen of Some status \<Rightarrow> finish_reaped_child status | None \<Rightarrow> next)"

definition signal_group :: "string \<Rightarrow> ('w session, failure, unit) action" where
  "signal_group signal s = ignoreS (on_os (signal_process_group (ses_pgid s) signal)) s"

definition wait_or_terminate :: "('w session, failure, exit_status) action" where
  "wait_or_terminate =
     poll_or (bindS (signal_group ''-TERM'') (\<lambda>_.
     poll_or (bindS (signal_group ''-KILL'') (\<lambda>_.
     poll_or (bindS kill_direct_child (\<lambda>_.
     poll_or give_up_child))))))"

section \<open>Frames\<close>

definition recv_timeout :: "'w session \<Rightarrow> recv_event \<times> 'w session" where
  "recv_timeout s =
     (let s = s\<lparr>ses_os := tick (ses_os s)\<rparr> in
      case ses_frames s of
        [] \<Rightarrow> (Disconnected, s)
      | f # fs \<Rightarrow> (f, s\<lparr>ses_frames := fs\<rparr>))"

lemma try_wait_os_clock:
  "on_os (try_wait pid) s = (r, s') \<Longrightarrow> clock (ses_os s') = clock (ses_os s)"
  by (auto simp: on_os_def dest: try_wait_clock split: prod.splits)

function observe_exit :: "'w session \<Rightarrow> (io_error + exit_status option) \<times> 'w session" where
  "observe_exit s =
     (case bindS child_mut (\<lambda>pid. on_os (try_wait pid)) s of
        (Inl e, s1) \<Rightarrow> (Inl e, s1)
      | (Inr (Some status), s1) \<Rightarrow> (Inr (Some status), s1)
      | (Inr None, s1) \<Rightarrow>
          (case deadline_passed (ses_os s1) of
             (True, w) \<Rightarrow> (Inr None, s1\<lparr>ses_os := w\<rparr>)
           | (False, w) \<Rightarrow> observe_exit (s1\<lparr>ses_os := w\<rparr>)))"
  by pat_completeness auto
termination
  by (relation "measure (\<lambda>s. length (clock (ses_os s)))")
    (auto simp: bindS_def child_mut_def split: option.splits prod.splits sum.splits
      dest!: try_wait_os_clock [OF sym] deadline_passed_False [OF sym])

declare observe_exit.simps [simp del]

definition read_envelope_with_timeout ::
  "'w wire \<Rightarrow> string \<Rightarrow> nat \<Rightarrow> ('w session, failure, envelope) action" where
  "read_envelope_with_timeout wire phase timeout s =
     (let (received, s) = recv_timeout s;
          at_end = bindS (map_errS io_failure observe_exit) (\<lambda>seen.
            case seen of
              Some status \<Rightarrow> failS (Error (EngineFailure (code status)))
            | None \<Rightarrow> failS (Error CleanEof))
      in
      case received of
        Received (Inr (Some payload)) \<Rightarrow>
          (case decode wire payload of
             Inl e \<Rightarrow> (Inl (Error (Protobuf e)), s)
           | Inr envelope \<Rightarrow> (Inr envelope, s))
      | Received (Inr None) \<Rightarrow> at_end s
      | Disconnected \<Rightarrow> at_end s
      | Received (Inl e) \<Rightarrow> (Inl (Error (Frame e)), s)
      | RecvTimeout \<Rightarrow> (Inl (Error (Timeout phase timeout)), s))"

definition read_envelope :: "'w wire \<Rightarrow> string \<Rightarrow> ('w session, failure, envelope) action" where
  "read_envelope wire phase s = read_envelope_with_timeout wire phase (ses_timeout s) s"

definition write_envelope :: "'w wire \<Rightarrow> envelope \<Rightarrow> ('w session, failure, unit) action" where
  "write_envelope wire envelope s =
     (let payload = encode wire envelope in
      case ses_stdin s of
        None \<Rightarrow> (Inl (io_failure (IoError BrokenPipe ''engine stdin is closed'')), s)
      | Some stdin \<Rightarrow>
          (case write_frame (write_all wire) (flush wire) stdin payload of
             Inl e \<Rightarrow> (Inl (Error (Frame e)), s)
           | Inr stdin \<Rightarrow> (Inr (), s\<lparr>ses_stdin := Some stdin\<rparr>)))"

section \<open>Requests and events\<close>

definition request_business ::
  "'w wire \<Rightarrow> u64 \<Rightarrow> string \<Rightarrow> bytes \<Rightarrow> ('w session, failure, envelope) action" where
  "request_business wire sequence message_type payload =
     bindS (write_envelope wire
       \<lparr>env_sequence = sequence,
        env_body = Some (BodyBusiness \<lparr>be_type = message_type, be_payload = payload\<rparr>)\<rparr>) (\<lambda>_.
     bindS (read_envelope wire ''business response'') (\<lambda>response.
     if env_sequence response \<noteq> sequence
     then failS (Error (ResponseSequenceMismatch sequence (env_sequence response)))
     else returnS response))"

definition send_start_scan :: "'w wire \<Rightarrow> u64 \<Rightarrow> string \<Rightarrow> ('w session, failure, unit) action" where
  "send_start_scan wire request_id profile =
     (if request_id = 0 then failS (Error InvalidRequestId)
      else write_envelope wire
        \<lparr>env_sequence = request_id,
         env_body = Some (BodyStartScanRequest \<lparr>ssr_request_id = request_id, ssr_profile = profile\<rparr>)\<rparr>)"

definition send_scan_control ::
  "'w wire \<Rightarrow> u64 \<Rightarrow> scan_control_kind \<Rightarrow> ('w session, failure, unit) action" where
  "send_scan_control wire request_id control =
     (if request_id = 0 then failS (Error InvalidRequestId)
      else write_envelope wire
        \<lparr>env_sequence = request_id,
         env_body = Some (BodyScanControlRequest
           \<lparr>scr_request_id = request_id, scr_control = control_as_i32 control\<rparr>)\<rparr>)"

definition read_engine_event_with_timeout ::
  "'w wire \<Rightarrow> nat \<Rightarrow> ('w session, failure, engine_event) action" where
  "read_engine_event_with_timeout wire timeout =
     bindS (read_envelope_with_timeout wire ''engine event'' timeout) (\<lambda>envelope s.
       case env_body envelope of
         Some (BodyEngineEvent event) \<Rightarrow>
           if env_sequence envelope \<noteq> event_sequence event
           then (Inl (Error (EventEnvelopeSequenceMismatch (env_sequence envelope) (event_sequence event))), s)
           else
             (case checked_add (ses_last_event s) 1 of
                None \<Rightarrow> (Inl (Error (EventSequenceExhausted (ses_last_event s))), s)
              | Some expected \<Rightarrow>
                  if event_sequence event \<noteq> expected
                  then (Inl (Error (EventSequenceMismatch (ses_last_event s) (event_sequence event))), s)
                  else (Inr event, s\<lparr>ses_last_event := event_sequence event\<rparr>))
       | _ \<Rightarrow> (Inl (Error (UnexpectedResponse ''engine event'')), s))"

definition read_engine_event :: "'w wire \<Rightarrow> ('w session, failure, engine_event) action" where
  "read_engine_event wire s = read_engine_event_with_timeout wire (ses_timeout s) s"

section \<open>Handshake\<close>

definition accept_handshake ::
  "hello \<Rightarrow> u64 \<Rightarrow> hello_accepted \<Rightarrow> ('w session, failure, unit) action" where
  "accept_handshake local_hello response_sequence accepted s =
     (case validate_accepted local_hello HANDSHAKE_SEQUENCE response_sequence accepted of
        None \<Rightarrow> (Inl (Panic ''the built-in client hello always has a version''), s)
      | Some (Inl e) \<Rightarrow> (Inl (Error (InvalidAcceptance e)), s)
      | Some (Inr _) \<Rightarrow>
          bindS (map_errS io_failure (bindS child_mut (\<lambda>pid. on_os (try_wait pid)))) (\<lambda>exited.
            case exited of
              Some _ \<Rightarrow> failS (Error EngineExitedAfterHandshake)
            | None \<Rightarrow> (\<lambda>s. (Inr (), s\<lparr>ses_accepted := accepted\<rparr>))) s)"

definition perform_handshake :: "'w wire \<Rightarrow> ('w session, failure, unit) action" where
  "perform_handshake wire =
     bindS (write_envelope wire
       \<lparr>env_sequence = HANDSHAKE_SEQUENCE, env_body = Some (BodyHello rust_client_hello)\<rparr>) (\<lambda>_.
     bindS (read_envelope wire ''handshake response'') (\<lambda>response.
     if env_sequence response \<noteq> HANDSHAKE_SEQUENCE
     then failS (Error (ResponseSequenceMismatch HANDSHAKE_SEQUENCE (env_sequence response)))
     else
       case env_body response of
         Some (BodyHelloAccepted accepted) \<Rightarrow>
           accept_handshake rust_client_hello (env_sequence response) accepted
       | Some (BodyHelloRejected rejected) \<Rightarrow>
           failS (Error (RejectedByEngine (hr_code rejected) (hr_detail rejected)))
       | _ \<Rightarrow> failS (Error (UnexpectedResponse ''handshake''))))"

section \<open>Shutdown, drop and connecting\<close>

definition drain_stdout :: "('w session, failure, unit) action" where
  "drain_stdout s =
     (let (received, s) = recv_timeout s in
      (case received of
         Received (Inr (Some _)) \<Rightarrow> Inl (Error ExtraFrameAfterShutdown)
       | Received (Inr None) \<Rightarrow> Inr ()
       | Received (Inl e) \<Rightarrow> Inl (Error (Frame e))
       | Disconnected \<Rightarrow> Inl (Error DecoderDisconnected)
       | RecvTimeout \<Rightarrow> Inl (Error (Timeout ''shutdown stdout drain'' SHUTDOWN_DRAIN_TIMEOUT)), s))"

definition drop_session :: "'w session \<Rightarrow> 'w session" where
  "drop_session s =
     (let s = s\<lparr>ses_stdin := None\<rparr> in
      if ses_child s \<noteq> None then snd (wait_or_terminate s) else s)"

text \<open>Consumes the session, so its \<open>Drop\<close> runs at the end; a panic skips the drain.\<close>

definition shutdown :: "'w session \<Rightarrow> (failure + unit) \<times> 'w session" where
  "shutdown s =
     (let s = s\<lparr>ses_stdin := None\<rparr> in
      case wait_or_terminate s of
        (Inl (Panic message), s) \<Rightarrow> (Inl (Panic message), drop_session s)
      | (status, s) \<Rightarrow>
          let (drain, s) = drain_stdout s in
          (bindR status (\<lambda>status. bindR drain (\<lambda>_.
             if success status then Inr () else Inl (Error (EngineFailure (code status))))),
           drop_session s))"

text \<open>\<open>spawned\<close> is the outcome of \<open>Command::spawn\<close>: the child's id, its stdin and what the frame
  channel will deliver. The state returned with an error is the operating system's after the
  session was dropped. The reader's \<open>thread::spawn\<close> panics when the thread cannot be created: the
  child is then not yet owned by a session, and unwinding drops its handle, which neither waits for
  it nor kills it.\<close>

definition spawn_command ::
  "'w wire \<Rightarrow> nat \<Rightarrow> io_error + u32 \<times> 'w \<times> recv_event list \<Rightarrow> os \<Rightarrow> (failure + 'w session) \<times> os" where
  "spawn_command wire timeout spawned w =
     (case spawn_reaper w of
        (Inl e, w) \<Rightarrow> (Inl (io_failure e), w)
      | (Inr _, w) \<Rightarrow>
     (case spawned of
        Inl e \<Rightarrow> (Inl (io_failure e), w)
      | Inr (pid, stdin, frames) \<Rightarrow>
     (case start_reader w of
        (False, w) \<Rightarrow> (Inl (Panic ''failed to spawn thread''), w)
      | (True, w) \<Rightarrow>
          let s = \<lparr>ses_child = Some pid, ses_stdin = Some stdin, ses_frames = frames,
                   ses_timeout = timeout,
                   ses_accepted = \<lparr>selected_version = None, negotiated_capabilities = []\<rparr>,
                   ses_last_event = 0, ses_pgid = pid, ses_os = w\<rparr>
          in
          (case perform_handshake wire s of
             (Inr _, s) \<Rightarrow> (Inr s, ses_os s)
           | (Inl e, s) \<Rightarrow> (Inl e, ses_os (drop_session s))))))"

definition connect_with_timeout ::
  "'w wire \<Rightarrow> nat \<Rightarrow> io_error + u32 \<times> 'w \<times> recv_event list \<Rightarrow> os \<Rightarrow> (failure + 'w session) \<times> os" where
  "connect_with_timeout wire timeout spawned w = spawn_command wire timeout spawned w"

definition connect ::
  "'w wire \<Rightarrow> io_error + u32 \<times> 'w \<times> recv_event list \<Rightarrow> os \<Rightarrow> (failure + 'w session) \<times> os" where
  "connect wire spawned w = connect_with_timeout wire DEFAULT_HANDSHAKE_TIMEOUT spawned w"

definition handshake_with_engine ::
  "'w wire \<Rightarrow> io_error + u32 \<times> 'w \<times> recv_event list \<Rightarrow> os \<Rightarrow> (failure + string list) \<times> os" where
  "handshake_with_engine wire spawned w =
     (case connect wire spawned w of
        (Inl e, w) \<Rightarrow> (Inl e, w)
      | (Inr s, w) \<Rightarrow>
          let capabilities = negotiated_capabilities (ses_accepted s);
              (r, s) = shutdown s
          in (bindR r (\<lambda>_. Inr capabilities), ses_os s))"

end
