(* ===== verification/Session_Order.thy ===== *)
theory Session_Order
  imports Session
begin

text \<open>
  What every operation of a session respects. A relation between an earlier and a later operating
  system that each call made for the child respects, the locale \<open>os_order\<close>, is respected by every
  operation of the session that owns the child. Two such relations: the log of calls only grows, and
  what is added to it concerns the child alone.
\<close>

section \<open>The session of one child\<close>

definition serves :: "u32 \<Rightarrow> 'w session \<Rightarrow> bool" where
  "serves pid s \<longleftrightarrow> ses_pgid s = pid \<and> (ses_child s = None \<or> ses_child s = Some pid)"

definition served :: "(os \<Rightarrow> os \<Rightarrow> bool) \<Rightarrow> u32 \<Rightarrow> 'w session \<Rightarrow> 'w session \<Rightarrow> bool" where
  "served R pid s s' \<longleftrightarrow> (serves pid s \<longrightarrow> serves pid s' \<and> R (ses_os s) (ses_os s'))"

lemma keepsD: "keeps R m \<Longrightarrow> m s = (r, s') \<Longrightarrow> R s s'"
  by (metis keeps_def snd_conv)

lemma keeps_snd: "keeps R m \<Longrightarrow> R s (snd (m s))"
  by (simp add: keeps_def)

section \<open>Relations the calls respect\<close>

locale os_order =
  fixes R :: "os \<Rightarrow> os \<Rightarrow> bool" and pid :: u32
  assumes order: "reflp R" "transp R"
    and try_wait: "keeps R (try_wait pid)"
    and kill_command: "keeps R (kill_command signal pid)"
    and child_kill: "keeps R (child_kill pid)"
    and spawn_reaper: "keeps R spawn_reaper"
    and reaper_send: "reaper_send pid w = (sent, w') \<Longrightarrow> R w w'"
    and deadline: "deadline_passed w = (b, w') \<Longrightarrow> R w w'"
    and tick: "R w (tick w)"
begin

lemma later: "R u v \<Longrightarrow> R v w \<Longrightarrow> R u w"
  using order(2) by (blast dest: transpD)

lemma wait_for_exit: "keeps R (wait_for_exit pid)"
  unfolding keeps_def
proof
  fix w
  have "p = pid \<Longrightarrow> R w (snd (wait_for_exit p w))" for p
  proof (induction p w rule: wait_for_exit.induct)
    case (1 p w)
    obtain r w1 where tw: "try_wait p w = (r, w1)" by fastforce
    obtain b w2 where dl: "deadline_passed w1 = (b, w2)" by fastforce
    have steps: "R w w1" "R w w2"
      using keepsD [OF try_wait] tw 1(2) deadline [OF dl] later by blast+
    show ?case
    proof (cases "r = Inr None \<and> \<not> b")
      case True
      with 1(1) [OF tw [symmetric] _ refl dl [symmetric]] 1(2) steps later tw dl show ?thesis
        by (subst wait_for_exit.simps) auto
    next
      case False
      with tw dl steps show ?thesis
        by (subst wait_for_exit.simps) (auto split: sum.splits option.splits bool.splits)
    qed
  qed
  then show "R w (snd (wait_for_exit pid w))" by blast
qed

lemma wait_for_process_group_exit: "keeps R (wait_for_process_group_exit pid)"
  unfolding keeps_def
proof
  fix w
  have "p = pid \<Longrightarrow> R w (snd (wait_for_process_group_exit p w))" for p
  proof (induction p w rule: wait_for_process_group_exit.induct)
    case (1 p w)
    obtain r w1 where tw: "process_group_exists p w = (r, w1)" by fastforce
    obtain b w2 where dl: "deadline_passed w1 = (b, w2)" by fastforce
    have steps: "R w w1" "R w w2"
      using keepsD [OF kill_command] tw 1(2) deadline [OF dl] later
      unfolding process_group_exists_def by blast+
    show ?case
    proof (cases "r = Inr True \<and> \<not> b")
      case True
      with 1(1) [OF tw [symmetric] _ _ dl [symmetric]] 1(2) steps later tw dl show ?thesis
        by (subst wait_for_process_group_exit.simps) auto
    next
      case False
      with tw dl steps show ?thesis
        by (subst wait_for_process_group_exit.simps) (auto split: sum.splits bool.splits)
    qed
  qed
  then show "R w (snd (wait_for_process_group_exit pid w))" by blast
qed

lemmas rules =
  keeps_bindS [OF _ _ order(2)] keeps_returnS [OF order(1)] keeps_failS [OF order(1)]
  keeps_map_errS keeps_ignoreS try_wait kill_command child_kill spawn_reaper
  wait_for_exit wait_for_process_group_exit

lemma signal_process_group: "keeps R (signal_process_group pid signal)"
  unfolding signal_process_group_def process_group_exists_def
  by (intro rules) (auto intro!: rules)

lemma terminate_remaining: "keeps R (terminate_remaining_process_group pid)"
  unfolding terminate_remaining_process_group_def process_group_exists_def
  by (auto intro!: rules signal_process_group)

section \<open>The session respects them\<close>

lemma served_order: "reflp (served R pid)" "transp (served R pid)"
  using order by (auto simp: served_def reflp_def transp_def)

lemma on_os: "keeps R m \<Longrightarrow> keeps (served R pid) (on_os m)"
  by (auto simp: keeps_def served_def serves_def on_os_def Let_def split: prod.split) (metis snd_conv)+

lemmas session_rules =
  keeps_bindS [OF _ _ served_order(2)] keeps_returnS [OF served_order(1)] keeps_failS [OF served_order(1)]
  keeps_map_errS keeps_ignoreS

text \<open>What is done with \<open>child_mut\<close> is done with this child.\<close>

lemma with_child:
  assumes "keeps (served R pid) (m pid)"
  shows "keeps (served R pid) (bindS child_mut m)"
  using assms order(1)
  by (auto simp: keeps_def served_def serves_def bindS_def child_mut_def reflp_def split: option.splits)

lemma with_child_or_fail:
  assumes "keeps (served R pid) (m pid)"
  shows "keeps (served R pid) (bindS (map_errS io_failure child_mut) m)"
  using assms order(1)
  by (auto simp: keeps_def served_def serves_def bindS_def map_errS_def child_mut_def reflp_def
      split: option.splits)

lemma cong: "(\<And>s. serves pid s \<Longrightarrow> m s = n s) \<Longrightarrow> keeps (served R pid) n \<Longrightarrow> keeps (served R pid) m"
  by (simp add: keeps_def served_def)

lemma os_later: "R (ses_os s) w \<Longrightarrow> served R pid s (s\<lparr>ses_os := w\<rparr>)"
  by (simp add: served_def serves_def)

lemma session_later: "served R pid s t \<Longrightarrow> served R pid t u \<Longrightarrow> served R pid s u"
  using served_order(2) by (blast dest: transpD)

lemma same_os: "served R pid s s"
  by (rule reflpD [OF served_order(1)])

text \<open>Fields of the session that have nothing to do with the child.\<close>

lemma field:
  "served R pid s (t\<lparr>ses_stdin := a\<rparr>) \<longleftrightarrow> served R pid s t"
  "served R pid s (t\<lparr>ses_frames := b\<rparr>) \<longleftrightarrow> served R pid s t"
  "served R pid s (t\<lparr>ses_accepted := c\<rparr>) \<longleftrightarrow> served R pid s t"
  "served R pid s (t\<lparr>ses_last_event := d\<rparr>) \<longleftrightarrow> served R pid s t"
  by (simp_all add: served_def serves_def)

lemma release: "served R pid s t \<Longrightarrow> served R pid s (t\<lparr>ses_child := None\<rparr>)"
  by (simp add: served_def serves_def)

lemma poll_child: "keeps (served R pid) poll_child"
  unfolding poll_child_def
  by (intro with_child_or_fail)
    (auto simp: keeps_def split: prod.split sum.split option.split dest: keepsD [OF on_os [OF wait_for_exit]])

lemma finish_reaped_child: "keeps (served R pid) (finish_reaped_child status)"
proof -
  let ?m = "bindS (map_errS Error (on_os (terminate_remaining_process_group pid))) (\<lambda>_. returnS status)"
  have m: "keeps (served R pid) ?m"
    by (intro session_rules on_os terminate_remaining)
  have "keeps (served R pid) (\<lambda>s. ?m (s\<lparr>ses_child := None\<rparr>))"
    unfolding keeps_def by (intro allI session_later [OF release [OF same_os] keeps_snd [OF m]])
  then show ?thesis
    by (rule cong [rotated]) (simp add: finish_reaped_child_def serves_def Let_def)
qed

lemma signal_group: "keeps (served R pid) (signal_group signal)"
  by (rule cong [where n = "ignoreS (on_os (signal_process_group pid signal))"])
    (auto simp: signal_group_def serves_def intro!: session_rules on_os signal_process_group)

lemma kill_direct_child: "keeps (served R pid) kill_direct_child"
  unfolding kill_direct_child_def by (intro with_child_or_fail session_rules on_os child_kill)

lemma try_handoff_child: "keeps (served R pid) try_handoff_child"
  unfolding keeps_def try_handoff_child_def served_def serves_def Let_def
  using reaper_send order(1) by (auto simp: reflp_def split: option.splits prod.splits)

lemma handoff_live_child: "keeps (served R pid) handoff_live_child"
proof -
  have again: "keeps (served R pid) (bindS (map_errS io_failure (on_os spawn_reaper)) (\<lambda>_. try_handoff_child))"
    by (intro session_rules on_os spawn_reaper try_handoff_child)
  show ?thesis
    unfolding keeps_def handoff_live_child_def
  proof
    fix s :: "'w session"
    obtain r t where t: "try_handoff_child s = (r, t)" by fastforce
    have "served R pid s t" by (rule keepsD [OF try_handoff_child t])
    moreover have "served R pid t (snd (bindS (map_errS io_failure (on_os spawn_reaper)) (\<lambda>_. try_handoff_child) t))"
      by (rule keeps_snd [OF again])
    ultimately show "served R pid s (snd (case try_handoff_child s of
         (Inl (Error e), s) \<Rightarrow> bindS (map_errS io_failure (on_os spawn_reaper)) (\<lambda>_. try_handoff_child) s
       | (Inl (Panic message), s) \<Rightarrow> (Inl (Panic message), s)
       | (Inr pid, s) \<Rightarrow> (Inr pid, s)))"
      using t session_later by (auto split: sum.split failure.split)
  qed
qed

lemma give_up_child: "keeps (served R pid) give_up_child"
proof -
  let ?rest = "\<lambda>child s. let (_, s) = on_os (terminate_remaining_process_group (ses_pgid s)) s in
    (Inl (Error (CleanupIncomplete child (ses_pgid s) SHUTDOWN_GRACE)), s)"
  have "keeps (served R pid) (\<lambda>s. (Inl (Error (CleanupIncomplete child (ses_pgid
      (snd (on_os (terminate_remaining_process_group pid) s))) SHUTDOWN_GRACE)),
      snd (on_os (terminate_remaining_process_group pid) s)))" for child
    by (simp add: keeps_def keeps_snd [OF on_os [OF terminate_remaining]])
  then have "keeps (served R pid) (?rest child)" for child
    by (rule cong [rotated]) (auto simp: serves_def Let_def split: prod.split)
  then show ?thesis
    unfolding give_up_child_def by (intro session_rules handoff_live_child)
qed

lemma poll_or: "keeps (served R pid) next \<Longrightarrow> keeps (served R pid) (poll_or next)"
  unfolding poll_or_def
  by (intro session_rules poll_child) (simp add: finish_reaped_child split: option.split)

lemma wait_or_terminate: "keeps (served R pid) wait_or_terminate"
  unfolding wait_or_terminate_def
  by (intro poll_or session_rules signal_group kill_direct_child give_up_child)

lemma drop_session: "served R pid s (drop_session s)"
proof -
  have "served R pid s (s\<lparr>ses_stdin := None\<rparr>)"
    by (simp add: field same_os)
  then have "served R pid s (snd (wait_or_terminate (s\<lparr>ses_stdin := None\<rparr>)))"
    by (rule session_later [OF _ keeps_snd [OF wait_or_terminate]])
  then show ?thesis
    by (simp add: drop_session_def Let_def field same_os)
qed

lemma recv_timeout: "recv_timeout s = (e, s') \<Longrightarrow> served R pid s s'"
  using os_later [OF tick [of "ses_os s"]]
  by (auto simp: recv_timeout_def Let_def field split: list.splits)

lemma shutdown: "keeps (served R pid) shutdown"
  unfolding keeps_def
proof
  fix s :: "'w session"
  obtain r t where w: "wait_or_terminate (s\<lparr>ses_stdin := None\<rparr>) = (r, t)" by fastforce
  obtain d u where d: "drain_stdout t = (d, u)" by fastforce
  have "served R pid s t"
    using keepsD [OF wait_or_terminate w] session_later field(1) same_os by blast
  moreover have "served R pid t u"
    using d by (auto simp: drain_stdout_def Let_def split: prod.splits dest: recv_timeout)
  ultimately have "served R pid s (drop_session t)" "served R pid s (drop_session u)"
    using session_later drop_session by blast+
  with w d show "served R pid s (snd (shutdown s))"
    by (auto simp: shutdown_def Let_def split: sum.splits failure.splits)
qed

lemma observe_exit: "keeps (served R pid) observe_exit"
  unfolding keeps_def
proof
  fix s :: "'w session"
  show "served R pid s (snd (observe_exit s))"
  proof (induction s rule: observe_exit.induct)
    case (1 s)
    obtain r t where t: "bindS child_mut (\<lambda>pid. on_os (Process.try_wait pid)) s = (r, t)" by fastforce
    obtain b w where dl: "deadline_passed (ses_os t) = (b, w)" by fastforce
    have "served R pid s t"
      by (rule keepsD [OF with_child t]) (rule on_os [OF try_wait])
    moreover from this have "served R pid s (t\<lparr>ses_os := w\<rparr>)"
      by (rule session_later [OF _ os_later [OF deadline [OF dl]]])
    moreover from this have "served R pid s (snd (observe_exit (t\<lparr>ses_os := w\<rparr>)))"
      if "r = Inr None" "\<not> b"
      using 1 [OF t [symmetric] that(1) refl dl [symmetric]] that session_later by auto
    ultimately show ?case
      using t dl by (subst observe_exit.simps) (auto split: sum.splits option.splits bool.splits)
  qed
qed

lemma read_envelope_with_timeout: "keeps (served R pid) (read_envelope_with_timeout wire phase timeout)"
  unfolding keeps_def
proof
  fix s :: "'a session"
  obtain e t where t: "recv_timeout s = (e, t)" by fastforce
  have "keeps (served R pid) (bindS (map_errS io_failure observe_exit) (\<lambda>seen.
      case seen of Some status \<Rightarrow> failS (Error (EngineFailure (code status))) | None \<Rightarrow> failS (Error CleanEof)))"
    by (intro session_rules observe_exit) (auto intro: session_rules split: option.split)
  note at_end = session_later [OF recv_timeout [OF t] keeps_snd [OF this]]
  show "served R pid s (snd (read_envelope_with_timeout wire phase timeout s))"
    using at_end recv_timeout [OF t]
    by (auto simp: read_envelope_with_timeout_def t Let_def split: recv_event.split sum.split option.split)
qed

lemma read_envelope: "keeps (served R pid) (read_envelope wire phase)"
  unfolding read_envelope_def keeps_def by (intro allI keeps_snd [OF read_envelope_with_timeout])

lemma write_envelope: "keeps (served R pid) (write_envelope wire envelope)"
  by (auto simp: keeps_def write_envelope_def Let_def field same_os split: option.split sum.split)

lemma requests:
  "keeps (served R pid) (send_start_scan wire request_id profile)"
  "keeps (served R pid) (send_scan_control wire request_id control)"
  by (auto simp: send_start_scan_def send_scan_control_def intro: session_rules write_envelope)

lemma read_engine_event: "keeps (served R pid) (read_engine_event_with_timeout wire timeout)"
  unfolding read_engine_event_with_timeout_def
  by (intro session_rules read_envelope_with_timeout)
    (auto simp: keeps_def field same_os split: option.split envelope_body.split)

lemma accept_handshake: "keeps (served R pid) (accept_handshake h sequence accepted)"
proof -
  have "keeps (served R pid) (bindS (map_errS io_failure (bindS child_mut (\<lambda>pid. on_os (Process.try_wait pid))))
      (\<lambda>exited. case exited of Some _ \<Rightarrow> failS (Error EngineExitedAfterHandshake)
        | None \<Rightarrow> (\<lambda>s. (Inr (), s\<lparr>ses_accepted := accepted\<rparr>))))"
    by (intro session_rules with_child on_os try_wait)
      (auto simp: keeps_def field same_os split: option.split)
  note known = keeps_snd [OF this]
  show ?thesis
    unfolding keeps_def accept_handshake_def
    by (auto simp: same_os intro: known split: option.split sum.split)
qed

lemma perform_handshake: "keeps (served R pid) (perform_handshake wire)"
proof -
  have "keeps (served R pid) (if env_sequence response \<noteq> HANDSHAKE_SEQUENCE
     then failS (Error (ResponseSequenceMismatch HANDSHAKE_SEQUENCE (env_sequence response)))
     else
       case env_body response of
         Some (BodyHelloAccepted accepted) \<Rightarrow>
           accept_handshake rust_client_hello (env_sequence response) accepted
       | Some (BodyHelloRejected rejected) \<Rightarrow>
           failS (Error (RejectedByEngine (hr_code rejected) (hr_detail rejected)))
       | _ \<Rightarrow> failS (Error (UnexpectedResponse ''handshake'')))" for response
    by (simp add: session_rules accept_handshake split: option.split envelope_body.split)
  then show ?thesis
    unfolding perform_handshake_def by (intro session_rules write_envelope read_envelope)
qed

end

end
