(* ===== verification/Machine.thy ===== *)
theory Machine
  imports Prelude
begin

text \<open>
  Event-driven machines: a step function takes an input and a state and returns the outputs, in
  order, and the next state. The reducer of the frontend and the event queue between driver and
  user interface are such machines. The locales state what a component promises of one step; the
  lemmas inside carry it to every run.
\<close>

fun run :: "('i \<Rightarrow> 's \<Rightarrow> 'o list \<times> 's) \<Rightarrow> 'i list \<Rightarrow> 's \<Rightarrow> 'o list \<times> 's" where
  "run step [] s = ([], s)"
| "run step (i # is) s =
     (let (out, s') = step i s; (outs, t) = run step is s' in (out @ outs, t))"

lemma run_append:
  "run step (is @ js) s =
     (let (out, s') = run step is s; (outs, t) = run step js s' in (out @ outs, t))"
  by (induction "is" arbitrary: s) (auto simp: Let_def split: prod.splits)

lemma snd_run_append: "snd (run step (is @ js) s) = snd (run step js (snd (run step is s)))"
  by (simp add: run_append Let_def split: prod.split)

lemma fst_run_append:
  "fst (run step (is @ js) s) = fst (run step is s) @ fst (run step js (snd (run step is s)))"
  by (simp add: run_append Let_def split: prod.split)

lemma run_Cons_snd: "snd (run step (i # is) s) = snd (run step is (snd (step i s)))"
  by (simp add: Let_def split: prod.split)

lemma run_Cons_fst: "fst (run step (i # is) s) = fst (step i s) @ fst (run step is (snd (step i s)))"
  by (simp add: Let_def split: prod.split)

text \<open>A set of states no step leaves.\<close>

locale invariant_machine =
  fixes step :: "'i \<Rightarrow> 's \<Rightarrow> 'o list \<times> 's"
    and inv :: "'s \<Rightarrow> bool"
  assumes keep: "inv s \<Longrightarrow> step i s = (out, s') \<Longrightarrow> inv s'"
begin

lemma keep_snd: "inv s \<Longrightarrow> inv (snd (step i s))"
  by (metis keep prod.collapse)

lemma run_keeps: "inv s \<Longrightarrow> inv (snd (run step is s))"
proof (induction "is" arbitrary: s)
  case (Cons i "is")
  then show ?case
    using Cons.IH [OF keep_snd [OF Cons.prems]] by (simp add: run_Cons_snd del: run.simps)
qed simp

end

text \<open>A relation between a state and a later one that every step respects.\<close>

locale monotone_machine = invariant_machine step inv
  for step :: "'i \<Rightarrow> 's \<Rightarrow> 'o list \<times> 's" and inv :: "'s \<Rightarrow> bool" +
  fixes later :: "'s \<Rightarrow> 's \<Rightarrow> bool"
  assumes later_refl: "inv s \<Longrightarrow> later s s"
    and later_trans: "later s t \<Longrightarrow> later t u \<Longrightarrow> later s u"
    and step_later: "inv s \<Longrightarrow> step i s = (out, s') \<Longrightarrow> later s s'"
begin

lemma run_later: "inv s \<Longrightarrow> later s (snd (run step is s))"
proof (induction "is" arbitrary: s)
  case (Cons i "is")
  have "later s (snd (step i s))"
    using step_later [OF Cons.prems] by (metis prod.collapse)
  from later_trans [OF this Cons.IH [OF keep_snd [OF Cons.prems]]] show ?case
    by (simp only: run_Cons_snd)
qed (simp add: later_refl)

end

text \<open>Outputs that carry a running count: each step numbers its outputs from the state's counter on.\<close>

locale numbering_machine = invariant_machine step inv
  for step :: "'i \<Rightarrow> 's \<Rightarrow> 'o list \<times> 's" and inv :: "'s \<Rightarrow> bool" +
  fixes counter :: "'s \<Rightarrow> nat"
    and numbers :: "'o \<Rightarrow> nat list"
  assumes step_numbers:
    "inv s \<Longrightarrow> step i s = (out, s') \<Longrightarrow>
       concat (map numbers out) = [counter s ..< counter s'] \<and> counter s \<le> counter s'"
begin

lemma run_numbers:
  "inv s \<Longrightarrow> concat (map numbers (fst (run step is s))) = [counter s ..< counter (snd (run step is s))]
     \<and> counter s \<le> counter (snd (run step is s))"
proof (induction "is" arbitrary: s)
  case (Cons i "is")
  obtain out s' where st: "step i s = (out, s')" by (cases "step i s")
  note one = step_numbers [OF Cons.prems st] and rest = Cons.IH [OF keep [OF Cons.prems st]]
  define m where "m = counter (snd (run step is s'))"
  have "[counter s ..< counter s'] @ [counter s' ..< m] = [counter s ..< m]"
    using one rest upt_add_eq_append [of "counter s" "counter s'" "m - counter s'"]
    by (simp add: m_def)
  with one rest show ?case
    by (simp add: run_Cons_fst run_Cons_snd st m_def del: run.simps)
qed simp

end

text \<open>A machine whose stop output comes last: the step that emits it halts, and a halted machine stays
  halted and emits nothing.\<close>

locale halting_machine =
  fixes step :: "'i \<Rightarrow> 's \<Rightarrow> 'o list \<times> 's"
    and halted :: "'s \<Rightarrow> bool"
    and is_stop :: "'o \<Rightarrow> bool"
  assumes halted_silent: "halted s \<Longrightarrow> step i s = (out, s') \<Longrightarrow> out = [] \<and> halted s'"
    and stop_halts: "step i s = (out, s') \<Longrightarrow> x \<in> set out \<Longrightarrow> is_stop x \<Longrightarrow> out = [x] \<and> halted s'"
begin

lemma run_halted: "halted s \<Longrightarrow> run step is s = (out, t) \<Longrightarrow> out = [] \<and> halted t"
proof (induction "is" arbitrary: s out t)
  case (Cons i "is")
  obtain o1 s1 o2 where s1: "step i s = (o1, s1)" "run step is s1 = (o2, t)" "out = o1 @ o2"
    using Cons.prems(2) by (auto simp: Let_def split: prod.splits)
  then show ?case
    using halted_silent [OF Cons.prems(1) s1(1)] Cons.IH [OF _ s1(2)] by simp
qed simp

lemma run_stops_last:
  "run step is s = (out, t) \<Longrightarrow>
     (\<forall>x \<in> set out. \<not> is_stop x) \<or>
     (\<exists>pre x. out = pre @ [x] \<and> is_stop x \<and> (\<forall>y \<in> set pre. \<not> is_stop y) \<and> halted t)"
proof (induction "is" arbitrary: s out)
  case (Cons i "is")
  obtain o1 s1 o2 where s1: "step i s = (o1, s1)" "run step is s1 = (o2, t)" "out = o1 @ o2"
    using Cons.prems by (auto simp: Let_def split: prod.splits)
  show ?case
  proof (cases "\<exists>x \<in> set o1. is_stop x")
    case True
    then obtain x where "x \<in> set o1" "is_stop x" by blast
    with stop_halts [OF s1(1)] run_halted [OF _ s1(2)] have "out = [] @ [x] \<and> is_stop x \<and> halted t"
      by (simp add: s1(3))
    then show ?thesis by fastforce
  next
    case False
    from Cons.IH [OF s1(2)] show ?thesis
    proof
      assume "\<exists>pre x. o2 = pre @ [x] \<and> is_stop x \<and> (\<forall>y \<in> set pre. \<not> is_stop y) \<and> halted t"
      then obtain pre x where "o2 = pre @ [x]" "is_stop x" "\<forall>y \<in> set pre. \<not> is_stop y" "halted t"
        by blast
      with False have "out = (o1 @ pre) @ [x] \<and> is_stop x \<and> (\<forall>y \<in> set (o1 @ pre). \<not> is_stop y) \<and> halted t"
        by (auto simp: s1(3))
      then show ?thesis by blast
    qed (use False in \<open>auto simp: s1(3)\<close>)
  qed
qed simp

end

end
