(* ===== verification/Session_Laws.thy ===== *)
theory Session_Laws
  imports Session_Order Framing_Laws Machine
begin

text \<open>
  What a session guarantees: the child process is reaped or handed to the reaper and never dropped
  alive, the engine's events come out numbered without a gap, the reader thread delivers exactly the
  frames written, and the handshake succeeds with an engine that negotiates.
\<close>

section \<open>The log only grows\<close>

definition log_grows :: "os \<Rightarrow> os \<Rightarrow> bool" where
  "log_grows w w' \<longleftrightarrow> set (actions w) \<subseteq> set (actions w')"

lemma log_grows_order: "reflp log_grows" "transp log_grows"
  by (auto simp: log_grows_def reflp_def transp_def)

interpretation growing: os_order log_grows pid for pid
  by unfold_locales
    (auto simp: log_grows_order keeps_def log_grows_def try_wait_def kill_command_def child_kill_def
      spawn_reaper_def reaper_send_def deadline_passed_def log_def Let_def
      split: list.splits sum.splits option.splits if_splits)

lemmas terminate_remaining_log = growing.terminate_remaining

lemma wait_for_exit_reaps:
  "wait_for_exit pid w = (Inr (Some status), w') \<Longrightarrow> Reaped pid status \<in> set (actions w')"
proof (induction pid w rule: wait_for_exit.induct)
  case (1 pid w)
  then show ?case
    by (subst (asm) (2) wait_for_exit.simps)
      (auto simp: try_wait_def log_def Let_def split: prod.splits sum.splits option.splits list.splits bool.splits)
qed

section \<open>The child is never abandoned\<close>

abbreviation session_log :: "'w session \<Rightarrow> os_action list" where
  "session_log s \<equiv> actions (ses_os s)"

text \<open>What has become of the child once the session is through with it: reaped with the reported
  status, handed to the reaper thread, or, when no reaper could be had, still owned.\<close>

definition settled :: "u32 \<Rightarrow> failure + exit_status \<Rightarrow> 'w session \<Rightarrow> bool" where
  "settled pid r s \<longleftrightarrow>
     (case ses_child s of
        Some p \<Rightarrow> p = pid \<and> (\<exists>e. r = Inl (Error (Io e)))
      | None \<Rightarrow> (\<exists>status. Reaped pid status \<in> set (session_log s)) \<or> HandedOver pid \<in> set (session_log s)) \<and>
     (\<forall>status. r = Inr status \<longrightarrow> ses_child s = None \<and> Reaped pid status \<in> set (session_log s)) \<and>
     (\<forall>message. r \<noteq> Inl (Panic message))"

definition settles :: "u32 \<Rightarrow> ('w session, failure, exit_status) action \<Rightarrow> bool" where
  "settles pid m \<longleftrightarrow> (\<forall>s r s'. ses_child s = Some pid \<longrightarrow> m s = (r, s') \<longrightarrow> settled pid r s')"

lemma settlesD: "settles pid m \<Longrightarrow> ses_child s = Some pid \<Longrightarrow> m s = (r, s') \<Longrightarrow> settled pid r s'"
  by (simp add: settles_def)

lemma on_os_child: "on_os m s = (r, s') \<Longrightarrow> ses_child s' = ses_child s \<and> ses_pgid s' = ses_pgid s"
  by (auto simp: on_os_def Let_def split: prod.splits)

lemma on_os_log:
  "keeps log_grows m \<Longrightarrow> on_os m s = (r, s') \<Longrightarrow> set (session_log s) \<subseteq> set (session_log s')"
  by (auto simp: on_os_def Let_def keeps_def log_grows_def split: prod.splits) (metis snd_conv subsetD)

text \<open>A step before the next measure: it may fail for want of a child, which is there.\<close>

definition leaves_child :: "('w session, failure, unit) action \<Rightarrow> bool" where
  "leaves_child m \<longleftrightarrow> (\<forall>s pid. ses_child s = Some pid \<longrightarrow> (\<exists>s'. m s = (Inr (), s') \<and> ses_child s' = Some pid))"

lemma signal_group_leaves: "leaves_child (signal_group signal)"
  by (auto simp: leaves_child_def signal_group_def on_os_def Let_def split: prod.splits)

lemma kill_direct_child_leaves: "leaves_child kill_direct_child"
  by (auto simp: leaves_child_def kill_direct_child_def bindS_def map_errS_def child_mut_def on_os_def
      Let_def split: prod.splits)

lemma settles_after: "leaves_child m \<Longrightarrow> settles pid next \<Longrightarrow> settles pid (bindS m (\<lambda>_. next))"
  by (fastforce simp: settles_def leaves_child_def)

lemma poll_child_cases:
  assumes "ses_child s = Some pid" "poll_child s = (r, s')"
  shows "(r = Inr None \<or> (\<exists>status. r = Inr (Some status) \<and> Reaped pid status \<in> set (session_log s')))
    \<and> ses_child s' = Some pid"
proof -
  obtain q w where q: "wait_for_exit pid (ses_os s) = (q, w)" by fastforce
  with assms have "(r, s') = (case q of Inr (Some status) \<Rightarrow> Inr (Some status) | _ \<Rightarrow> Inr None, s\<lparr>ses_os := w\<rparr>)"
    by (auto simp: poll_child_def bindS_def map_errS_def child_mut_def on_os_def split: sum.splits option.splits)
  with assms(1) wait_for_exit_reaps [of pid "ses_os s"] q show ?thesis
    by (auto split: sum.splits option.splits)
qed

lemma finish_reaped_child_settles:
  assumes "Reaped pid status \<in> set (session_log s)" "finish_reaped_child status s = (r, s')"
  shows "settled pid r s'"
proof -
  let ?s = "s\<lparr>ses_child := None\<rparr>"
  obtain q t where q: "on_os (terminate_remaining_process_group (ses_pgid ?s)) ?s = (q, t)" by fastforce
  have "Reaped pid status \<in> set (session_log t)"
    using on_os_log [OF terminate_remaining_log q] assms(1) by auto
  moreover have "s' = t" "r = Inr status \<or> (\<exists>e. r = Inl (Error e))"
    using assms(2) q by (auto simp: finish_reaped_child_def Let_def bindS_def map_errS_def split: sum.splits prod.splits)
  ultimately show ?thesis
    using on_os_child [OF q] by (auto simp: settled_def)
qed

lemma settles_poll_or:
  assumes "settles pid next"
  shows "settles pid (poll_or next)"
  unfolding settles_def
proof (intro allI impI)
  fix s :: "'a session" and r s'
  assume c: "ses_child s = Some pid" and run: "poll_or next s = (r, s')"
  obtain q t where q: "poll_child s = (q, t)" by fastforce
  from poll_child_cases [OF c q] show "settled pid r s'"
  proof (elim conjE disjE exE)
    assume "q = Inr None" "ses_child t = Some pid"
    with assms run q show ?thesis by (auto simp: poll_or_def settles_def)
  next
    fix status
    assume "q = Inr (Some status)" "Reaped pid status \<in> set (session_log t)"
    with run q finish_reaped_child_settles show ?thesis by (auto simp: poll_or_def)
  qed
qed

lemma reaper_send_log:
  "reaper_send pid w = (sent, w') \<Longrightarrow>
     set (actions w) \<subseteq> set (actions w') \<and> (sent \<longrightarrow> HandedOver pid \<in> set (actions w'))"
  by (auto simp: reaper_send_def log_def Let_def split: list.splits if_splits)

lemma try_handoff_child_cases:
  assumes "ses_child s = Some pid" "try_handoff_child s = (r, s')"
  shows "r = Inr pid \<and> ses_child s' = None \<and> HandedOver pid \<in> set (session_log s') \<and> ses_pgid s' = ses_pgid s
    \<or> (\<exists>e. r = Inl (Error (Io e))) \<and> ses_child s' = Some pid \<and> ses_pgid s' = ses_pgid s"
  using assms reaper_send_log [of pid "ses_os s"]
  by (auto simp: try_handoff_child_def io_failure_def Let_def split: prod.splits if_splits)

lemma handoff_live_child_cases:
  assumes "ses_child s = Some pid" "handoff_live_child s = (r, s')"
  shows "r = Inr pid \<and> ses_child s' = None \<and> HandedOver pid \<in> set (session_log s')
    \<or> (\<exists>e. r = Inl (Error (Io e))) \<and> ses_child s' = Some pid"
proof -
  obtain q t where q: "try_handoff_child s = (q, t)" by fastforce
  from try_handoff_child_cases [OF assms(1) q] show ?thesis
  proof (elim disjE conjE exE)
    assume "q = Inr pid" "ses_child t = None" "HandedOver pid \<in> set (session_log t)"
    with assms(2) q show ?thesis by (simp add: handoff_live_child_def)
  next
    fix e assume qe: "q = Inl (Error (Io e))" "ses_child t = Some pid"
    obtain p u where p: "on_os spawn_reaper t = (p, u)" by fastforce
    have u: "ses_child u = Some pid" using on_os_child [OF p] qe(2) by simp
    show ?thesis
    proof (cases p)
      case (Inl e')
      with assms(2) q qe p u show ?thesis
        by (auto simp: handoff_live_child_def bindS_def map_errS_def io_failure_def)
    next
      case (Inr x)
      with assms(2) q qe p have "try_handoff_child u = (r, s')"
        by (simp add: handoff_live_child_def bindS_def map_errS_def)
      from try_handoff_child_cases [OF u this] show ?thesis by blast
    qed
  qed
qed

lemma give_up_child_settles: "settles pid give_up_child"
  unfolding settles_def
proof (intro allI impI)
  fix s :: "'a session" and r s'
  assume c: "ses_child s = Some pid" and run: "give_up_child s = (r, s')"
  obtain q t where q: "handoff_live_child s = (q, t)" by fastforce
  from handoff_live_child_cases [OF c q] show "settled pid r s'"
  proof (elim disjE conjE exE)
    assume qi: "q = Inr pid" "ses_child t = None" "HandedOver pid \<in> set (session_log t)"
    obtain p u where p: "on_os (terminate_remaining_process_group (ses_pgid t)) t = (p, u)" by fastforce
    with run q qi have "s' = u" "\<exists>e. r = Inl (Error e)"
      by (auto simp: give_up_child_def Let_def)
    with on_os_child [OF p] on_os_log [OF terminate_remaining_log p] qi show ?thesis
      by (auto simp: settled_def)
  next
    fix e assume "q = Inl (Error (Io e))" "ses_child t = Some pid"
    with run q show ?thesis by (auto simp: give_up_child_def settled_def)
  qed
qed

lemma wait_or_terminate_settles: "settles pid wait_or_terminate"
  unfolding wait_or_terminate_def
  by (intro settles_poll_or settles_after signal_group_leaves kill_direct_child_leaves give_up_child_settles)

text \<open>Where the child is in the end: reaped, handed over, or still owned.\<close>

definition accounted :: "u32 \<Rightarrow> 'w session \<Rightarrow> bool" where
  "accounted pid s \<longleftrightarrow>
     ses_child s = Some pid \<or>
     (\<exists>status. Reaped pid status \<in> set (session_log s)) \<or> HandedOver pid \<in> set (session_log s)"

lemma settled_accounted: "settled pid r s \<Longrightarrow> accounted pid s"
  by (auto simp: settled_def accounted_def split: option.splits)

lemma drain_stdout_keeps:
  "drain_stdout s = (r, s') \<Longrightarrow> ses_child s' = ses_child s \<and> session_log s' = session_log s"
  by (auto simp: drain_stdout_def recv_timeout_def Let_def split: list.splits)

lemma drop_session_accounted:
  assumes "ses_child s = None \<or> ses_child s = Some pid" "accounted pid s"
  shows "accounted pid (drop_session s) \<and> (ses_child s = None \<longrightarrow> session_log (drop_session s) = session_log s)"
proof (cases "ses_child s")
  case None
  with assms(2) show ?thesis by (auto simp: drop_session_def accounted_def Let_def)
next
  case (Some p)
  with assms(1) have "ses_child (s\<lparr>ses_stdin := None\<rparr>) = Some pid" by simp
  then have "settled pid (fst (wait_or_terminate (s\<lparr>ses_stdin := None\<rparr>)))
      (snd (wait_or_terminate (s\<lparr>ses_stdin := None\<rparr>)))"
    by (intro settlesD [OF wait_or_terminate_settles]) simp_all
  with Some show ?thesis by (auto simp: drop_session_def Let_def dest: settled_accounted)
qed

text \<open>Shutting down never abandons the engine's process, whatever the operating system answers:
  it does not panic, in the end the child was reaped, or handed to the reaper thread, or is still
  owned, and success means that the child was reaped with exit code 0.\<close>

theorem shutdown_accounts_for_child:
  assumes "ses_child s = Some pid"
  shows "accounted pid (snd (shutdown s)) \<and>
     (\<forall>message. fst (shutdown s) \<noteq> Inl (Panic message)) \<and>
     (fst (shutdown s) = Inr () \<longrightarrow> Reaped pid (ExitStatus (Some 0)) \<in> set (session_log (snd (shutdown s))))"
proof -
  let ?s = "s\<lparr>ses_stdin := None\<rparr>"
  obtain r t where w: "wait_or_terminate ?s = (r, t)" by fastforce
  with assms have st: "settled pid r t"
    by (intro settlesD [OF wait_or_terminate_settles _ w]) simp
  obtain d u where d: "drain_stdout t = (d, u)" by fastforce
  note du = drain_stdout_keeps [OF d]
  have "\<forall>message. d \<noteq> Inl (Panic message)"
    using d by (auto simp: drain_stdout_def Let_def split: prod.splits recv_event.splits sum.splits option.splits)
  moreover have sh: "shutdown s = (bindR r (\<lambda>status. bindR d (\<lambda>_.
      if success status then Inr () else Inl (Error (EngineFailure (code status))))), drop_session u)"
    using st w d by (auto simp: shutdown_def Let_def settled_def split: sum.splits failure.splits)
  moreover have child: "ses_child u = None \<or> ses_child u = Some pid"
    using st du by (auto simp: settled_def split: option.splits)
  moreover have acc: "accounted pid u"
    using settled_accounted [OF st] du by (simp add: accounted_def)
  moreover have "Reaped pid (ExitStatus (Some 0)) \<in> set (session_log u) \<and> ses_child u = None"
    if "fst (shutdown s) = Inr ()"
  proof -
    from that sh obtain status where "r = Inr status" "success status"
      by (auto simp: bindR_Inr_iff split: if_splits)
    with st du show ?thesis by (cases status) (auto simp: settled_def success_def)
  qed
  ultimately show ?thesis
    using drop_session_accounted [OF child acc] st
    by (auto simp: settled_def bindR_def split: sum.splits if_splits)
qed

definition quiet_os :: os where
  "quiet_os = \<lparr>try_waits = [], clock = [], kill_commands = [], child_kills = [], reaper_spawns = [],
     reaper_accepts = [], reader_spawns = [], call_count = 0, actions = []\<rparr>"

definition sample_session :: "bytes session" where
  "sample_session = \<lparr>ses_child = Some 7, ses_stdin = Some [], ses_frames = [Received (Inr None)],
     ses_timeout = 5000, ses_accepted = \<lparr>selected_version = None, negotiated_capabilities = []\<rparr>,
     ses_last_event = 0, ses_pgid = 7,
     ses_os = quiet_os\<lparr>try_waits := [Inr None, Inl (IoError OtherKind ''interrupted''), Inr (Some (ExitStatus (Some 0)))]\<rparr>\<rparr>"

text \<open>The equations that run a shutdown on a concrete session.\<close>

lemmas shutdown_eval =
  shutdown_def wait_or_terminate_def poll_or_def poll_child_def child_mut_def on_os_def
  wait_for_exit.simps try_wait_def deadline_passed_def signal_group_def signal_process_group_def
  process_group_exists_def kill_command_def kill_direct_child_def child_kill_def give_up_child_def
  handoff_live_child_def try_handoff_child_def reaper_send_def finish_reaped_child_def
  terminate_remaining_process_group_def drain_stdout_def recv_timeout_def drop_session_def
  bindS_def map_errS_def io_failure_def log_def tick_def success_def quiet_os_def

theorem shutdown_accounts_for_child_witness:
  "fst (shutdown sample_session) = Inr () \<and>
   Reaped 7 (ExitStatus (Some 0)) \<in> set (session_log (snd (shutdown sample_session)))"
proof -
  have "ses_child sample_session = Some 7" by (simp add: sample_session_def)
  moreover have "fst (shutdown sample_session) = Inr ()"
    by (simp add: sample_session_def shutdown_eval)
  ultimately show ?thesis
    using shutdown_accounts_for_child [of sample_session 7] by blast
qed

section \<open>The reader thread\<close>

lemma reader_thread_stream:
  "well_behaved evs \<Longrightarrow> \<forall>p \<in> set ps. length p \<le> MAX_FRAME_LENGTH \<Longrightarrow>
     stream_bytes evs = concat (map frame_bytes ps) \<Longrightarrow>
     reader_thread evs = map (\<lambda>p. Inr (Some p)) ps @ [Inr None]"
proof (induction ps arbitrary: evs)
  case Nil
  with read_frame_stream [OF Nil.prems(1)] show ?case
    by (subst reader_thread.simps) (auto simp: parse_frame_def split: sum.splits prod.splits)
next
  case (Cons p ps)
  then have "parse_frame (stream_bytes evs) = Inr (Some p, concat (map frame_bytes ps))"
    by (simp add: parse_frame_bytes)
  with read_frame_stream [OF Cons.prems(1)] obtain evs' where
    "read_frame evs = Inr (Some p, evs')" "stream_bytes evs' = concat (map frame_bytes ps)" "well_behaved evs'"
    by (auto split: sum.splits prod.splits)
  with Cons.IH [of evs'] Cons.prems(2) show ?case
    by (subst reader_thread.simps) simp
qed

text \<open>A peer that writes the payloads one after the other.\<close>

fun write_frames :: "bytes \<Rightarrow> bytes list \<Rightarrow> frame_error + bytes" where
  "write_frames out [] = Inr out"
| "write_frames out (p # ps) = bindR (write_frame vec_write_all vec_flush out p) (\<lambda>out. write_frames out ps)"

lemma write_frames_Inr:
  "write_frames out ps = Inr bs \<Longrightarrow>
     bs = out @ concat (map frame_bytes ps) \<and> (\<forall>p \<in> set ps. length p \<le> MAX_FRAME_LENGTH)"
proof (induction ps arbitrary: out)
  case (Cons p ps)
  then have len: "length p \<le> MAX_FRAME_LENGTH" and rest: "write_frames (out @ frame_bytes p) ps = Inr bs"
    by (auto simp: vec_write_frame split: if_splits)
  from len Cons.IH [OF rest] show ?case by simp
qed simp

text \<open>However the engine's output is cut into reads, the reader thread delivers exactly the frames
  the engine wrote, in order, and then the clean end of the stream.\<close>

theorem reader_thread_delivers:
  assumes "write_frames [] ps = Inr bs" and "well_behaved stdout" and "stream_bytes stdout = bs"
  shows "reader_thread stdout = map (\<lambda>p. Inr (Some p)) ps @ [Inr None]"
  using reader_thread_stream [OF assms(2)] write_frames_Inr [OF assms(1)] assms(3) by simp

theorem reader_thread_delivers_witness:
  "reader_thread [Data [0, 0, 0, 1], Interrupted, Data [97, 0, 0], Data [0, 0]]
     = [Inr (Some [97]), Inr (Some []), Inr None]"
proof -
  have "write_frames [] [[97], []] = Inr [0, 0, 0, 1, 97, 0, 0, 0, 0]"
    by (simp add: vec_write_frame frame_bytes_def MAX_FRAME_LENGTH_def word_to_be_def)
  from reader_thread_delivers [OF this, of "[Data [0, 0, 0, 1], Interrupted, Data [97, 0, 0], Data [0, 0]]"]
  show ?thesis by simp
qed

section \<open>Engine events come out numbered\<close>

lemma on_os_last_event: "on_os m s = (r, s') \<Longrightarrow> ses_last_event s' = ses_last_event s"
  by (auto simp: on_os_def Let_def split: prod.splits)

lemma child_try_wait_last_event:
  "bindS child_mut (\<lambda>pid. on_os (try_wait pid)) s = (r, s') \<Longrightarrow> ses_last_event s' = ses_last_event s"
  by (auto simp: bindS_def child_mut_def split: option.splits dest: on_os_last_event)

lemma observe_exit_last_event: "observe_exit s = (r, s') \<Longrightarrow> ses_last_event s' = ses_last_event s"
proof (induction s arbitrary: r s' rule: observe_exit.induct)
  case (1 s)
  obtain q t where q: "bindS child_mut (\<lambda>pid. on_os (try_wait pid)) s = (q, t)" by fastforce
  obtain b w where b: "deadline_passed (ses_os t) = (b, w)" by fastforce
  note same = child_try_wait_last_event [OF q]
  show ?case
  proof (cases "q = Inr None \<and> \<not> b")
    case True
    with 1(2) q b have "observe_exit (t\<lparr>ses_os := w\<rparr>) = (r, s')"
      by (subst (asm) observe_exit.simps) simp
    with 1(1) [OF q [symmetric] _ refl b [symmetric]] True same show ?thesis by simp
  next
    case False
    with 1(2) q b same show ?thesis
      by (subst (asm) observe_exit.simps) (auto split: sum.splits option.splits bool.splits)
  qed
qed

lemma read_envelope_last_event:
  "read_envelope_with_timeout wire phase timeout s = (r, s') \<Longrightarrow> ses_last_event s' = ses_last_event s"
  by (auto simp: read_envelope_with_timeout_def recv_timeout_def Let_def bindS_def map_errS_def
      split: list.splits recv_event.splits sum.splits option.splits prod.splits
      dest: observe_exit_last_event)

lemma read_engine_event_cases:
  assumes "read_engine_event_with_timeout wire timeout s = (r, s')"
  shows "(\<exists>event. r = Inr event \<and> unat (event_sequence event) = Suc (unat (ses_last_event s)) \<and>
            ses_last_event s' = event_sequence event)
    \<or> (\<exists>e. r = Inl e) \<and> ses_last_event s' = ses_last_event s"
proof -
  obtain q t where q: "read_envelope_with_timeout wire ''engine event'' timeout s = (q, t)" by fastforce
  with assms read_envelope_last_event [OF q] show ?thesis
    by (auto simp: read_engine_event_with_timeout_def bindS_def dest!: checked_add_SomeD
        split: sum.splits option.splits envelope_body.splits if_splits)
qed

text \<open>Reading events as a machine: an input is a call with its timeout, the output is the event it
  returned, if it returned one.\<close>

definition read_event_step :: "'w wire \<Rightarrow> nat \<Rightarrow> 'w session \<Rightarrow> engine_event list \<times> 'w session" where
  "read_event_step wire timeout s =
     (case read_engine_event_with_timeout wire timeout s of
        (Inr event, s') \<Rightarrow> ([event], s')
      | (Inl _, s') \<Rightarrow> ([], s'))"

interpretation session_events: numbering_machine "read_event_step wire" "\<lambda>s. True"
    "\<lambda>s. Suc (unat (ses_last_event s))" "\<lambda>event. [unat (event_sequence event)]"
proof unfold_locales
  fix i s out s'
  assume step: "read_event_step wire i s = (out, s')"
  obtain r t where "read_engine_event_with_timeout wire i s = (r, t)" by fastforce
  with step read_engine_event_cases [OF this]
  show "concat (map (\<lambda>event. [unat (event_sequence event)]) out)
        = [Suc (unat (ses_last_event s)) ..< Suc (unat (ses_last_event s'))]
      \<and> Suc (unat (ses_last_event s)) \<le> Suc (unat (ses_last_event s'))"
    by (auto simp: read_event_step_def)
qed simp

text \<open>The events a session returns are numbered without a gap: over any number of calls, whatever
  the engine sends in between and however many calls fail, the events returned carry the numbers after
  the last one known, each once and in order.\<close>

theorem session_events_contiguous:
  "map (\<lambda>event. unat (event_sequence event)) (fst (run (read_event_step wire) timeouts s))
     = [Suc (unat (ses_last_event s)) ..<
        Suc (unat (ses_last_event (snd (run (read_event_step wire) timeouts s))))]"
  using session_events.run_numbers [of wire timeouts s] by (simp add: concat_map_singleton)

section \<open>Handshake\<close>

lemma try_wait_tick: "fst (try_wait pid (tick w)) = fst (try_wait pid w)"
  by (simp add: try_wait_def Let_def split: list.split)

text \<open>C39: The client's handshake agrees with the negotiation of the core crate. When the request can
  be written and the first frame decodes to the outcome of \<open>negotiate\<close> between the engine's hello and
  the client's: an acceptance is taken over as it is if the engine is still running, and an exited
  engine or a rejection is reported as such.\<close>

theorem handshake_follows_negotiation:
  assumes "ses_stdin s = Some out"
    and "write_frame (write_all wire) (flush wire) out
      (encode wire \<lparr>env_sequence = 1, env_body = Some (BodyHello rust_client_hello)\<rparr>) = Inr out'"
    and "ses_child s = Some pid" "try_wait pid (ses_os s) = (Inr exited, w)"
    and "ses_frames s = Received (Inr (Some payload)) # later"
    and "decode wire payload = Inr \<lparr>env_sequence = 1, env_body = Some
        (case negotiate engine_hello rust_client_hello of
           Accepted a \<Rightarrow> BodyHelloAccepted a | Rejected r \<Rightarrow> BodyHelloRejected r)\<rparr>"
  shows "case negotiate engine_hello rust_client_hello of
      Accepted a \<Rightarrow>
        (if exited = None
         then \<exists>s'. perform_handshake wire s = (Inr (), s') \<and> ses_accepted s' = a \<and> ses_frames s' = later
         else fst (perform_handshake wire s) = Inl (Error EngineExitedAfterHandshake))
    | Rejected r \<Rightarrow> fst (perform_handshake wire s) = Inl (Error (RejectedByEngine (hr_code r) (hr_detail r)))"
proof -
  have valid: "validate_accepted rust_client_hello 1 1 a = Some (Inr ())"
    if "negotiate engine_hello rust_client_hello = Accepted a" for a
    by (rule negotiated_peer_valid [OF that])
  obtain w' where "try_wait pid (tick (ses_os s)) = (Inr exited, w')"
    using try_wait_tick [of pid "ses_os s"] assms(4) by (cases "try_wait pid (tick (ses_os s))") simp
  with assms(1-3,5,6) show ?thesis
    by (auto simp: perform_handshake_def write_envelope_def HANDSHAKE_SEQUENCE_def read_envelope_def
        read_envelope_with_timeout_def recv_timeout_def Let_def bindS_def map_errS_def
        accept_handshake_def child_mut_def on_os_def valid split: handshake_result.splits option.splits)
qed

definition sample_answer :: envelope where
  "sample_answer = \<lparr>env_sequence = 1, env_body = Some (BodyHelloAccepted
     \<lparr>selected_version = Some \<lparr>major = 1, minor = 2\<rparr>,
      negotiated_capabilities = [''framing-v1'', ''scan-control-v1'']\<rparr>)\<rparr>"

definition sample_wire :: "bytes wire" where
  "sample_wire = \<lparr>encode = (\<lambda>_. [1]), decode = (\<lambda>_. Inr sample_answer), write_all = vec_write_all,
     flush = vec_flush\<rparr>"

lemma sample_negotiation:
  "negotiate sample_engine_hello rust_client_hello = Accepted
     \<lparr>selected_version = Some \<lparr>major = 1, minor = 2\<rparr>,
      negotiated_capabilities = [''framing-v1'', ''scan-control-v1'']\<rparr>"
  by (simp add: negotiate_def sample_engine_hello_def rust_client_hello_def PROTOCOL_MAJOR_def
      PROTOCOL_MINOR_def offered_capabilities_def sort_dedup_def first_missing_def)

theorem handshake_follows_negotiation_witness:
  "\<exists>s'. perform_handshake sample_wire
      (sample_session\<lparr>ses_frames := [Received (Inr (Some [2]))], ses_os := quiet_os\<rparr>) = (Inr (), s') \<and>
    negotiated_capabilities (ses_accepted s') = [''framing-v1'', ''scan-control-v1'']"
proof -
  let ?s = "sample_session\<lparr>ses_frames := [Received (Inr (Some [2]))], ses_os := quiet_os\<rparr>"
  have "ses_stdin ?s = Some []" "ses_child ?s = Some 7"
      "try_wait 7 (ses_os ?s) = (Inr None, tick quiet_os)"
      "ses_frames ?s = Received (Inr (Some [2])) # []"
      "write_frame (write_all sample_wire) (flush sample_wire) []
         (encode sample_wire \<lparr>env_sequence = 1, env_body = Some (BodyHello rust_client_hello)\<rparr>)
       = Inr (frame_bytes [1])"
      "decode sample_wire [2] = Inr \<lparr>env_sequence = 1, env_body = Some
        (case negotiate sample_engine_hello rust_client_hello of
           Accepted a \<Rightarrow> BodyHelloAccepted a | Rejected r \<Rightarrow> BodyHelloRejected r)\<rparr>"
    by (simp_all add: sample_session_def quiet_os_def try_wait_def sample_wire_def sample_answer_def
        vec_write_frame MAX_FRAME_LENGTH_def sample_negotiation)
  from handshake_follows_negotiation [OF this(1,5,2,3,4,6)] sample_negotiation show ?thesis
    by auto
qed

end
