(* ===== verification/Session_Bounds.thy ===== *)
theory Session_Bounds
  imports Session_Laws
begin

text \<open>
  How long the session can keep the user waiting: its polling loops ask once, and once more after each
  time the clock says that there is time left, and stop with the answer at the deadline. A shutdown is
  a fixed number of such loops and signals.
\<close>

section \<open>The polling loops\<close>

text \<open>The answers \<open>wait_for_exit\<close> may look at: as many as the clock leaves time for, and the one at the
  deadline.\<close>

definition polls :: "os \<Rightarrow> (io_error + exit_status option) list" where
  "polls w = take (Suc (length (takeWhile Not (clock w)))) (try_waits w)"

text \<open>It returns the first answer that is an error or an exit, and no exit when there is none.\<close>

lemma wait_for_exit_again:
  assumes "try_wait pid w = (Inr None, w1)"
  shows "wait_for_exit pid w =
     (case clock w1 of
        [] \<Rightarrow> (Inr None, tick w1)
      | True # bs \<Rightarrow> (Inr None, tick (w1\<lparr>clock := bs\<rparr>))
      | False # bs \<Rightarrow> wait_for_exit pid (tick (w1\<lparr>clock := bs\<rparr>)))"
  using assms by (subst wait_for_exit.simps) (auto simp: deadline_passed_def split: list.splits bool.splits)

lemma wait_for_exit_result:
  "fst (wait_for_exit pid w) =
     (case find (\<lambda>r. r \<noteq> Inr None) (polls w) of Some r \<Rightarrow> r | None \<Rightarrow> Inr None)"
proof (induction "length (clock w)" arbitrary: w rule: less_induct)
  case less
  show ?case
  proof (cases "\<exists>w1. try_wait pid w = (Inr None, w1)")
    case True
    then obtain w1 where tw: "try_wait pid w = (Inr None, w1)" by blast
    then have w1: "clock w1 = clock w" "try_waits w1 = tl (try_waits w)"
      "try_waits w = [] \<or> hd (try_waits w) = Inr None"
      by (auto simp: try_wait_def Let_def split: list.splits)
    show ?thesis
    proof (cases "clock w")
      case Nil
      with w1 show ?thesis
        by (cases "try_waits w") (simp_all add: wait_for_exit_again [OF tw] polls_def)
    next
      case (Cons b bs)
      with w1 less [of "tick (w1\<lparr>clock := bs\<rparr>)"] show ?thesis
        by (cases "try_waits w"; cases b) (simp_all add: wait_for_exit_again [OF tw] polls_def)
    qed
  next
    case False
    then obtain r rs where "try_waits w = r # rs" "r \<noteq> Inr None"
      by (auto simp: try_wait_def Let_def split: list.splits option.splits)
    then show ?thesis
      by (subst wait_for_exit.simps)
        (auto simp: try_wait_def polls_def Let_def split: sum.splits option.splits)
  qed
qed

section \<open>Counting calls\<close>

text \<open>How often the clock will still say that there is time left.\<close>

definition time_left :: "os \<Rightarrow> nat" where
  "time_left w = length (filter Not (clock w))"

text \<open>From \<open>w\<close> to \<open>w'\<close> at most \<open>n\<close> calls were made, of whatever kind and outcome, beyond two for each
  time the clock said that there was time left: the question and the look at the clock.\<close>

definition spends :: "nat \<Rightarrow> os \<Rightarrow> os \<Rightarrow> bool" where
  "spends n w w' \<longleftrightarrow> call_count w' + 2 * time_left w' \<le> call_count w + 2 * time_left w + n"

lemma spends_refl: "spends n w w"
  by (simp add: spends_def)

lemma spends_trans: "spends m u v \<Longrightarrow> spends n v w \<Longrightarrow> spends (m + n) u w"
  by (simp add: spends_def)

lemma spends_mono: "spends m u v \<Longrightarrow> m \<le> n \<Longrightarrow> spends n u v"
  by (simp add: spends_def)

lemmas spends_call = spends_def time_left_def log_def Let_def

lemma try_wait_spends: "try_wait pid w = (r, w') \<Longrightarrow> spends 1 w w'"
  by (auto simp: try_wait_def spends_call split: list.splits sum.splits option.splits)

lemma kill_command_spends: "kill_command signal pgid w = (r, w') \<Longrightarrow> spends 1 w w'"
  by (auto simp: kill_command_def spends_call split: list.splits)

lemma deadline_passed_spends:
  "deadline_passed w = (b, w') \<Longrightarrow> call_count w' = Suc (call_count w) \<and>
     time_left w = time_left w' + (if b then 0 else 1)"
  by (auto simp: deadline_passed_def time_left_def split: list.splits)

text \<open>One turn of a polling loop: a call, and then the clock.\<close>

lemma spends_turn:
  assumes "spends 1 w w1" "deadline_passed w1 = (b, w2)"
  shows "spends (if b then 2 else 0) w w2"
  using assms(1) deadline_passed_spends [OF assms(2)] by (auto simp: spends_def split: if_splits)

lemma wait_for_exit_spends: "spends 2 w (snd (wait_for_exit pid w))"
proof (induction pid w rule: wait_for_exit.induct)
  case (1 pid w)
  obtain r w1 where tw: "try_wait pid w = (r, w1)" by fastforce
  obtain b w2 where dl: "deadline_passed w1 = (b, w2)" by fastforce
  note turn = spends_turn [OF try_wait_spends [OF tw] dl]
  show ?case
  proof (cases "r = Inr None \<and> \<not> b")
    case True
    then have "spends 2 w2 (snd (wait_for_exit pid w2))" using 1 tw dl by auto
    then have "spends 2 w (snd (wait_for_exit pid w2))"
      using spends_trans [OF turn] True by force
    with True tw dl show ?thesis by (subst wait_for_exit.simps) simp
  next
    case False
    have "spends 2 w w1" "spends 2 w w2"
      using spends_mono [OF try_wait_spends [OF tw], of 2] spends_mono [OF turn, of 2] by simp_all
    with False tw dl show ?thesis
      by (subst wait_for_exit.simps) (auto split: sum.splits option.splits bool.splits)
  qed
qed

lemma wait_for_process_group_exit_spends: "spends 2 w (snd (wait_for_process_group_exit pgid w))"
proof (induction pgid w rule: wait_for_process_group_exit.induct)
  case (1 pgid w)
  obtain r w1 where tw: "process_group_exists pgid w = (r, w1)" by fastforce
  obtain b w2 where dl: "deadline_passed w1 = (b, w2)" by fastforce
  have first: "spends 1 w w1" using tw unfolding process_group_exists_def by (rule kill_command_spends)
  note turn = spends_turn [OF first dl]
  show ?case
  proof (cases "r = Inr True \<and> \<not> b")
    case True
    then have "spends 2 w2 (snd (wait_for_process_group_exit pgid w2))" using 1 tw dl by auto
    then have "spends 2 w (snd (wait_for_process_group_exit pgid w2))"
      using spends_trans [OF turn] True by force
    with True tw dl show ?thesis by (subst wait_for_process_group_exit.simps) simp
  next
    case False
    have "spends 2 w w1" "spends 2 w w2"
      using spends_mono [OF first, of 2] spends_mono [OF turn, of 2] by simp_all
    with False tw dl show ?thesis
      by (subst wait_for_process_group_exit.simps) (auto split: sum.splits bool.splits)
  qed
qed

section \<open>Counting the calls of an action\<close>

text \<open>An action on a state in which \<open>g\<close> finds the operating system.\<close>

definition calls :: "('s \<Rightarrow> os) \<Rightarrow> nat \<Rightarrow> ('s, 'e, 'a) action \<Rightarrow> bool" where
  "calls g n m \<longleftrightarrow> (\<forall>s. spends n (g s) (g (snd (m s))))"

abbreviation os_calls :: "nat \<Rightarrow> (os, 'e, 'a) action \<Rightarrow> bool" where
  "os_calls \<equiv> calls (\<lambda>w. w)"

abbreviation session_calls :: "nat \<Rightarrow> ('w session, 'e, 'a) action \<Rightarrow> bool" where
  "session_calls \<equiv> calls ses_os"

lemma calls_mono: "calls g m a \<Longrightarrow> m \<le> n \<Longrightarrow> calls g n a"
  by (auto simp: calls_def intro: spends_mono)

lemma calls_done: "calls g n (returnS x)" "calls g n (failS e)"
  by (simp_all add: calls_def spends_refl)

lemma calls_map_errS [simp]: "calls g n (map_errS f m) \<longleftrightarrow> calls g n m"
  by (simp add: calls_def)

lemma calls_ignoreS [simp]: "calls g n (ignoreS m) \<longleftrightarrow> calls g n m"
  by (simp add: calls_def)

lemma calls_bindS:
  assumes "calls g m a" "\<And>x. calls g n (k x)"
  shows "calls g (m + n) (bindS a k)"
  unfolding calls_def
proof
  fix s
  obtain r t where a: "a s = (r, t)" by fastforce
  with assms(1) have first: "spends m (g s) (g t)" by (metis calls_def snd_conv)
  show "spends (m + n) (g s) (g (snd (bindS a k s)))"
  proof (cases r)
    case (Inl e)
    with a first show ?thesis by (simp add: bindS_def spends_mono)
  next
    case (Inr x)
    with a assms(2) [of x] have "spends n (g t) (g (snd (bindS a k s)))"
      by (simp add: calls_def bindS_def)
    with first show ?thesis by (rule spends_trans)
  qed
qed

lemma on_os_calls: "os_calls n m \<Longrightarrow> session_calls n (on_os m)"
  by (auto simp: calls_def on_os_def Let_def split: prod.splits) (metis snd_conv)

lemma os_call_calls:
  "os_calls 1 (kill_command signal pgid)" "os_calls 1 (process_group_exists pgid)"
  "os_calls 1 (child_kill pid)" "os_calls 1 spawn_reaper" "os_calls 2 (wait_for_exit pid)"
  "os_calls 2 (wait_for_process_group_exit pgid)"
  unfolding calls_def process_group_exists_def
  by (simp_all only: wait_for_exit_spends wait_for_process_group_exit_spends
      kill_command_spends [OF prod.collapse [symmetric]] simp_thms)
    (auto simp: child_kill_def spawn_reaper_def spends_call split: list.splits)

text \<open>How the calls of a conditional and of a sequence add up.\<close>

lemmas count_calls = calls_bindS calls_done os_call_calls

lemma calls_if: "calls g m a \<Longrightarrow> calls g n b \<Longrightarrow> calls g (max m n) (if c then a else b)"
  by (auto intro: calls_mono)

lemma signal_process_group_calls: "os_calls 2 (signal_process_group pgid signal)"
proof -
  have "os_calls (1 + max 0 (1 + max 0 0)) (signal_process_group pgid signal)"
    unfolding signal_process_group_def by (intro count_calls calls_if)
  then show ?thesis by (rule calls_mono) simp
qed

lemma terminate_remaining_calls: "os_calls 9 (terminate_remaining_process_group pgid)"
proof -
  have "os_calls (1 + max 0 (2 + (2 + max 0 (2 + (2 + max 0 0))))) (terminate_remaining_process_group pgid)"
    unfolding terminate_remaining_process_group_def
    by (intro calls_bindS calls_if) (simp_all add: count_calls signal_process_group_calls del: One_nat_def)
  then show ?thesis by (rule calls_mono) simp
qed

lemma child_mut_calls: "session_calls 0 child_mut"
  by (auto simp: calls_def child_mut_def spends_refl split: option.splits)

lemma finish_reaped_child_calls: "session_calls 9 (finish_reaped_child status)"
proof -
  have "session_calls (9 + 0) (bindS (map_errS Error
      (on_os (terminate_remaining_process_group pgid))) (\<lambda>_. returnS status))" for pgid
    by (intro calls_bindS calls_done) (simp add: on_os_calls terminate_remaining_calls)
  then have "spends 9 (ses_os s) (ses_os (snd (finish_reaped_child status s)))" for s :: "'a session"
    unfolding calls_def finish_reaped_child_def Let_def
    by (metis add_0_right session.select_convs(8) session.surjective session.update_convs(1))
  then show ?thesis by (simp add: calls_def)
qed

lemma try_handoff_child_calls: "session_calls 1 try_handoff_child"
  by (auto simp: calls_def spends_call try_handoff_child_def reaper_send_def
      split: option.splits list.splits)

lemma handoff_live_child_calls: "session_calls 3 handoff_live_child"
  unfolding calls_def
proof
  fix s :: "'a session"
  obtain r t where q: "try_handoff_child s = (r, t)" by fastforce
  then have first: "spends 1 (ses_os s) (ses_os t)"
    using try_handoff_child_calls by (metis calls_def snd_conv)
  have "session_calls (1 + 1) (bindS (map_errS io_failure (on_os spawn_reaper)) (\<lambda>_. try_handoff_child))"
    by (intro calls_bindS) (simp_all add: on_os_calls os_call_calls try_handoff_child_calls del: One_nat_def)
  then have "spends (1 + (1 + 1)) (ses_os s)
      (ses_os (snd (bindS (map_errS io_failure (on_os spawn_reaper)) (\<lambda>_. try_handoff_child) t)))"
    unfolding calls_def using spends_trans [OF first] by blast
  with first show "spends 3 (ses_os s) (ses_os (snd (handoff_live_child s)))"
    using q by (auto simp: handoff_live_child_def intro: spends_mono split: sum.splits failure.splits)
qed

lemma give_up_child_calls: "session_calls 12 give_up_child"
proof -
  have "session_calls 9 (\<lambda>s. let (_, s) = on_os (terminate_remaining_process_group (ses_pgid s)) s in
       (Inl (Error (CleanupIncomplete pid (ses_pgid s) SHUTDOWN_GRACE)), s))" for pid
    using on_os_calls [OF terminate_remaining_calls] by (auto simp: calls_def Let_def split_beta)
  then have "session_calls (3 + 9) give_up_child"
    unfolding give_up_child_def by (intro calls_bindS handoff_live_child_calls)
  then show ?thesis by simp
qed

lemma poll_child_calls:
  "session_calls 2 (poll_child :: ('w session, failure, exit_status option) action)"
proof -
  have "session_calls 2 (\<lambda>s :: 'w session. case on_os (wait_for_exit pid) s of
         (Inr (Some status), s) \<Rightarrow> (Inr (Some status), s) | (_, s) \<Rightarrow> (Inr None :: failure + exit_status option, s))" for pid
    unfolding calls_def
  proof
    fix s :: "'w session"
    have "spends 2 (ses_os s) (ses_os (snd (on_os (wait_for_exit pid) s)))"
      by (rule on_os_calls [OF os_call_calls(5), unfolded calls_def, rule_format])
    then show "spends 2 (ses_os s) (ses_os (snd (case on_os (wait_for_exit pid) s of
         (Inr (Some status), s) \<Rightarrow> (Inr (Some status), s) | (_, s) \<Rightarrow> (Inr None :: failure + exit_status option, s))))"
      by (auto split: prod.splits sum.splits option.splits)
  qed
  then have "session_calls (0 + 2) (poll_child :: ('w session, failure, exit_status option) action)"
    unfolding poll_child_def by (intro calls_bindS) (simp_all add: child_mut_calls)
  then show ?thesis by (simp only: add_0)
qed

lemma poll_or_calls: "session_calls n next \<Longrightarrow> session_calls (2 + max 9 n) (poll_or next)"
  unfolding poll_or_def
  by (intro calls_bindS poll_child_calls)
    (auto split: option.splits intro: calls_mono finish_reaped_child_calls)

lemma signal_group_calls: "session_calls 2 (signal_group signal)"
  using on_os_calls [OF signal_process_group_calls]
  unfolding calls_def signal_group_def action_simps snd_conv by blast

lemma kill_direct_child_calls: "session_calls 1 kill_direct_child"
proof -
  have "session_calls (0 + 1) kill_direct_child"
    unfolding kill_direct_child_def
    by (intro calls_bindS) (simp_all add: child_mut_calls on_os_calls os_call_calls del: One_nat_def)
  then show ?thesis by simp
qed

lemma wait_or_terminate_calls: "session_calls 25 wait_or_terminate"
proof -
  have "session_calls (2 + max 9 (2 + (2 + max 9 (2 + (2 + max 9 (1 + (2 + max 9 12))))))) wait_or_terminate"
    unfolding wait_or_terminate_def
    by (intro poll_or_calls calls_bindS signal_group_calls kill_direct_child_calls give_up_child_calls)
  then show ?thesis by simp
qed

section \<open>Properties\<close>

lemma drain_stdout_calls: "session_calls 1 drain_stdout"
  by (auto simp: calls_def drain_stdout_def recv_timeout_def spends_call split: list.splits)

lemma drop_session_spends: "spends 25 (ses_os s) (ses_os (drop_session s))"
  using wait_or_terminate_calls [unfolded calls_def, rule_format, of "s\<lparr>ses_stdin := None\<rparr>"]
  by (simp add: drop_session_def Let_def spends_refl)

text \<open>C18: Shutting down a session ends after a bounded number of calls, whatever the operating system
  answers: counting every poll of the child, signal and probe of the process group, direct kill,
  attempt to start a reaper or to hand over the child, look at the clock and receive from the frame
  channel, successful or not, it makes at most 51, and two more for each time the clock says that there
  is time left. It cannot spin: a polling loop asks once between two looks at the clock.\<close>

theorem shutdown_calls_bounded:
  "call_count (ses_os (snd (shutdown s))) + 2 * length (filter Not (clock (ses_os (snd (shutdown s)))))
     \<le> call_count (ses_os s) + 2 * length (filter Not (clock (ses_os s))) + 51"
proof -
  let ?s = "s\<lparr>ses_stdin := None\<rparr>"
  obtain r t where w: "wait_or_terminate ?s = (r, t)" by fastforce
  have "spends 25 (ses_os ?s) (ses_os (snd (wait_or_terminate ?s)))"
    using wait_or_terminate_calls unfolding calls_def by blast
  then have first: "spends 25 (ses_os s) (ses_os t)" using w by simp
  obtain d u where d: "drain_stdout t = (d, u)" by fastforce
  have "spends 1 (ses_os t) (ses_os u)"
    using drain_stdout_calls [unfolded calls_def, rule_format, of t] d by simp
  then have "spends (25 + 1 + 25) (ses_os s) (ses_os (drop_session u))"
    using spends_trans first drop_session_spends by metis
  moreover have "spends (25 + 1 + 25) (ses_os s) (ses_os (drop_session t))"
    using spends_mono [OF spends_trans [OF first drop_session_spends]] by simp
  moreover have "snd (shutdown s) = drop_session t \<or> snd (shutdown s) = drop_session u"
    using w d by (auto simp: shutdown_def Let_def split: sum.splits failure.splits)
  ultimately show ?thesis by (auto simp: spends_def time_left_def)
qed

end
