(* ===== verification/Transport.thy ===== *)
theory Transport
  imports Session_Laws
begin

text \<open>
  From the engine's standard output to the session's events: the frames the reader thread takes from
  the pipe reach the session through the frame channel, and each comes out as the event that was
  written, however the bytes were cut into reads and whatever timeouts the session saw in between.
\<close>

section \<open>The frame channel\<close>

text \<open>What a script of the channel's receiving end has been sent.\<close>

fun received :: "recv_event list \<Rightarrow> frame_result list" where
  "received [] = []"
| "received (Received r # fs) = r # received fs"
| "received (_ # fs) = received fs"

text \<open>The envelope of an event as the engine writes it.\<close>

definition event_envelope :: "engine_event \<Rightarrow> envelope" where
  "event_envelope event = \<lparr>env_sequence = event_sequence event, env_body = Some (BodyEngineEvent event)\<rparr>"

section \<open>One call\<close>

lemma observe_exit_frames: "observe_exit s = (r, s') \<Longrightarrow> ses_frames s' = ses_frames s"
proof (induction s arbitrary: r s' rule: observe_exit.induct)
  case (1 s)
  obtain q t where q: "bindS child_mut (\<lambda>pid. on_os (try_wait pid)) s = (q, t)" by fastforce
  obtain b w where b: "deadline_passed (ses_os t) = (b, w)" by fastforce
  have same: "ses_frames t = ses_frames s"
    using q by (auto simp: bindS_def child_mut_def on_os_def Let_def split: option.splits prod.splits)
  show ?case
  proof (cases "q = Inr None \<and> \<not> b")
    case True
    with 1(2) q b have "observe_exit (t\<lparr>ses_os := w\<rparr>) = (r, s')"
      by (subst (asm) observe_exit.simps) simp
    with 1(1) [OF q [symmetric] _ refl b [symmetric]] True same show ?thesis by simp
  next
    case False
    with 1(2) q b same show ?thesis
      by (subst (asm) observe_exit.simps) (auto split: sum.splits option.splits bool.splits)
  qed
qed

text \<open>A call that does not find a frame returns no event and only uses the script up.\<close>

lemma read_nothing:
  assumes "\<And>p. ses_frames s \<noteq> [] \<Longrightarrow> hd (ses_frames s) \<noteq> Received (Inr (Some p))"
  shows "\<exists>s'. read_event_step wire t s = ([], s') \<and> ses_frames s' = tl (ses_frames s) \<and>
    ses_last_event s' = ses_last_event s"
proof -
  obtain f u where f: "recv_timeout s = (f, u)" by fastforce
  then have u: "ses_frames u = tl (ses_frames s)" and no: "\<And>p. f \<noteq> Received (Inr (Some p))"
    using assms by (auto simp: recv_timeout_def Let_def split: list.splits)
  obtain r v where r: "read_envelope_with_timeout wire ''engine event'' t s = (r, v)" by fastforce
  have "(\<exists>e. r = Inl e) \<and> ses_frames v = ses_frames u"
    using r f no
    by (auto simp: read_envelope_with_timeout_def bindS_def map_errS_def Let_def dest: observe_exit_frames
        split: recv_event.splits sum.splits option.splits prod.splits)
  then show ?thesis
    using r u read_envelope_last_event [OF r] by (auto simp: read_event_step_def read_engine_event_with_timeout_def bindS_def)
qed

lemma read_frame_event:
  assumes "ses_frames s = Received (Inr (Some (encode wire (event_envelope event)))) # fs"
    and "decode wire (encode wire (event_envelope event)) = Inr (event_envelope event)"
    and "unat (event_sequence event) = Suc (unat (ses_last_event s))"
  shows "read_event_step wire t s = ([event], s\<lparr>ses_frames := fs,
     ses_last_event := event_sequence event, ses_os := tick (ses_os s)\<rparr>)"
proof -
  have "checked_add (ses_last_event s) 1 = Some (event_sequence event)"
    using assms(3) by (simp add: checked_add_Some_iff)
  then show ?thesis
    using assms(1,2)
    by (simp add: read_event_step_def read_engine_event_with_timeout_def bindS_def
        read_envelope_with_timeout_def recv_timeout_def event_envelope_def Let_def)
qed

section \<open>Any number of calls\<close>

lemma received_in: "r \<in> set (received fs) \<longleftrightarrow> Received r \<in> set fs"
  by (induction fs rule: received.induct) auto

lemma reads_nothing:
  "(\<And>p. Received (Inr (Some p)) \<notin> set (ses_frames s)) \<Longrightarrow> fst (run (read_event_step wire) ts s) = []"
proof (induction ts arbitrary: s)
  case (Cons t ts)
  have "\<And>p. ses_frames s \<noteq> [] \<Longrightarrow> hd (ses_frames s) \<noteq> Received (Inr (Some p))"
    using Cons.prems by (metis list.set_sel(1))
  from read_nothing [OF this, of wire t] obtain s' where
    s': "read_event_step wire t s = ([], s')" "ses_frames s' = tl (ses_frames s)" by blast
  then have "fst (run (read_event_step wire) ts s') = []"
    using Cons.prems by (intro Cons.IH) (metis list.set_sel(2) tl_Nil)
  with s'(1) show ?case by (simp add: run_Cons_fst del: run.simps)
qed simp

lemma reads_events:
  "\<forall>e \<in> set es. decode wire (encode wire (event_envelope e)) = Inr (event_envelope e) \<Longrightarrow> ses_frames s = fs \<Longrightarrow>
    received fs = map (\<lambda>e. Inr (Some (encode wire (event_envelope e)))) es @ [Inr None] \<Longrightarrow>
    map (\<lambda>e. unat (event_sequence e)) es
      = [Suc (unat (ses_last_event s)) ..< Suc (unat (ses_last_event s) + length es)] \<Longrightarrow>
    length fs \<le> length ts \<Longrightarrow> fst (run (read_event_step wire) ts s) = es"
proof (induction fs arbitrary: s es ts)
  case (Cons f fs)
  note codec = Cons.prems(1) and fs = Cons.prems(2) and sent = Cons.prems(3) and numbers = Cons.prems(4)
  obtain t ts' where ts: "ts = t # ts'" "length fs \<le> length ts'"
    using Cons.prems(5) by (cases ts) auto
  show ?case
  proof (cases "\<exists>p. f = Received (Inr (Some p))")
    case True
    then obtain e es' where e: "es = e # es'" "f = Received (Inr (Some (encode wire (event_envelope e))))"
      using sent by (cases es) auto
    let ?s = "s\<lparr>ses_frames := fs, ses_last_event := event_sequence e, ses_os := tick (ses_os s)\<rparr>"
    have num: "unat (event_sequence e) = Suc (unat (ses_last_event s))"
      and rest: "map (\<lambda>e. unat (event_sequence e)) es' = [Suc (unat (event_sequence e)) ..<
        Suc (unat (event_sequence e) + length es')]"
      using numbers e(1) by (auto simp: upt_conv_Cons simp del: upt_Suc)
    have "read_event_step wire t s = ([e], ?s)"
      by (rule read_frame_event [OF _ _ num]) (use fs codec e in simp_all)
    moreover have "fst (run (read_event_step wire) ts' ?s) = es'"
      by (rule Cons.IH) (use codec sent e ts rest in simp_all)
    ultimately show ?thesis
      by (simp add: ts(1) e(1) run_Cons_fst del: run.simps)
  next
    case False
    then have "\<And>p. ses_frames s \<noteq> [] \<Longrightarrow> hd (ses_frames s) \<noteq> Received (Inr (Some p))"
      using fs by auto
    from read_nothing [OF this, of wire t] obtain s' where
      s': "read_event_step wire t s = ([], s')" "ses_frames s' = fs" "ses_last_event s' = ses_last_event s"
      using fs by auto
    have "fst (run (read_event_step wire) ts' s') = es"
    proof (cases "\<exists>r. f = Received r")
      case True
      then have "es = []" "received fs = []"
        using False sent by (cases es; auto)+
      with received_in [of _ fs] s'(2) show ?thesis by (simp add: reads_nothing)
    next
      case other: False
      then have "received (f # fs) = received fs" by (cases f) auto
      with codec sent numbers s' ts(2) show ?thesis by (intro Cons.IH) simp_all
    qed
    with s'(1) show ?thesis by (simp add: ts(1) run_Cons_fst del: run.simps)
  qed
qed simp

text \<open>C11: What the engine writes is what the session reads. The engine writes events numbered from 1 on,
  each as one frame of its encoded envelope; however its output is cut into reads and whatever timeouts
  the session meets in between, enough calls return exactly these events in order and nothing else,
  for every codec that decodes what it has encoded.\<close>

theorem written_events_are_read:
  assumes "\<forall>e \<in> set es. decode wire (encode wire (event_envelope e)) = Inr (event_envelope e)"
    and "map (\<lambda>e. unat (event_sequence e)) es = [1 ..< Suc (length es)]"
    and "write_frames [] (map (\<lambda>e. encode wire (event_envelope e)) es) = Inr bs"
    and "well_behaved stdout" "stream_bytes stdout = bs"
    and "received (ses_frames s) = reader_thread stdout" "ses_last_event s = 0"
    and "length (ses_frames s) \<le> length timeouts"
  shows "fst (run (read_event_step wire) timeouts s) = es"
proof (rule reads_events [OF assms(1) refl])
  show "received (ses_frames s) = map (\<lambda>e. Inr (Some (encode wire (event_envelope e)))) es @ [Inr None]"
    using reader_thread_stream [OF assms(4), of "map (\<lambda>e. encode wire (event_envelope e)) es"]
      write_frames_Inr [OF assms(3)] assms(5,6) by (simp add: comp_def)
qed (use assms in simp_all)

theorem written_events_are_read_witness:
  "fst (run (read_event_step (sample_wire\<lparr>decode :=
         \<lambda>_. Inr (event_envelope \<lparr>event_sequence = 1, ev_request_id = 1, ev_body = None\<rparr>)\<rparr>)) [50, 50, 50]
      (sample_session\<lparr>ses_frames := [RecvTimeout, Received (Inr (Some [1])), Received (Inr None)]\<rparr>))
    = [\<lparr>event_sequence = 1, ev_request_id = 1, ev_body = None\<rparr>]"
proof -
  let ?event = "\<lparr>event_sequence = 1, ev_request_id = 1, ev_body = None\<rparr>"
  let ?wire = "sample_wire\<lparr>decode := \<lambda>_. Inr (event_envelope ?event)\<rparr>"
  let ?s = "sample_session\<lparr>ses_frames := [RecvTimeout, Received (Inr (Some [1])), Received (Inr None)]\<rparr>"
  let ?stdout = "[Data [0, 0], Interrupted, Data [0, 1, 1]]"
  have "write_frames [] (map (\<lambda>e. encode ?wire (event_envelope e)) [?event]) = Inr [0, 0, 0, 1, 1]"
    by (simp add: sample_wire_def vec_write_frame frame_bytes_def MAX_FRAME_LENGTH_def word_to_be_def)
  moreover have "reader_thread ?stdout = map (\<lambda>p. Inr (Some p)) [[1]] @ [Inr None]"
    by (rule reader_thread_stream) (simp_all add: frame_bytes_def MAX_FRAME_LENGTH_def word_to_be_def)
  ultimately show ?thesis
    using written_events_are_read [of "[?event]" ?wire "[0, 0, 0, 1, 1]" ?stdout ?s "[50, 50, 50]"]
    by (simp add: sample_session_def)
qed

end
