(* ===== verification/Model.thy ===== *)
theory Model
  imports Proto
begin

text \<open>
  The frontend's state and events, \<open>diskplan-cli/src/tui/model.rs\<close>: the control requests that
  wait for an acknowledgement, the one acknowledged request whose events the engine sends now
  (with the phase of its life cycle), and the request numbering.
\<close>

section \<open>Data\<close>

datatype screen = ScanScreen | ProvisionalPlanScreen

record pending_control =
  pc_request_id :: u64
  pc_kind :: scan_control_kind

datatype request_phase =
    AwaitingStateConfirmation | AwaitingPlanReadyState | AwaitingPlanProjection
  | AwaitingInvalidation | AwaitingResumeState | AwaitingResumeProgress
  | AwaitingCancelledState | AwaitingCancelledTerminal | Steady

record active_request =
  ar_request_id :: u64
  ar_kind :: scan_control_kind
  ar_phase :: request_phase

text \<open>
  The messages shown to the user. All are plain text but one, whose \<open>format!\<close> prints two strings
  with \<open>{:?}\<close>: it is kept as its two arguments, since the escapes of Rust's string \<open>Debug\<close> depend
  on Unicode tables of the standard library.
\<close>

datatype detail = Text string | PlanInvalidationMismatch string string

datatype terminal_state = TermCancelled string | TermFinished string | TermFailed detail

record app_state =
  screen :: screen
  scan_state :: scan_state
  progress :: "scan_progress option"
  provisional_plan :: "provisional_plan option"
  pending_controls :: "pending_control list"
  active_request :: "active_request option"
  help_visible :: bool
  cancel_requested :: bool
  terminal :: "terminal_state option"
  driver_exited :: bool
  banner :: "detail option"
  last_event_sequence :: u64
  next_request_id :: u64

text \<open>The character U+2026 in UTF-8.\<close>

definition ellipsis :: string where
  "ellipsis = [CHR 0xE2, CHR 0x80, CHR 0xA6]"

definition default_app_state :: app_state where
  "default_app_state =
     \<lparr>screen = ScanScreen, scan_state = Idle, progress = None, provisional_plan = None,
      pending_controls = [\<lparr>pc_request_id = 1, pc_kind = StartScan\<rparr>], active_request = None,
      help_visible = False, cancel_requested = False, terminal = None, driver_exited = False,
      banner = Some (Text (''Connecting to the Swift engine'' @ ellipsis)),
      last_event_sequence = 0, next_request_id = 2\<rparr>"

record control_command =
  cc_request_id :: u64
  cc_kind :: scan_control_kind

datatype request_id_exhausted = RequestIdExhausted

text \<open>The key codes of \<open>crossterm\<close> that the program tells apart.\<close>

datatype key_code = KeyChar char | OtherKey

datatype key_event_kind = KeyPress | KeyRepeat | KeyRelease

record engine_delivery =
  dl_event :: engine_event
  skipped_progress_events :: u64

datatype ui_event =
    Key key_code key_event_kind
  | Resize
  | Engine engine_delivery
  | DriverExited "string + unit"

datatype effect = SendControl control_command | StopDriver

section \<open>Operations\<close>

definition exact :: "engine_event \<Rightarrow> engine_delivery" where
  "exact event = \<lparr>dl_event = event, skipped_progress_events = 0\<rparr>"

definition try_next_control ::
  "scan_control_kind \<Rightarrow> app_state \<Rightarrow> (request_id_exhausted + control_command) \<times> app_state" where
  "try_next_control kind s =
     (let request_id = next_request_id s in
      case checked_add request_id 1 of
        None \<Rightarrow> (Inl RequestIdExhausted, s)
      | Some next \<Rightarrow>
          (Inr \<lparr>cc_request_id = request_id, cc_kind = kind\<rparr>,
           s\<lparr>next_request_id := next,
             pending_controls :=
               pending_controls s @ [\<lparr>pc_request_id = request_id, pc_kind = kind\<rparr>]\<rparr>))"

definition has_pending :: "scan_control_kind \<Rightarrow> app_state \<Rightarrow> bool" where
  "has_pending kind s \<longleftrightarrow> list_ex (\<lambda>p. pc_kind p = kind) (pending_controls s)"

definition find_pending :: "u64 \<Rightarrow> app_state \<Rightarrow> pending_control option" where
  "find_pending request_id s = find (\<lambda>p. pc_request_id p = request_id) (pending_controls s)"

text \<open>\<open>Vec::remove\<close> at the \<open>position\<close> of the first entry with that id.\<close>

fun remove_pending :: "u64 \<Rightarrow> pending_control list \<Rightarrow> pending_control list" where
  "remove_pending request_id [] = []"
| "remove_pending request_id (p # ps) =
     (if pc_request_id p = request_id then ps else p # remove_pending request_id ps)"

definition take_pending :: "u64 \<Rightarrow> app_state \<Rightarrow> pending_control option \<times> app_state" where
  "take_pending request_id s =
     (case find_pending request_id s of
        None \<Rightarrow> (None, s)
      | Some p \<Rightarrow>
          (Some p, s\<lparr>pending_controls := remove_pending request_id (pending_controls s)\<rparr>))"

definition should_exit :: "app_state \<Rightarrow> bool" where
  "should_exit s \<longleftrightarrow> terminal s \<noteq> None \<and> driver_exited s"

section \<open>The pending controls\<close>

abbreviation pending_ids :: "pending_control list \<Rightarrow> u64 list" where
  "pending_ids ps \<equiv> map pc_request_id ps"

lemma set_remove_pending:
  "distinct (pending_ids ps) \<Longrightarrow>
     set (remove_pending i ps) = {p \<in> set ps. pc_request_id p \<noteq> i}"
proof (induction ps)
  case (Cons p ps)
  then show ?case by (cases "pc_request_id p = i") (auto simp: image_iff)
qed simp

lemma set_remove_pending_subset: "set (remove_pending i ps) \<subseteq> set ps"
  by (induction ps) auto

lemma distinct_remove_pending:
  "distinct (map f ps) \<Longrightarrow> distinct (map f (remove_pending i ps))"
  by (induction ps) (auto dest: set_remove_pending_subset [THEN subsetD])

lemma length_remove_pending:
  "i \<in> set (pending_ids ps) \<Longrightarrow> length ps = Suc (length (remove_pending i ps))"
  by (induction ps) auto

lemma find_pending_Some:
  "find_pending i s = Some p \<Longrightarrow> p \<in> set (pending_controls s) \<and> pc_request_id p = i"
  by (auto simp: find_pending_def find_Some_iff)

lemma find_pending_None:
  "find_pending i s = None \<longleftrightarrow> i \<notin> set (pending_ids (pending_controls s))"
  by (auto simp: find_pending_def find_None_iff)

lemma has_pending_iff: "has_pending k s \<longleftrightarrow> k \<in> set (map pc_kind (pending_controls s))"
  by (auto simp: has_pending_def list_ex_iff)

lemma snd_take_pending_Some:
  "find_pending i s = Some p \<Longrightarrow>
     snd (take_pending i s) = s\<lparr>pending_controls := remove_pending i (pending_controls s)\<rparr>"
  by (simp add: take_pending_def)

end
