(* ===== verification/Event_Queue.thy ===== *)
theory Event_Queue
  imports Model
begin

text \<open>
  The channel from the engine driver's thread to the user interface,
  \<open>diskplan-cli/src/tui/event.rs\<close>. Its operations run under one mutex, so a run of the two threads
  is a sequence of these steps: a send that finds the queue full gives up the lock (\<open>Blocked\<close>) and
  is tried again when space is announced, a receive that finds it empty waits (\<open>Pending\<close>). A poisoned
  mutex needs a panic while it is held; no operation panics, so poisoning is left out.
\<close>

section \<open>State\<close>

record event_queue =
  events :: "ui_event list"
  semantic_events :: usize
  semantic_capacity :: usize
  producer_closed :: bool
  receiver_closed :: bool

definition is_progress_event :: "ui_event \<Rightarrow> bool" where
  "is_progress_event e =
     (case e of
        Engine d \<Rightarrow> (case ev_body (dl_event d) of Some (ScanProgress _) \<Rightarrow> True | _ \<Rightarrow> False)
      | _ \<Rightarrow> False)"

definition engine_event_channel :: "usize \<Rightarrow> io_error + event_queue" where
  "engine_event_channel capacity =
     (if capacity = 0
      then Inl (IoError InvalidInput ''semantic event capacity must be positive'')
      else Inr \<lparr>events = [], semantic_events = 0, semantic_capacity = capacity,
                producer_closed = False, receiver_closed = False\<rparr>)"

section \<open>Sending\<close>

datatype send_outcome = Sent | SendFailed io_error | Blocked

text \<open>The delivery at the back of the queue, when it reports progress.\<close>

definition back_progress :: "ui_event list \<Rightarrow> engine_delivery option" where
  "back_progress es =
     (if es = [] then None
      else case last es of
        Engine d \<Rightarrow> if is_progress_event (Engine d) then Some d else None
      | _ \<Rightarrow> None)"

text \<open>Replaces the progress delivery \<open>previous\<close> at the back by the next one.\<close>

definition coalesce ::
  "engine_delivery \<Rightarrow> engine_delivery \<Rightarrow> event_queue \<Rightarrow> send_outcome \<times> event_queue" where
  "coalesce previous next q =
     (case checked_add (event_sequence (dl_event previous)) 1 of
        None \<Rightarrow> (SendFailed (IoError InvalidData ''event sequence overflow''), q)
      | Some expected \<Rightarrow>
     if event_sequence (dl_event next) \<noteq> expected
     then (SendFailed (IoError InvalidData ''non-contiguous progress events cannot be coalesced''), q)
     else
     (case checked_add (skipped_progress_events previous) 1 of
        None \<Rightarrow> (SendFailed (IoError InvalidData ''coalesced progress overflow''), q)
      | Some skipped \<Rightarrow>
          (Sent, q\<lparr>events := butlast (events q) @
                              [Engine (next\<lparr>skipped_progress_events := skipped\<rparr>)]\<rparr>)))"

definition push_back :: "ui_event \<Rightarrow> event_queue \<Rightarrow> event_queue" where
  "push_back event q =
     (let q = (if is_progress_event event then q
               else q\<lparr>semantic_events := semantic_events q + 1\<rparr>)
      in q\<lparr>events := events q @ [event]\<rparr>)"

definition send :: "ui_event \<Rightarrow> event_queue \<Rightarrow> send_outcome \<times> event_queue" where
  "send event q =
     (if \<not> is_progress_event event \<and> semantic_events q \<ge> semantic_capacity q \<and> \<not> receiver_closed q
      then (Blocked, q)
      else if receiver_closed q
      then (SendFailed (IoError BrokenPipe ''engine event receiver closed''), q)
      else
        case (back_progress (events q), event) of
          (Some previous, Engine next) \<Rightarrow>
            if is_progress_event event then coalesce previous next q else (Sent, push_back event q)
        | _ \<Rightarrow> (Sent, push_back event q))"

definition send_engine_event :: "engine_event \<Rightarrow> event_queue \<Rightarrow> send_outcome \<times> event_queue" where
  "send_engine_event event q = send (Engine (exact event)) q"

definition send_driver_exited :: "string + unit \<Rightarrow> event_queue \<Rightarrow> send_outcome \<times> event_queue" where
  "send_driver_exited result q = send (DriverExited result) q"

definition drop_ingress :: "event_queue \<Rightarrow> event_queue" where
  "drop_ingress q = q\<lparr>producer_closed := True\<rparr>"

section \<open>Receiving\<close>

datatype receive_outcome = Ready ui_event | ReceiveFailed io_error | Pending

definition next_event :: "event_queue \<Rightarrow> receive_outcome \<times> event_queue" where
  "next_event q =
     (case events q of
        event # rest \<Rightarrow>
          let q = q\<lparr>events := rest\<rparr> in
          (Ready event,
           if is_progress_event event then q
           else q\<lparr>semantic_events := semantic_events q - 1\<rparr>)
      | [] \<Rightarrow>
          if producer_closed q
          then (ReceiveFailed (IoError BrokenPipe ''engine event source closed''), q)
          else (Pending, q))"

definition drop_stream :: "event_queue \<Rightarrow> event_queue" where
  "drop_stream q = q\<lparr>receiver_closed := True\<rparr>"

section \<open>The channel as a machine\<close>

datatype channel_op =
    SendEngine engine_event
  | SendExited "string + unit"
  | Receive
  | DropIngress
  | DropStream

text \<open>What an operation makes visible: an event taken into the queue, an event handed out, or
  nothing of either.\<close>

datatype channel_output = Took ui_event | Gave ui_event | Refused io_error | Waits

fun send_output :: "ui_event \<Rightarrow> send_outcome \<Rightarrow> channel_output" where
  "send_output e Sent = Took e"
| "send_output e (SendFailed err) = Refused err"
| "send_output e Blocked = Waits"

fun receive_output :: "receive_outcome \<Rightarrow> channel_output" where
  "receive_output (Ready e) = Gave e"
| "receive_output (ReceiveFailed err) = Refused err"
| "receive_output Pending = Waits"

fun channel_step :: "channel_op \<Rightarrow> event_queue \<Rightarrow> channel_output list \<times> event_queue" where
  "channel_step (SendEngine e) q =
     (let (out, q') = send_engine_event e q in ([send_output (Engine (exact e)) out], q'))"
| "channel_step (SendExited r) q =
     (let (out, q') = send_driver_exited r q in ([send_output (DriverExited r) out], q'))"
| "channel_step Receive q = (let (out, q') = next_event q in ([receive_output out], q'))"
| "channel_step DropIngress q = ([], drop_ingress q)"
| "channel_step DropStream q = ([], drop_stream q)"

end
