(* ===== verification/Event_Queue_Laws.thy ===== *)
theory Event_Queue_Laws
  imports Event_Queue Machine "HOL-Library.Sublist"
begin

text \<open>
  The contract of the event channel: what the receiver gets, followed by what is still queued, stands
  for exactly the events taken from the sender, in order, where a run of progress events may be
  replaced by its last one with the number of those it replaced. The queue stays within its bound.
\<close>

section \<open>A channel that compacts\<close>

text \<open>\<open>stands e bs\<close>: the handed-out event \<open>e\<close> stands for the block \<open>bs\<close> of sent events. A step may
  add one sent event at the end of what is queued and remove events at its front.\<close>

locale compacting_channel = invariant_machine step inv
  for step :: "'i \<Rightarrow> 's \<Rightarrow> 'o list \<times> 's" and inv :: "'s \<Rightarrow> bool" +
  fixes contents :: "'s \<Rightarrow> 'e list"
    and taken given :: "'o \<Rightarrow> 'e list"
    and stands :: "'e \<Rightarrow> 'e list \<Rightarrow> bool"
  assumes step_compacts:
    "inv s \<Longrightarrow> step i s = (out, s') \<Longrightarrow> list_all2 stands (contents s) bs \<Longrightarrow>
       \<exists>bs'. list_all2 stands (concat (map given out) @ contents s') bs' \<and>
             concat bs' = concat bs @ concat (map taken out)"
begin

lemma run_compacts:
  "inv s \<Longrightarrow> list_all2 stands (contents s) bs \<Longrightarrow>
     \<exists>bs'. list_all2 stands (concat (map given (fst (run step is s))) @ contents (snd (run step is s))) bs' \<and>
           concat bs' = concat bs @ concat (map taken (fst (run step is s)))"
proof (induction "is" arbitrary: s bs)
  case (Cons i "is")
  obtain out s' where st: "step i s = (out, s')" by fastforce
  let ?outs = "fst (run step is s')" and ?t = "snd (run step is s')"
  obtain bs1 where bs1: "list_all2 stands (concat (map given out) @ contents s') bs1"
      "concat bs1 = concat bs @ concat (map taken out)"
    using step_compacts [OF Cons.prems(1) st Cons.prems(2)] by blast
  from bs1(1) obtain g c where gc: "bs1 = g @ c" "list_all2 stands (concat (map given out)) g"
      "list_all2 stands (contents s') c"
    by (auto simp: list_all2_append1)
  obtain bs2 where bs2: "list_all2 stands (concat (map given ?outs) @ contents ?t) bs2"
      "concat bs2 = concat c @ concat (map taken ?outs)"
    using Cons.IH [OF keep [OF Cons.prems(1) st] gc(3)] by blast
  have "list_all2 stands (concat (map given (out @ ?outs)) @ contents ?t) (g @ bs2)"
    using gc(2) bs2(1) by (simp add: list_all2_appendI)
  moreover have "concat (g @ bs2) = concat bs @ concat (map taken (out @ ?outs))"
    using bs1(2) bs2(2) gc(1) by simp
  ultimately show ?case
    by (simp only: run_Cons_fst run_Cons_snd st fst_conv snd_conv) blast
qed auto

end

section \<open>Blocks of progress\<close>

definition engine_number :: "ui_event \<Rightarrow> nat" where
  "engine_number e = (case e of Engine d \<Rightarrow> unat (event_sequence (dl_event d)) | _ \<Rightarrow> 0)"

fun consecutive :: "nat list \<Rightarrow> bool" where
  "consecutive (a # b # xs) = (b = Suc a \<and> consecutive (b # xs))"
| "consecutive _ = True"

text \<open>An event stands for itself, or is the last of consecutive progress events and carries the
  number of the others.\<close>

definition stands_for :: "ui_event \<Rightarrow> ui_event list \<Rightarrow> bool" where
  "stands_for e bs \<longleftrightarrow> bs = [e] \<or>
     (\<exists>d. last bs = Engine (exact d) \<and> (\<forall>b \<in> set bs. is_progress_event b) \<and>
          consecutive (map engine_number bs) \<and>
          (\<exists>k. unat k + 1 = length bs \<and> e = Engine ((exact d)\<lparr>skipped_progress_events := k\<rparr>)))"

definition semantic_count :: "ui_event list \<Rightarrow> nat" where
  "semantic_count es = length (filter (\<lambda>e. \<not> is_progress_event e) es)"

fun runs_merged :: "ui_event list \<Rightarrow> bool" where
  "runs_merged (a # b # es) = (\<not> (is_progress_event a \<and> is_progress_event b) \<and> runs_merged (b # es))"
| "runs_merged _ = True"

definition queue_inv :: "event_queue \<Rightarrow> bool" where
  "queue_inv q \<longleftrightarrow>
     0 < unat (semantic_capacity q) \<and>
     unat (semantic_events q) = semantic_count (events q) \<and>
     semantic_count (events q) \<le> unat (semantic_capacity q) \<and>
     runs_merged (events q)"

lemma semantic_count_simps [simp]:
  "semantic_count [] = 0"
  "semantic_count (e # es) = (if is_progress_event e then 0 else 1) + semantic_count es"
  "semantic_count (es @ fs) = semantic_count es + semantic_count fs"
  by (simp_all add: semantic_count_def)

lemma runs_merged_tl: "runs_merged (e # es) \<Longrightarrow> runs_merged es"
  by (cases es) auto

lemma runs_merged_snoc:
  "runs_merged (es @ [e]) \<longleftrightarrow>
     runs_merged es \<and> (es \<noteq> [] \<longrightarrow> \<not> (is_progress_event (last es) \<and> is_progress_event e))"
  by (induction es rule: runs_merged.induct) auto

text \<open>Progress entries never stand side by side, so they are at most one more than the others.\<close>

lemma runs_merged_length:
  "runs_merged es \<Longrightarrow>
     length es \<le> 2 * semantic_count es + (if es \<noteq> [] \<and> is_progress_event (hd es) then 1 else 0)"
proof (induction es rule: runs_merged.induct)
  case (1 a b es)
  then show ?case by auto
qed auto

lemma back_progress_Some:
  "back_progress es = Some d \<longleftrightarrow> es \<noteq> [] \<and> last es = Engine d \<and> is_progress_event (last es)"
  by (cases "last es") (auto simp: back_progress_def)

lemma back_progress_None:
  "back_progress es = None \<longleftrightarrow> (es \<noteq> [] \<longrightarrow> \<not> is_progress_event (last es))"
  by (cases "last es") (auto simp: back_progress_def is_progress_event_def)

lemma is_progress_event_skipped [simp]:
  "is_progress_event (Engine (d\<lparr>skipped_progress_events := k\<rparr>)) = is_progress_event (Engine d)"
  by (simp add: is_progress_event_def)

text \<open>What a send does: it waits, fails, appends the event, or replaces the progress at the back.\<close>

lemma send_cases:
  assumes "send e q = (out, q')"
  obtains (unchanged) "out \<noteq> Sent" "q' = q"
  | (append) "out = Sent" "q' = push_back e q" "is_progress_event e \<longrightarrow> back_progress (events q) = None"
      "\<not> is_progress_event e \<longrightarrow> semantic_events q < semantic_capacity q"
  | (replace) p n k where "out = Sent" "is_progress_event e" "e = Engine n"
      "back_progress (events q) = Some p"
      "unat (event_sequence (dl_event n)) = Suc (unat (event_sequence (dl_event p)))"
      "unat k = Suc (unat (skipped_progress_events p))"
      "q' = q\<lparr>events := butlast (events q) @ [Engine (n\<lparr>skipped_progress_events := k\<rparr>)]\<rparr>"
proof (cases "out = Sent")
  case False
  with assms have "q' = q"
    by (auto simp: send_def coalesce_def split: if_splits option.splits ui_event.splits)
  with False show thesis by (rule unchanged)
next
  case True
  show thesis
  proof (cases "is_progress_event e")
    case prog: True
    then obtain n where n: "e = Engine n" by (auto simp: is_progress_event_def split: ui_event.splits)
    show thesis
    proof (cases "back_progress (events q)")
      case None
      with assms True prog show thesis
        by (intro append) (auto simp: send_def n split: if_splits)
    next
      case (Some p)
      with assms True prog have "coalesce p n q = (Sent, q')"
        by (auto simp: send_def n split: if_splits)
      then show thesis
        by (intro replace [OF True prog n Some])
          (auto simp: coalesce_def dest!: checked_add_SomeD split: option.splits if_splits)
    qed
  next
    case False
    with assms True show thesis
      by (intro append) (auto simp: send_def split: if_splits option.splits ui_event.splits)
  qed
qed

section \<open>The queue's invariant\<close>

lemma push_back_inv:
  assumes "queue_inv q" "is_progress_event e \<longrightarrow> back_progress (events q) = None"
    and "\<not> is_progress_event e \<longrightarrow> semantic_events q < semantic_capacity q"
  shows "queue_inv (push_back e q)"
proof (cases "is_progress_event e")
  case True
  with assms show ?thesis
    by (auto simp: queue_inv_def push_back_def Let_def runs_merged_snoc back_progress_None)
next
  case False
  with assms(3) have less: "unat (semantic_events q) < unat (semantic_capacity q)"
    by (simp add: word_less_nat_alt)
  then have "unat (semantic_events q + 1) = Suc (unat (semantic_events q))"
    using unat_less_2p [of "semantic_capacity q"] by (simp add: unat_word_ariths)
  with assms(1) less False show ?thesis
    by (simp add: queue_inv_def push_back_def Let_def runs_merged_snoc)
qed

lemma replace_back_inv:
  assumes "queue_inv q" "back_progress (events q) = Some p" "is_progress_event e"
  shows "queue_inv (q\<lparr>events := butlast (events q) @ [e]\<rparr>)"
proof -
  from assms(2) obtain es where "events q = es @ [Engine p]" "is_progress_event (Engine p)"
    by (metis append_butlast_last_id back_progress_Some)
  with assms(1,3) show ?thesis
    by (auto simp: queue_inv_def runs_merged_snoc)
qed

lemma send_inv: "send e q = (out, q') \<Longrightarrow> queue_inv q \<Longrightarrow> queue_inv q'"
  by (erule send_cases) (auto intro!: push_back_inv replace_back_inv)

lemma next_event_inv:
  assumes "next_event q = (out, q')" "queue_inv q"
  shows "queue_inv q'"
proof (cases "events q")
  case (Cons e es)
  have "unat (semantic_events q - 1) = unat (semantic_events q) - 1" if "\<not> is_progress_event e"
    using that assms(2) Cons by (intro unat_minus_one) (auto simp: queue_inv_def)
  with assms Cons show ?thesis
    by (auto simp: next_event_def queue_inv_def Let_def dest: runs_merged_tl split: if_splits)
qed (use assms in \<open>auto simp: next_event_def split: if_splits\<close>)

lemma channel_step_inv: "queue_inv q \<Longrightarrow> channel_step op q = (out, q') \<Longrightarrow> queue_inv q'"
proof (induction op q rule: channel_step.induct)
  case (1 e q)
  then show ?case by (auto simp: send_engine_event_def intro: send_inv split: prod.splits)
next
  case (2 r q)
  then show ?case by (auto simp: send_driver_exited_def intro: send_inv split: prod.splits)
next
  case (3 q)
  then show ?case by (auto intro: next_event_inv split: prod.splits)
qed (auto simp: drop_ingress_def drop_stream_def queue_inv_def)

section \<open>The queue compacts\<close>

fun taken :: "channel_output \<Rightarrow> ui_event list" where
  "taken (Took e) = [e]"
| "taken _ = []"

fun given :: "channel_output \<Rightarrow> ui_event list" where
  "given (Gave e) = [e]"
| "given _ = []"

lemma consecutive_snoc:
  "consecutive (xs @ [y]) \<longleftrightarrow> consecutive xs \<and> (xs \<noteq> [] \<longrightarrow> y = Suc (last xs))"
  by (induction xs rule: consecutive.induct) auto

lemma stands_for_nonempty: "stands_for e bs \<Longrightarrow> bs \<noteq> []"
  by (auto simp: stands_for_def)

lemma stands_for_extend:
  assumes "stands_for (Engine p) bs" "is_progress_event (Engine p)" "is_progress_event (Engine (exact n))"
    and "unat (event_sequence n) = Suc (unat (event_sequence (dl_event p)))"
    and "unat k = Suc (unat (skipped_progress_events p))"
    and single: "bs = [Engine p] \<Longrightarrow> skipped_progress_events p = 0"
  shows "stands_for (Engine ((exact n)\<lparr>skipped_progress_events := k\<rparr>)) (bs @ [Engine (exact n)])"
proof -
  have "consecutive (map engine_number bs) \<and> (\<forall>b \<in> set bs. is_progress_event b) \<and>
      unat (skipped_progress_events p) + 1 = length bs \<and>
      engine_number (last bs) = unat (event_sequence (dl_event p))"
    using assms(1) unfolding stands_for_def
  proof
    assume "bs = [Engine p]"
    with assms(2) single show ?thesis by (simp add: engine_number_def)
  next
    assume "\<exists>d. last bs = Engine (exact d) \<and> (\<forall>b \<in> set bs. is_progress_event b) \<and>
          consecutive (map engine_number bs) \<and>
          (\<exists>k. unat k + 1 = length bs \<and> Engine p = Engine ((exact d)\<lparr>skipped_progress_events := k\<rparr>))"
    then show ?thesis by (auto simp: engine_number_def exact_def)
  qed
  moreover from this have "bs \<noteq> []" by auto
  ultimately show ?thesis
    using assms(3-5)
    by (auto simp: stands_for_def consecutive_snoc last_map engine_number_def exact_def)
qed

text \<open>Sent events are exact, so an entry that stands for itself replaced nothing.\<close>

definition exact_event :: "ui_event \<Rightarrow> bool" where
  "exact_event e = (case e of Engine d \<Rightarrow> skipped_progress_events d = 0 | _ \<Rightarrow> True)"

definition block_of :: "ui_event \<Rightarrow> ui_event list \<Rightarrow> bool" where
  "block_of e bs \<longleftrightarrow> stands_for e bs \<and> list_all exact_event bs"

lemma send_compacts:
  assumes "send e q = (out, q')" "exact_event e" "list_all2 block_of (events q) bs"
  shows "\<exists>bs'. list_all2 block_of (events q') bs' \<and>
           concat bs' = concat bs @ (if out = Sent then [e] else [])"
  using assms(1)
proof (cases rule: send_cases)
  case append
  have "events q' = events q @ [e]"
    by (simp add: append(2) push_back_def Let_def)
  moreover have "block_of e [e]"
    using assms(2) by (simp add: block_of_def stands_for_def)
  ultimately show ?thesis
    using assms(3) append(1) by (intro exI [of _ "bs @ [[e]]"]) (simp add: list_all2_appendI)
next
  case (replace p n k)
  then have ev: "events q = butlast (events q) @ [Engine p]" "is_progress_event (Engine p)"
    by (metis append_butlast_last_id back_progress_Some)+
  obtain n' where n': "n = exact n'"
    using assms(2) replace(3) by (cases n) (auto simp: exact_event_def exact_def)
  from assms(3) ev(1) obtain bs0 b where bs: "bs = bs0 @ [b]"
      "list_all2 block_of (butlast (events q)) bs0" "block_of (Engine p) b"
    by (metis (no_types, lifting) list_all2_Cons1 list_all2_Nil list_all2_append1)
  have single: "skipped_progress_events p = 0" if "b = [Engine p]"
    using that bs(3) by (simp add: block_of_def exact_event_def)
  have "block_of (Engine (n\<lparr>skipped_progress_events := k\<rparr>)) (b @ [e])"
    using bs(3) stands_for_extend [OF _ _ _ _ _ single, where n = n' and k = k] ev(2) replace assms(2)
    by (auto simp: block_of_def n' exact_event_def exact_def)
  with bs(1,2) replace(1,7) show ?thesis
    by (intro exI [of _ "bs0 @ [b @ [e]]"]) (simp add: list_all2_appendI)
qed (use assms(3) in auto)

lemma next_event_compacts:
  assumes "next_event q = (out, q')"
  shows "events q = given (receive_output out) @ events q'"
  using assms by (auto simp: next_event_def Let_def split: list.splits if_splits)

lemma taken_send_output [simp]: "taken (send_output e out) = (if out = Sent then [e] else [])"
  by (cases out) simp_all

lemma given_send_output [simp]: "given (send_output e out) = []"
  by (cases out) simp_all

lemma taken_receive_output [simp]: "taken (receive_output out) = []"
  by (cases out) simp_all

lemma channel_step_compacts:
  assumes "channel_step op q = (out, q')" "list_all2 block_of (events q) bs"
  shows "\<exists>bs'. list_all2 block_of (concat (map given out) @ events q') bs' \<and>
           concat bs' = concat bs @ concat (map taken out)"
proof (cases op)
  case (SendEngine e)
  with assms(1) obtain o1 where o1: "send (Engine (exact e)) q = (o1, q')"
      "out = [send_output (Engine (exact e)) o1]"
    by (auto simp: send_engine_event_def split: prod.splits)
  from send_compacts [OF o1(1) _ assms(2)] show ?thesis
    by (cases "o1 = Sent") (simp_all add: o1(2) exact_event_def exact_def)
next
  case (SendExited r)
  with assms(1) obtain o1 where o1: "send (DriverExited r) q = (o1, q')"
      "out = [send_output (DriverExited r) o1]"
    by (auto simp: send_driver_exited_def split: prod.splits)
  from send_compacts [OF o1(1) _ assms(2)] show ?thesis
    by (simp add: o1(2) exact_event_def)
next
  case Receive
  with assms(1) obtain o1 where o1: "next_event q = (o1, q')" "out = [receive_output o1]"
    by (auto split: prod.splits)
  with next_event_compacts [OF o1(1)] assms(2) show ?thesis by auto
qed (use assms in \<open>auto simp: drop_ingress_def drop_stream_def\<close>)

interpretation chan: compacting_channel channel_step queue_inv events taken given block_of
  by unfold_locales (auto intro: channel_step_inv channel_step_compacts)

section \<open>Properties\<close>

lemma new_channel:
  "engine_event_channel capacity = Inr q \<longleftrightarrow>
     capacity \<noteq> 0 \<and> q = \<lparr>events = [], semantic_events = 0, semantic_capacity = capacity,
                           producer_closed = False, receiver_closed = False\<rparr>"
  by (auto simp: engine_event_channel_def)

lemma new_channel_inv: "engine_event_channel capacity = Inr q \<Longrightarrow> queue_inv q"
  by (auto simp: new_channel queue_inv_def unat_gt_0)

lemma channel_step_capacity: "channel_step op q = (out, q') \<Longrightarrow> semantic_capacity q' = semantic_capacity q"
  by (induction op q rule: channel_step.induct)
    (auto simp: send_engine_event_def send_driver_exited_def next_event_def drop_ingress_def
      drop_stream_def push_back_def Let_def elim!: send_cases split: prod.splits list.splits if_splits)

lemma run_capacity: "semantic_capacity (snd (run channel_step ops q)) = semantic_capacity q"
proof (induction ops arbitrary: q)
  case (Cons op ops)
  then show ?case
    using channel_step_capacity [OF prod.collapse [symmetric], of op q] by (simp add: run_Cons_snd del: run.simps)
qed simp

text \<open>C32: However sends and receives interleave, the queue never holds more than twice its semantic
  capacity plus one entry: the counter of semantic events is exact and within the capacity (so it
  neither overflows nor underflows), and no two progress entries stand side by side.\<close>

theorem queue_stays_bounded:
  assumes "engine_event_channel capacity = Inr q"
  shows "let q' = snd (run channel_step ops q) in
     unat (semantic_events q') = length (filter (\<lambda>e. \<not> is_progress_event e) (events q')) \<and>
     unat (semantic_events q') \<le> unat capacity \<and>
     length (events q') \<le> 2 * unat capacity + 1"
proof -
  let ?q = "snd (run channel_step ops q)"
  have inv: "queue_inv ?q"
    by (rule chan.run_keeps [OF new_channel_inv [OF assms]])
  have cap: "semantic_capacity ?q = capacity"
    using assms by (auto simp: run_capacity new_channel)
  have "length (events ?q) \<le> 2 * semantic_count (events ?q) + 1"
    using runs_merged_length [of "events ?q"] inv by (auto simp: queue_inv_def split: if_splits)
  with inv cap show ?thesis
    by (simp add: Let_def queue_inv_def semantic_count_def)
qed

theorem queue_stays_bounded_witness:
  "length (events (snd (run channel_step
     [SendExited (Inr ()), SendExited (Inr ()), Receive, SendExited (Inr ())]
     \<lparr>events = [], semantic_events = 0, semantic_capacity = 1, producer_closed = False,
      receiver_closed = False\<rparr>))) \<le> 3"
proof -
  have "engine_event_channel 1 = Inr \<lparr>events = [], semantic_events = 0, semantic_capacity = 1,
      producer_closed = False, receiver_closed = False\<rparr>"
    by (simp add: engine_event_channel_def)
  from queue_stays_bounded [OF this, of "[SendExited (Inr ()), SendExited (Inr ()), Receive,
      SendExited (Inr ())]"]
  show ?thesis by (simp add: Let_def del: run.simps)
qed

text \<open>C7: Whatever the interleaving of the two threads, the events handed out so far followed by the
  queued ones stand, one by one and in order, for the events taken from the driver cut into blocks:
  a block is a single event handed out as it was sent, or consecutive progress events of which the
  last is handed out with the exact count of the others. No event that is not progress is lost,
  repeated or moved.\<close>

theorem channel_loses_nothing:
  assumes "engine_event_channel capacity = Inr q"
  shows "let (outs, q') = run channel_step ops q in
     (\<exists>blocks. list_all2 block_of (concat (map given outs) @ events q') blocks \<and>
               concat blocks = concat (map taken outs))"
proof -
  have "list_all2 block_of (events q) []" using assms by (auto simp: new_channel)
  from chan.run_compacts [OF new_channel_inv [OF assms] this, of ops] show ?thesis
    by (auto split: prod.split)
qed

definition default_progress :: scan_progress where
  "default_progress = \<lparr>sp_profile = [], elapsed_millis = 0, sp_entries = 0, sp_directories = 0,
     sp_candidates = 0, allocated_bytes_observed = 0, reclaim_estimate_bytes = 0, complete_roots = 0,
     partial_roots = 0, entries_per_second = 0, current_root = [], structural_budget = 0\<rparr>"

definition progress_event :: "u64 \<Rightarrow> scan_progress \<Rightarrow> engine_event" where
  "progress_event n p = \<lparr>event_sequence = n, ev_request_id = 1, ev_body = Some (ScanProgress p)\<rparr>"

lemmas channel_eval =
  send_engine_event_def send_driver_exited_def send_def coalesce_def push_back_def next_event_def
  drop_ingress_def drop_stream_def back_progress_def checked_add_def exact_def
  is_progress_event_def engine_event_channel_def

theorem channel_loses_nothing_witness:
  "let ops = [SendEngine (progress_event 1 default_progress), SendEngine (progress_event 2 default_progress), Receive];
       q = \<lparr>events = [], semantic_events = 0, semantic_capacity = 1, producer_closed = False,
             receiver_closed = False\<rparr>;
       got = Engine \<lparr>dl_event = progress_event 2 default_progress, skipped_progress_events = 1\<rparr> in
   concat (map given (fst (run channel_step ops q))) = [got] \<and>
   (\<exists>blocks. list_all2 block_of [got] blocks \<and>
      concat blocks = [Engine (exact (progress_event 1 default_progress)), Engine (exact (progress_event 2 default_progress))])"
proof -
  have "engine_event_channel 1 = Inr \<lparr>events = [], semantic_events = 0, semantic_capacity = 1,
      producer_closed = False, receiver_closed = False\<rparr>"
    by (simp add: engine_event_channel_def)
  from channel_loses_nothing [OF this,
      of "[SendEngine (progress_event 1 default_progress), SendEngine (progress_event 2 default_progress), Receive]"]
  show ?thesis
    by (simp add: Let_def channel_eval progress_event_def)
qed

text \<open>A sender is made to wait only when it must be: progress is never blocked, any other event is
  blocked exactly while the semantic capacity is used up and the receiver is still there, and once a
  receive has handed out a semantic event the next send of any event goes through.\<close>

theorem send_blocks_only_when_full:
  assumes "queue_inv q"
  shows "(fst (send e q) = Blocked \<longleftrightarrow>
      \<not> is_progress_event e \<and> semantic_count (events q) = unat (semantic_capacity q) \<and> \<not> receiver_closed q) \<and>
    (\<forall>x q'. next_event q = (Ready x, q') \<longrightarrow> \<not> is_progress_event x \<longrightarrow> fst (send e q') \<noteq> Blocked)"
proof -
  have blocked: "fst (send e q) = Blocked \<longleftrightarrow> \<not> is_progress_event e \<and>
      semantic_count (events q) = unat (semantic_capacity q) \<and> \<not> receiver_closed q"
    if "queue_inv q" for q
    using that by (auto simp: send_def coalesce_def queue_inv_def word_le_nat_alt
        split: option.splits ui_event.splits)
  have "fst (send e q') \<noteq> Blocked" if "next_event q = (Ready x, q')" "\<not> is_progress_event x" for x q'
  proof -
    have "semantic_count (events q') < semantic_count (events q)" "semantic_capacity q' = semantic_capacity q"
      using that by (auto simp: next_event_def Let_def split: list.splits if_splits)
    with blocked [OF next_event_inv [OF that(1) assms]] assms show ?thesis
      by (auto simp: queue_inv_def)
  qed
  with blocked [OF assms] show ?thesis by blast
qed

theorem send_blocks_only_when_full_witness:
  "fst (send (DriverExited (Inr ()))
     \<lparr>events = [DriverExited (Inr ())], semantic_events = 1, semantic_capacity = 1,
      producer_closed = False, receiver_closed = False\<rparr>) = Blocked"
proof -
  have "queue_inv \<lparr>events = [DriverExited (Inr ())], semantic_events = 1, semantic_capacity = 1,
      producer_closed = False, receiver_closed = False\<rparr>"
    by (simp add: queue_inv_def is_progress_event_def)
  from send_blocks_only_when_full [OF this, of "DriverExited (Inr ())"] show ?thesis
    by (simp add: is_progress_event_def)
qed

end
