(* ===== verification/Driver.thy ===== *)
theory Driver
  imports Session_Laws Event_Queue_Laws
begin

text \<open>
  The engine driver, \<open>diskplan-cli/src/tui/driver.rs\<close>: the worker thread that owns the session,
  forwards the user interface's controls to the engine and the engine's events to the channel, and
  ends with a shutdown. The command queue and the channel are scripts of what the worker meets there.
\<close>

section \<open>Definitions\<close>

definition SEMANTIC_EVENT_CAPACITY :: usize where "SEMANTIC_EVENT_CAPACITY = 16"
definition EVENT_POLL_INTERVAL :: nat where "EVENT_POLL_INTERVAL = 50"

datatype driver_command = ControlDriver control_command | StopWorker

text \<open>What a \<open>try_recv\<close> on the command queue meets; the script's end is a closed queue.\<close>

datatype polled = GotCommand driver_command | QueueEmpty | QueueClosed

text \<open>The worker: its session, the outcomes of its next sends into the channel (the script's end is a
  channel that takes everything) and the events the channel has taken.\<close>

record 'w worker =
  wk_session :: "'w session"
  wk_ingress :: "(io_error + unit) list"
  wk_sent :: "engine_event list"

definition on_session :: "('w session, 'e, 'a) action \<Rightarrow> ('w worker, 'e, 'a) action" where
  "on_session m k = (let (r, s) = m (wk_session k) in (r, k\<lparr>wk_session := s\<rparr>))"

definition ingress_send :: "engine_event \<Rightarrow> ('w worker, io_error, unit) action" where
  "ingress_send event k =
     (let (r, rest) = (case wk_ingress k of [] \<Rightarrow> (Inr (), []) | r # rs \<Rightarrow> (r, rs)) in
      (r, k\<lparr>wk_ingress := rest, wk_sent := (if is_ok r then wk_sent k @ [event] else wk_sent k)\<rparr>))"

fun is_terminal_event :: "engine_body option \<Rightarrow> bool" where
  "is_terminal_event (Some (ScanCancelled _)) = True"
| "is_terminal_event (Some (ScanFinished _)) = True"
| "is_terminal_event (Some (EngineFailed _)) = True"
| "is_terminal_event _ = False"

definition shutdown_worker :: "'w worker \<Rightarrow> (failure + unit) \<times> 'w worker" where
  "shutdown_worker = on_session shutdown"

text \<open>An error returned by \<open>?\<close> drops the session.\<close>

definition fail_worker :: "failure \<Rightarrow> 'w worker \<Rightarrow> (failure + unit) \<times> 'w worker" where
  "fail_worker e k = (Inl e, k\<lparr>wk_session := drop_session (wk_session k)\<rparr>)"

text \<open>The two nested loops: commands until the queue is empty, then one event.\<close>

fun worker_loop :: "'w wire \<Rightarrow> polled list \<Rightarrow> 'w worker \<Rightarrow> (failure + unit) \<times> 'w worker" where
  "worker_loop wire [] k = shutdown_worker k"
| "worker_loop wire (QueueClosed # ps) k = shutdown_worker k"
| "worker_loop wire (GotCommand StopWorker # ps) k = shutdown_worker k"
| "worker_loop wire (GotCommand (ControlDriver control) # ps) k =
     (case on_session (send_scan_control wire (cc_request_id control) (cc_kind control)) k of
        (Inl e, k) \<Rightarrow> fail_worker e k
      | (Inr _, k) \<Rightarrow> worker_loop wire ps k)"
| "worker_loop wire (QueueEmpty # ps) k =
     (case on_session (read_engine_event_with_timeout wire EVENT_POLL_INTERVAL) k of
        (Inr event, k) \<Rightarrow>
          (case ingress_send event k of
             (Inl _, k) \<Rightarrow> shutdown_worker k
           | (Inr _, k) \<Rightarrow>
               if is_terminal_event (ev_body event) then shutdown_worker k
               else worker_loop wire ps k)
      | (Inl e, k) \<Rightarrow>
          (case e of
             Error (Timeout phase _) \<Rightarrow>
               if phase = ''engine event'' then worker_loop wire ps k else fail_worker e k
           | _ \<Rightarrow> fail_worker e k))"

text \<open>The worker's life, with the session that \<open>connect\<close> returned; its result, the events the channel
  has taken, and the operating system when the session is gone.\<close>

definition run_connected ::
  "'w wire \<Rightarrow> polled list \<Rightarrow> 'w worker \<Rightarrow> (failure + unit) \<times> 'w worker" where
  "run_connected wire commands k =
     (if \<not> list_ex (\<lambda>c. c = ''scan-control-v1'') (negotiated_capabilities (ses_accepted (wk_session k)))
      then fail_worker (Error MissingScanControlCapability) k
      else
        case on_session (send_start_scan wire 1 ''standard'') k of
          (Inl e, k) \<Rightarrow> fail_worker e k
        | (Inr _, k) \<Rightarrow> worker_loop wire commands k)"

definition run_engine ::
  "'w wire \<Rightarrow> io_error + u32 \<times> 'w \<times> recv_event list \<Rightarrow> os \<Rightarrow> (io_error + unit) list \<Rightarrow> polled list \<Rightarrow>
     (failure + unit) \<times> engine_event list \<times> os" where
  "run_engine wire spawned w ingress commands =
     (case connect wire spawned w of
        (Inl e, w) \<Rightarrow> (Inl e, [], w)
      | (Inr s, _) \<Rightarrow>
          let (r, k) = run_connected wire commands
                \<lparr>wk_session = s, wk_ingress = ingress, wk_sent = []\<rparr>
          in (r, wk_sent k, ses_os (wk_session k)))"

text \<open>The reaper thread and the engine were started and the reader thread cannot be: \<open>thread::spawn\<close>
  panics.\<close>

definition reader_fails :: "io_error + 'x \<Rightarrow> os \<Rightarrow> bool" where
  "reader_fails spawned w \<longleftrightarrow>
     is_ok (fst (spawn_reaper w)) \<and> is_ok spawned \<and> \<not> fst (start_reader (snd (spawn_reaper w)))"

text \<open>The frontend's end: the sender of the commands until it is taken, whether the worker still holds
  the queue at each of the next sends (the script's end is a worker that has dropped it, as
  \<open>run_engine\<close> does when it returns), and the commands that have reached the queue. The thread itself
  is joined by whoever drops the handle.\<close>

record driver_handle =
  has_commands :: bool
  worker_listens :: "bool list"
  delivered :: "driver_command list"

definition engine_driver_stopped :: io_error where
  "engine_driver_stopped = IoError BrokenPipe ''engine driver stopped''"

definition send_command :: "driver_command \<Rightarrow> (driver_handle, io_error, unit) action" where
  "send_command command h =
     (if \<not> has_commands h then (Inl engine_driver_stopped, h)
      else
        let (listens, rest) = (case worker_listens h of [] \<Rightarrow> (False, []) | b # bs \<Rightarrow> (b, bs));
            h = h\<lparr>worker_listens := rest\<rparr>
        in
        if listens then (Inr (), h\<lparr>delivered := delivered h @ [command]\<rparr>)
        else (Inl engine_driver_stopped, h))"

definition send_control :: "control_command \<Rightarrow> (driver_handle, io_error, unit) action" where
  "send_control control = send_command (ControlDriver control)"

definition request_stop :: "(driver_handle, io_error, unit) action" where
  "request_stop = send_command StopWorker"

section \<open>Reasoning about the loop\<close>

text \<open>What holds before every turn, and what holds of the result and the worker at every way out: a
  command that cannot be sent, a read that failed, an event the channel refuses, a stop.\<close>

lemma worker_loop_rule:
  assumes "P k"
    and sent: "\<And>k (control :: control_command) r k'. P k \<Longrightarrow>
      on_session (send_scan_control wire (cc_request_id control) (cc_kind control)) k = (r, k') \<Longrightarrow> P k'"
    and unread: "\<And>k e k'. P k \<Longrightarrow>
      on_session (read_engine_event_with_timeout wire EVENT_POLL_INTERVAL) k = (Inl e, k') \<Longrightarrow> P k'"
    and taken: "\<And>k event k1 k2. P k \<Longrightarrow>
      on_session (read_engine_event_with_timeout wire EVENT_POLL_INTERVAL) k = (Inr event, k1) \<Longrightarrow>
      ingress_send event k1 = (Inr (), k2) \<Longrightarrow> P k2"
    and refused: "\<And>k event k1 e k2. P k \<Longrightarrow>
      on_session (read_engine_event_with_timeout wire EVENT_POLL_INTERVAL) k = (Inr event, k1) \<Longrightarrow>
      ingress_send event k1 = (Inl e, k2) \<Longrightarrow> Q (shutdown_worker k2)"
    and unsent: "\<And>k (control :: control_command) e k'. P k \<Longrightarrow>
      on_session (send_scan_control wire (cc_request_id control) (cc_kind control)) k = (Inl e, k') \<Longrightarrow>
      P k' \<Longrightarrow> Q (fail_worker e k')"
    and failed: "\<And>k e k'. P k \<Longrightarrow>
      on_session (read_engine_event_with_timeout wire EVENT_POLL_INTERVAL) k = (Inl e, k') \<Longrightarrow>
      P k' \<Longrightarrow> Q (fail_worker e k')"
    and stopped: "\<And>k. P k \<Longrightarrow> Q (shutdown_worker k)"
  shows "Q (worker_loop wire ps k)"
  using assms(1)
proof (induction ps arbitrary: k)
  case (Cons p ps)
  consider (Command) control where "p = GotCommand (ControlDriver control)"
    | (End) "p = GotCommand StopWorker \<or> p = QueueClosed" | (Empty) "p = QueueEmpty"
    by (metis driver_command.exhaust polled.exhaust)
  then show ?case
  proof cases
    case Command
    obtain r k1 where k1: "on_session (send_scan_control wire (cc_request_id control) (cc_kind control)) k = (r, k1)"
      by fastforce
    note p1 = sent [OF Cons.prems k1]
    show ?thesis
      using k1 Command Cons.IH [OF p1] unsent [OF Cons.prems _ p1] by (auto split: sum.split)
  next
    case End
    with stopped [OF Cons.prems] show ?thesis by auto
  next
    case Empty
    obtain r k1 where k1: "on_session (read_engine_event_with_timeout wire EVENT_POLL_INTERVAL) k = (r, k1)"
      by fastforce
    show ?thesis
    proof (cases r)
      case (Inl e)
      note k1 = k1 [unfolded Inl] and p1 = unread [OF Cons.prems k1 [unfolded Inl]]
      from failed [OF Cons.prems k1 p1] Cons.IH [OF p1] k1 Empty show ?thesis
        by (auto split: failure.split client_error.split)
    next
      case (Inr event)
      note k1 = k1 [unfolded Inr]
      obtain q k2 where k2: "ingress_send event k1 = (q, k2)" by fastforce
      note go_on = taken [OF Cons.prems k1] and refused = refused [OF Cons.prems k1]
      show ?thesis
        using k1 k2 Empty go_on refused stopped [of k2] Cons.IH [of k2] by (auto split: sum.split)
    qed
  qed
qed (simp add: stopped)

section \<open>What the worker sends\<close>

text \<open>The numbers of the events sent so far are exactly those the session has read.\<close>

definition worker_inv :: "'w worker \<Rightarrow> bool" where
  "worker_inv k \<longleftrightarrow>
     (\<exists>n. map (\<lambda>event. unat (event_sequence event)) (wk_sent k) = [1 ..< n])"

definition worker_ready :: "'w worker \<Rightarrow> bool" where
  "worker_ready k \<longleftrightarrow>
     map (\<lambda>event. unat (event_sequence event)) (wk_sent k)
       = [1 ..< Suc (unat (ses_last_event (wk_session k)))]"

lemma on_session_eq:
  "on_session m k = (r, k') \<longleftrightarrow>
     (\<exists>s. m (wk_session k) = (r, s) \<and> k' = k\<lparr>wk_session := s\<rparr>)"
  by (auto simp: on_session_def Let_def split: prod.splits)

lemma write_envelope_last_event:
  "write_envelope wire e s = (r, s') \<Longrightarrow> ses_last_event s' = ses_last_event s"
  by (auto simp: write_envelope_def Let_def split: option.splits sum.splits)

lemma send_scan_control_last_event:
  "send_scan_control wire i c s = (r, s') \<Longrightarrow> ses_last_event s' = ses_last_event s"
  by (auto simp: send_scan_control_def split: if_splits dest: write_envelope_last_event)

lemma send_start_scan_last_event:
  "send_start_scan wire i p s = (r, s') \<Longrightarrow> ses_last_event s' = ses_last_event s"
  by (auto simp: send_start_scan_def split: if_splits dest: write_envelope_last_event)

lemma shutdown_worker_sent: "wk_sent (snd (shutdown_worker k)) = wk_sent k"
  by (auto simp: shutdown_worker_def on_session_def Let_def split: prod.splits)

lemma fail_worker_sent: "wk_sent (snd (fail_worker e k)) = wk_sent k"
  by (simp add: fail_worker_def)

lemma ready_inv: "worker_ready k \<Longrightarrow> worker_inv k"
  unfolding worker_inv_def worker_ready_def by blast

lemma worker_inv_cong: "wk_sent k = wk_sent k' \<Longrightarrow> worker_inv k = worker_inv k'"
  by (simp add: worker_inv_def)

lemma event_taken_ready:
  assumes "worker_ready k"
    and "on_session (read_engine_event_with_timeout wire EVENT_POLL_INTERVAL) k = (Inr event, k1)"
    and "ingress_send event k1 = (Inr (), k2)"
  shows "worker_ready k2"
proof -
  obtain s where s: "read_engine_event_with_timeout wire EVENT_POLL_INTERVAL (wk_session k) = (Inr event, s)"
      "k1 = k\<lparr>wk_session := s\<rparr>"
    using assms(2) by (auto simp: on_session_eq)
  moreover have "wk_sent k2 = wk_sent k @ [event]" "wk_session k2 = s"
    using assms(3) s(2) by (auto simp: ingress_send_def Let_def split: prod.splits if_splits)
  ultimately show ?thesis
    using read_engine_event_cases [OF s(1)] assms(1) by (auto simp: worker_ready_def)
qed

lemma worker_loop_sends:
  assumes "worker_ready k"
  shows "worker_inv (snd (worker_loop wire ps k))"
proof (rule worker_loop_rule [of worker_ready, OF assms])
  fix k e k1 and event :: engine_event
  assume ready: "worker_ready k"
    and "on_session (read_engine_event_with_timeout wire EVENT_POLL_INTERVAL) k = (Inl e, k1)"
  then obtain s where s: "read_engine_event_with_timeout wire EVENT_POLL_INTERVAL (wk_session k) = (Inl e, s)"
      "k1 = k\<lparr>wk_session := s\<rparr>"
    by (auto simp: on_session_eq)
  from read_engine_event_cases [OF s(1)] ready show "worker_ready k1"
    by (auto simp: s(2) worker_ready_def)
next
  fix k event k1 e k2
  assume "worker_ready k"
    "on_session (read_engine_event_with_timeout wire EVENT_POLL_INTERVAL) k = (Inr event, k1)"
    "ingress_send event k1 = (Inl e, k2)"
  then show "worker_inv (snd (shutdown_worker k2))"
    using ready_inv [of k]
    by (auto simp: on_session_eq ingress_send_def Let_def worker_inv_def shutdown_worker_sent split: prod.splits)
next
  fix k r k1 and control :: control_command
  assume "worker_ready k" "on_session (send_scan_control wire (cc_request_id control) (cc_kind control)) k = (r, k1)"
  then show "worker_ready k1"
    by (auto simp: on_session_eq worker_ready_def dest: send_scan_control_last_event)
qed (simp_all add: worker_inv_cong [OF shutdown_worker_sent] worker_inv_cong [OF fail_worker_sent] ready_inv
    event_taken_ready)

lemma run_connected_sends:
  assumes "worker_ready k"
  shows "worker_inv (snd (run_connected wire commands k))"
proof (cases "list_ex (\<lambda>c. c = ''scan-control-v1'') (negotiated_capabilities (ses_accepted (wk_session k)))")
  case False
  with ready_inv [OF assms] show ?thesis
    by (simp add: run_connected_def worker_inv_def fail_worker_sent)
next
  case True
  obtain r k1 where k1: "on_session (send_start_scan wire 1 ''standard'') k = (r, k1)" by fastforce
  then have ready: "worker_ready k1"
    using assms by (auto simp: on_session_eq worker_ready_def dest: send_start_scan_last_event)
  with True k1 ready_inv [OF ready] worker_loop_sends [OF ready] show ?thesis
    by (cases r) (simp_all add: run_connected_def worker_inv_cong [OF fail_worker_sent])
qed

lemma accept_handshake_last_event:
  "accept_handshake h q a s = (r, s') \<Longrightarrow> ses_last_event s' = ses_last_event s"
  by (auto simp: accept_handshake_def bindS_def map_errS_def child_mut_def
      split: option.splits sum.splits prod.splits dest: on_os_last_event)

lemma perform_handshake_last_event:
  "perform_handshake wire s = (r, s') \<Longrightarrow> ses_last_event s' = ses_last_event s"
  by (auto simp: perform_handshake_def read_envelope_def bindS_def
      split: sum.splits prod.splits option.splits envelope_body.splits if_splits
      dest!: write_envelope_last_event read_envelope_last_event accept_handshake_last_event)

lemma connect_last_event: "connect wire spawned w = (Inr s, w') \<Longrightarrow> ses_last_event s = 0"
  by (auto simp: connect_def connect_with_timeout_def spawn_command_def Let_def
      split: sum.splits prod.splits bool.splits dest: perform_handshake_last_event)

lemma connect_reader_fails:
  "reader_fails spawned w \<Longrightarrow> \<exists>w'. connect wire spawned w = (Inl (Panic ''failed to spawn thread''), w') \<and>
     actions w' = actions w @ [SpawnedReaper]"
  by (auto simp: reader_fails_def connect_def connect_with_timeout_def spawn_command_def spawn_reaper_def
      start_reader_def log_def Let_def split: sum.splits list.splits prod.splits bool.splits if_splits)

text \<open>Whatever the engine, the operating system, the channel and the user interface do, the events
  the driver has put into the channel are numbered 1, 2, 3 and so on without a gap.\<close>

theorem driver_sends_contiguous:
  "\<exists>n. map (\<lambda>event. unat (event_sequence event)) (fst (snd (run_engine wire spawned w ingress commands))) = [1 ..< n]"
proof -
  obtain c w' where c: "connect wire spawned w = (c, w')" by fastforce
  show ?thesis
  proof (cases c)
    case (Inl e)
    with c show ?thesis by (auto simp: run_engine_def intro: exI [of _ 1])
  next
    case (Inr s)
    let ?k = "\<lparr>wk_session = s, wk_ingress = ingress, wk_sent = []\<rparr>"
    have "worker_ready ?k"
      using connect_last_event [of wire spawned w s w'] c Inr by (simp add: worker_ready_def)
    then have "worker_inv (snd (run_connected wire commands ?k))"
      by (rule run_connected_sends)
    moreover have "fst (snd (run_engine wire spawned w ingress commands)) = wk_sent (snd (run_connected wire commands ?k))"
      using c Inr by (simp add: run_engine_def Let_def split: prod.split)
    ultimately show ?thesis by (simp add: worker_inv_def)
  qed
qed

section \<open>What the worker writes\<close>

text \<open>The envelope of a control.\<close>

definition control_envelope :: "control_command \<Rightarrow> envelope" where
  "control_envelope c = \<lparr>env_sequence = cc_request_id c,
     env_body = Some (BodyScanControlRequest
       \<lparr>scr_request_id = cc_request_id c, scr_control = control_as_i32 (cc_kind c)\<rparr>)\<rparr>"

text \<open>A control is written as one frame or not at all: with a pipe that takes everything, a
  control with a request id other than zero appends exactly the frame of its envelope to what the
  engine reads, and one with id zero is refused before anything is written.\<close>

theorem control_writes_one_frame:
  assumes "write_all wire = vec_write_all" "flush wire = vec_flush" "ses_stdin s = Some out"
    and "length (encode wire (control_envelope c)) \<le> MAX_FRAME_LENGTH"
  shows "send_scan_control wire (cc_request_id c) (cc_kind c) s =
    (if cc_request_id c = 0 then (Inl (Error InvalidRequestId), s)
     else (Inr (), s\<lparr>ses_stdin := Some (out @ frame_bytes (encode wire (control_envelope c)))\<rparr>))"
  using assms by (simp add: send_scan_control_def write_envelope_def control_envelope_def vec_write_frame)

theorem control_writes_one_frame_witness:
  "send_scan_control sample_wire 2 PauseScan sample_session =
     (Inr (), sample_session\<lparr>ses_stdin := Some [0, 0, 0, 1, 1]\<rparr>)"
proof -
  have "write_all sample_wire = vec_write_all" "flush sample_wire = vec_flush"
      "ses_stdin sample_session = Some []"
      "length (encode sample_wire (control_envelope \<lparr>cc_request_id = 2, cc_kind = PauseScan\<rparr>)) \<le> MAX_FRAME_LENGTH"
    by (simp_all add: sample_wire_def sample_session_def MAX_FRAME_LENGTH_def)
  from control_writes_one_frame [OF this] show ?thesis
    by (simp add: frame_bytes_def sample_wire_def word_to_be_def)
qed

end
