(* ===== verification/Reducer.thy ===== *)
theory Reducer
  imports Model Machine
begin

text \<open>
  The reducer of the terminal frontend, \<open>diskplan-cli/src/tui/reducer.rs\<close>: what a key, an engine
  event or the end of the driver does to the application state, and which effects it asks for.
  Every handler returns the effects and the new state.
\<close>

section \<open>Debug names in messages\<close>

fun control_debug :: "scan_control_kind \<Rightarrow> string" where
  "control_debug ControlUnspecified = ''Unspecified''"
| "control_debug StartScan = ''StartScan''"
| "control_debug PauseScan = ''PauseScan''"
| "control_debug ResumeScan = ''ResumeScan''"
| "control_debug PauseAndBuildProvisionalPlan = ''PauseAndBuildProvisionalPlan''"
| "control_debug CancelScan = ''CancelScan''"

fun scan_state_debug :: "scan_state \<Rightarrow> string" where
  "scan_state_debug StateUnspecified = ''Unspecified''"
| "scan_state_debug Idle = ''Idle''"
| "scan_state_debug Running = ''Running''"
| "scan_state_debug Paused = ''Paused''"
| "scan_state_debug BuildingProvisionalPlan = ''BuildingProvisionalPlan''"
| "scan_state_debug PlanReady = ''ProvisionalPlanReady''"
| "scan_state_debug Cancelling = ''Cancelling''"
| "scan_state_debug Cancelled = ''Cancelled''"
| "scan_state_debug Finished = ''Finished''"
| "scan_state_debug Failed = ''Failed''"

fun phase_debug :: "request_phase \<Rightarrow> string" where
  "phase_debug AwaitingStateConfirmation = ''AwaitingStateConfirmation''"
| "phase_debug AwaitingPlanReadyState = ''AwaitingPlanReadyState''"
| "phase_debug AwaitingPlanProjection = ''AwaitingPlanProjection''"
| "phase_debug AwaitingInvalidation = ''AwaitingInvalidation''"
| "phase_debug AwaitingResumeState = ''AwaitingResumeState''"
| "phase_debug AwaitingResumeProgress = ''AwaitingResumeProgress''"
| "phase_debug AwaitingCancelledState = ''AwaitingCancelledState''"
| "phase_debug AwaitingCancelledTerminal = ''AwaitingCancelledTerminal''"
| "phase_debug Steady = ''Steady''"

fun control_label :: "scan_control_kind \<Rightarrow> string" where
  "control_label StartScan = ''Start''"
| "control_label PauseScan = ''Pause''"
| "control_label ResumeScan = ''Resume''"
| "control_label PauseAndBuildProvisionalPlan = ''Provisional plan''"
| "control_label CancelScan = ''Cancel''"
| "control_label ControlUnspecified = ''Unknown control''"

section \<open>Failing and phase changes\<close>

definition fail_with :: "detail \<Rightarrow> app_state \<Rightarrow> app_state" where
  "fail_with d s =
     s\<lparr>scan_state := Failed, terminal := Some (TermFailed d), banner := Some d\<rparr>"

definition protocol_failure :: "detail \<Rightarrow> app_state \<Rightarrow> effect list \<times> app_state" where
  "protocol_failure d s = ([StopDriver], fail_with d s)"

definition invalid_origin_event ::
  "active_request \<Rightarrow> string \<Rightarrow> app_state \<Rightarrow> effect list \<times> app_state" where
  "invalid_origin_event origin event s =
     protocol_failure (Text (event @ '' is invalid for '' @ control_debug (ar_kind origin) @
       '' request '' @ show_u64 (ar_request_id origin) @ '' in '' @ phase_debug (ar_phase origin))) s"

definition set_active_phase :: "active_request \<Rightarrow> request_phase \<Rightarrow> app_state \<Rightarrow> app_state" where
  "set_active_phase origin phase s =
     s\<lparr>active_request :=
        Some \<lparr>ar_request_id = ar_request_id origin, ar_kind = ar_kind origin, ar_phase = phase\<rparr>\<rparr>"

section \<open>Keys\<close>

definition request_once :: "scan_control_kind \<Rightarrow> app_state \<Rightarrow> effect list \<times> app_state" where
  "request_once kind s =
     (if has_pending kind s \<or> (kind = CancelScan \<and> cancel_requested s) then ([], s)
      else
        case try_next_control kind s of
          (Inr command, s) \<Rightarrow>
            ([SendControl command],
             if kind = CancelScan
             then s\<lparr>cancel_requested := True,
                    banner := Some (Text (''Cancellation requested; waiting for the engine'' @ ellipsis))\<rparr>
             else s)
        | (Inl _, s) \<Rightarrow> protocol_failure (Text ''request ID space exhausted'') s)"

definition reduce_key ::
  "key_code \<Rightarrow> key_event_kind \<Rightarrow> app_state \<Rightarrow> effect list \<times> app_state" where
  "reduce_key code kind s =
     (if kind \<noteq> KeyPress \<or> terminal s \<noteq> None then ([], s)
      else if code = KeyChar (CHR ''?'') then ([], s\<lparr>help_visible := \<not> help_visible s\<rparr>)
      else if code = KeyChar (CHR ''/'') \<and> screen s = ScanScreen
        then ([], s\<lparr>help_visible := \<not> help_visible s\<rparr>)
      else if code = KeyChar (CHR ''q'') then request_once CancelScan s
      else if code = KeyChar (CHR '' '') \<and> screen s = ScanScreen then
        (if scan_state s = Running then request_once PauseScan s
         else if scan_state s = Paused then request_once ResumeScan s
         else ([], s))
      else if code = KeyChar (CHR ''p'') \<and> screen s = ScanScreen then
        (if scan_state s = Running \<or> scan_state s = Paused
         then request_once PauseAndBuildProvisionalPlan s
         else ([], s))
      else if code = KeyChar (CHR ''r'') \<and> (screen s = ProvisionalPlanScreen \<or> scan_state s = Paused)
        then request_once ResumeScan s
      else ([], s))"

section \<open>Acknowledgements\<close>

fun accepted_transition_is_valid ::
  "scan_control_kind \<Rightarrow> scan_state \<Rightarrow> scan_state \<Rightarrow> bool" where
  "accepted_transition_is_valid StartScan current resulting =
     (current = Idle \<and> resulting = Running)"
| "accepted_transition_is_valid PauseScan current resulting =
     (current = Running \<and> resulting = Paused)"
| "accepted_transition_is_valid ResumeScan current resulting =
     ((current = Paused \<or> current = PlanReady) \<and> resulting = Running)"
| "accepted_transition_is_valid PauseAndBuildProvisionalPlan current resulting =
     ((current = Running \<or> current = Paused) \<and> resulting = BuildingProvisionalPlan)"
| "accepted_transition_is_valid CancelScan current resulting =
     ((current = Running \<or> current = Paused \<or> current = BuildingProvisionalPlan \<or> current = PlanReady)
      \<and> resulting = Cancelling)"
| "accepted_transition_is_valid ControlUnspecified current resulting = False"

definition phase_after_ack :: "scan_control_kind \<Rightarrow> app_state \<Rightarrow> request_phase" where
  "phase_after_ack kind s =
     (if kind = ResumeScan \<and> provisional_plan s \<noteq> None then AwaitingInvalidation
      else if kind = ResumeScan then AwaitingResumeState
      else AwaitingStateConfirmation)"

definition reduce_control_accepted ::
  "u64 \<Rightarrow> control_accepted \<Rightarrow> app_state \<Rightarrow> effect list \<times> app_state" where
  "reduce_control_accepted request_id accepted s =
     (case find_pending request_id s of
        None \<Rightarrow> protocol_failure
          (Text (''engine acknowledged unknown request '' @ show_u64 request_id)) s
      | Some pending \<Rightarrow>
     if control_as_i32 (pc_kind pending) \<noteq> ca_control accepted
     then protocol_failure (Text (''engine acknowledged request '' @ show_u64 request_id @
            '' with a different control'')) s
     else
     (case scan_state_try_from (ca_resulting_state accepted) of
        None \<Rightarrow> protocol_failure (Text ''engine acknowledged an unknown scan state'') s
      | Some resulting_state \<Rightarrow>
     if resulting_state = StateUnspecified
     then protocol_failure (Text ''engine acknowledged an unspecified scan state'') s
     else if \<not> accepted_transition_is_valid (pc_kind pending) (scan_state s) resulting_state
     then protocol_failure (Text (''engine acknowledged '' @ control_debug (pc_kind pending) @
            '' with impossible transition '' @ scan_state_debug (scan_state s) @ '' -> '' @
            scan_state_debug resulting_state)) s
     else
       let phase = phase_after_ack (pc_kind pending) s;
           s = snd (take_pending request_id s)
       in ([], s\<lparr>active_request := Some \<lparr>ar_request_id = request_id, ar_kind = pc_kind pending,
                                       ar_phase = phase\<rparr>,
                scan_state := resulting_state,
                banner := Some (Text (control_label (pc_kind pending) @ '' acknowledged''))\<rparr>)))"

definition reduce_control_rejected ::
  "u64 \<Rightarrow> control_rejected \<Rightarrow> app_state \<Rightarrow> effect list \<times> app_state" where
  "reduce_control_rejected request_id rejected s =
     (case find_pending request_id s of
        None \<Rightarrow> protocol_failure
          (Text (''engine rejected unknown request '' @ show_u64 request_id)) s
      | Some pending \<Rightarrow>
     if cr_control rejected \<noteq> control_as_i32 (pc_kind pending)
     then protocol_failure (Text (''engine rejected request '' @ show_u64 request_id @
            '' with a different control'')) s
     else
     (case control_reject_code_try_from (cr_code rejected) of
        None \<Rightarrow> protocol_failure (Text ''engine returned an unknown rejection code'') s
      | Some code \<Rightarrow>
     if code = ControlRejectUnspecified
     then protocol_failure (Text ''engine returned an unspecified rejection code'') s
     else
     (case scan_state_try_from (cr_current_state rejected) of
        None \<Rightarrow> protocol_failure (Text ''engine rejected in an unknown scan state'') s
      | Some current_state \<Rightarrow>
     if current_state = StateUnspecified
     then protocol_failure (Text ''engine rejected in an unspecified scan state'') s
     else if current_state \<noteq> scan_state s
     then protocol_failure (Text (''engine rejected request '' @ show_u64 request_id @
            '' in a different scan state'')) s
     else
       let s = snd (take_pending request_id s);
           s = (if pc_kind pending = CancelScan then s\<lparr>cancel_requested := False\<rparr> else s)
       in ([], s\<lparr>banner := Some (Text (''control rejected: '' @ cr_detail rejected))\<rparr>))))"

section \<open>Events of the acknowledged request\<close>

text \<open>The table of state changes a request may report, by its kind, its phase, the state before and
  the state reported.\<close>

definition phase_after_state_change ::
  "scan_control_kind \<Rightarrow> request_phase \<Rightarrow> scan_state \<Rightarrow> scan_state \<Rightarrow> request_phase option" where
  "phase_after_state_change kind phase current next =
     (if (kind, phase, current, next) = (StartScan, AwaitingStateConfirmation, Running, Running)
       \<or> (kind, phase, current, next) = (PauseScan, AwaitingStateConfirmation, Paused, Paused)
      then Some Steady
      else if (kind, phase, current, next) =
        (PauseAndBuildProvisionalPlan, AwaitingStateConfirmation, BuildingProvisionalPlan,
         BuildingProvisionalPlan)
      then Some AwaitingPlanReadyState
      else if (kind, phase, current, next) =
        (PauseAndBuildProvisionalPlan, AwaitingPlanReadyState, BuildingProvisionalPlan, PlanReady)
      then Some AwaitingPlanProjection
      else if (kind, phase, current, next) = (ResumeScan, AwaitingResumeState, Running, Running)
      then Some AwaitingResumeProgress
      else if (kind, phase, current, next) =
        (CancelScan, AwaitingStateConfirmation, Cancelling, Cancelling)
      then Some AwaitingCancelledState
      else if (kind, phase, current, next) =
        (CancelScan, AwaitingCancelledState, Cancelling, Cancelled)
      then Some AwaitingCancelledTerminal
      else None)"

definition reduce_scan_state_changed ::
  "active_request \<Rightarrow> scan_state_changed \<Rightarrow> app_state \<Rightarrow> effect list \<times> app_state" where
  "reduce_scan_state_changed origin changed s =
     (case scan_state_try_from (sc_state changed) of
        None \<Rightarrow> protocol_failure (Text ''engine reported an unknown scan state'') s
      | Some next \<Rightarrow>
     if next = StateUnspecified
     then protocol_failure (Text ''engine reported an unspecified scan state'') s
     else
     (case phase_after_state_change (ar_kind origin) (ar_phase origin) (scan_state s) next of
        None \<Rightarrow> protocol_failure (Text (''state change '' @ scan_state_debug (scan_state s) @ '' -> '' @
          scan_state_debug next @ '' is invalid for '' @ control_debug (ar_kind origin) @ '' in '' @
          phase_debug (ar_phase origin))) s
      | Some next_phase \<Rightarrow>
          ([], set_active_phase origin next_phase
                 (s\<lparr>scan_state := next, banner := Some (Text (sc_reason changed))\<rparr>))))"

definition reduce_scan_progress ::
  "active_request \<Rightarrow> scan_progress \<Rightarrow> app_state \<Rightarrow> effect list \<times> app_state" where
  "reduce_scan_progress origin p s =
     (if \<not> (scan_state s = Running \<and>
            ((ar_kind origin = StartScan \<and> ar_phase origin = Steady) \<or>
             (ar_kind origin = ResumeScan \<and>
              (ar_phase origin = AwaitingResumeProgress \<or> ar_phase origin = Steady))))
      then invalid_origin_event origin ''ScanProgress'' s
      else ([], set_active_phase origin Steady (s\<lparr>progress := Some p\<rparr>)))"

definition reduce_plan_ready ::
  "active_request \<Rightarrow> provisional_plan \<Rightarrow> app_state \<Rightarrow> effect list \<times> app_state" where
  "reduce_plan_ready origin plan s =
     (if ar_kind origin \<noteq> PauseAndBuildProvisionalPlan
       \<or> ar_phase origin \<noteq> AwaitingPlanProjection
       \<or> scan_state s \<noteq> PlanReady
       \<or> provisional_plan s \<noteq> None
       \<or> plan_id plan = []
      then invalid_origin_event origin ''ProvisionalPlanReady'' s
      else ([], set_active_phase origin Steady
                  (s\<lparr>provisional_plan := Some plan, screen := ProvisionalPlanScreen,
                     help_visible := False\<rparr>)))"

definition reduce_plan_invalidated ::
  "active_request \<Rightarrow> plan_invalidated \<Rightarrow> app_state \<Rightarrow> effect list \<times> app_state" where
  "reduce_plan_invalidated origin invalidated s =
     (case provisional_plan s of
        None \<Rightarrow> protocol_failure (Text ''engine invalidated an unknown plan'') s
      | Some current_plan \<Rightarrow>
     if ar_kind origin \<noteq> ResumeScan
       \<or> ar_phase origin \<noteq> AwaitingInvalidation
       \<or> previous_plan_id invalidated \<noteq> plan_id current_plan
     then protocol_failure
       (PlanInvalidationMismatch (previous_plan_id invalidated) (plan_id current_plan)) s
     else ([], set_active_phase origin AwaitingResumeState
                 (s\<lparr>provisional_plan := None, screen := ScanScreen, help_visible := False\<rparr>)))"

definition reduce_scan_cancelled ::
  "active_request \<Rightarrow> scan_cancelled \<Rightarrow> app_state \<Rightarrow> effect list \<times> app_state" where
  "reduce_scan_cancelled origin c s =
     (if ar_kind origin \<noteq> CancelScan
       \<or> ar_phase origin \<noteq> AwaitingCancelledTerminal
       \<or> scan_state s \<noteq> Cancelled
      then invalid_origin_event origin ''ScanCancelled'' s
      else ([], s\<lparr>terminal := Some (TermCancelled (cancel_reason c))\<rparr>))"

definition reduce_scan_finished ::
  "active_request \<Rightarrow> scan_finished \<Rightarrow> app_state \<Rightarrow> effect list \<times> app_state" where
  "reduce_scan_finished origin f s =
     (if \<not> (ar_kind origin = StartScan \<or> ar_kind origin = ResumeScan)
       \<or> ar_phase origin \<noteq> Steady
       \<or> scan_state s \<noteq> Running
      then invalid_origin_event origin ''ScanFinished'' s
      else ([], s\<lparr>scan_state := Finished, terminal := Some (TermFinished (finish_summary f))\<rparr>))"

definition reduce_engine_failed :: "engine_failed \<Rightarrow> app_state \<Rightarrow> effect list \<times> app_state" where
  "reduce_engine_failed failed s =
     ([], s\<lparr>scan_state := Failed,
            terminal := Some (TermFailed (Text (ef_code failed @ '': '' @ ef_detail failed)))\<rparr>)"

fun reduce_origin_event ::
  "active_request \<Rightarrow> engine_body \<Rightarrow> app_state \<Rightarrow> effect list \<times> app_state" where
  "reduce_origin_event origin (ScanStateChanged changed) s = reduce_scan_state_changed origin changed s"
| "reduce_origin_event origin (ScanProgress p) s = reduce_scan_progress origin p s"
| "reduce_origin_event origin (ProvisionalPlanReady plan) s = reduce_plan_ready origin plan s"
| "reduce_origin_event origin (ProvisionalPlanInvalidated i) s = reduce_plan_invalidated origin i s"
| "reduce_origin_event origin (ScanCancelled c) s = reduce_scan_cancelled origin c s"
| "reduce_origin_event origin (ScanFinished f) s = reduce_scan_finished origin f s"
| "reduce_origin_event origin (EngineFailed f) s = reduce_engine_failed f s"
| "reduce_origin_event origin (ControlAccepted _) s =
     protocol_failure (Text ''ack event bypassed acknowledgement validation'') s"
| "reduce_origin_event origin (ControlRejected _) s =
     protocol_failure (Text ''ack event bypassed acknowledgement validation'') s"

section \<open>Engine events\<close>

fun is_scan_progress :: "engine_body option \<Rightarrow> bool" where
  "is_scan_progress (Some (ScanProgress _)) = True"
| "is_scan_progress _ = False"

text \<open>The sequence number a delivery must carry: the next one after the last, plus the coalesced
  progress events it stands for.\<close>

definition accepted_sequence :: "u64 \<Rightarrow> u64 \<Rightarrow> string + u64" where
  "accepted_sequence last_sequence skipped =
     (case checked_add last_sequence 1 of
        None \<Rightarrow> Inl ''event sequence space exhausted''
      | Some expected \<Rightarrow>
     (case checked_add expected skipped of
        None \<Rightarrow> Inl ''coalesced event sequence overflow''
      | Some sequence \<Rightarrow> Inr sequence))"

text \<open>The non-acknowledgement arm: the event belongs to the one acknowledged request.\<close>

definition reduce_other_event ::
  "u64 \<Rightarrow> engine_body \<Rightarrow> app_state \<Rightarrow> effect list \<times> app_state" where
  "reduce_other_event request_id body s =
     (if request_id = 0
      then protocol_failure (Text ''non-ack event has zero request_id'') s
      else
     (case active_request s of
        None \<Rightarrow> protocol_failure (Text (''event for request '' @ show_u64 request_id @
          '' has no acknowledged origin'')) s
      | Some origin \<Rightarrow>
     if ar_request_id origin \<noteq> request_id
     then protocol_failure (Text (''event request '' @ show_u64 request_id @
            '' does not match active origin '' @ show_u64 (ar_request_id origin))) s
     else reduce_origin_event origin body s))"

fun reduce_body :: "u64 \<Rightarrow> engine_body option \<Rightarrow> app_state \<Rightarrow> effect list \<times> app_state" where
  "reduce_body request_id (Some (ControlAccepted accepted)) s =
     reduce_control_accepted request_id accepted s"
| "reduce_body request_id (Some (ControlRejected rejected)) s =
     reduce_control_rejected request_id rejected s"
| "reduce_body request_id (Some body) s = reduce_other_event request_id body s"
| "reduce_body request_id None s = protocol_failure (Text ''engine emitted an empty event'') s"

definition reduce_engine_event :: "engine_delivery \<Rightarrow> app_state \<Rightarrow> effect list \<times> app_state" where
  "reduce_engine_event delivery s =
     (let event = dl_event delivery in
      case accepted_sequence (last_event_sequence s) (skipped_progress_events delivery) of
        Inl message \<Rightarrow> protocol_failure (Text message) s
      | Inr sequence \<Rightarrow>
     if skipped_progress_events delivery > 0 \<and> \<not> is_scan_progress (ev_body event)
     then protocol_failure (Text ''non-progress event claimed a coalesced progress gap'') s
     else if event_sequence event \<noteq> sequence
     then protocol_failure (Text (''event sequence mismatch: expected '' @ show_u64 sequence @
            '', received '' @ show_u64 (event_sequence event))) s
     else reduce_body (ev_request_id event) (ev_body event)
            (s\<lparr>last_event_sequence := event_sequence event\<rparr>))"

section \<open>The reducer\<close>

fun reduce :: "ui_event \<Rightarrow> app_state \<Rightarrow> effect list \<times> app_state" where
  "reduce (Key code kind) s = reduce_key code kind s"
| "reduce Resize s = ([], s)"
| "reduce (Engine delivery) s =
     (if terminal s = None then reduce_engine_event delivery s else ([], s))"
| "reduce (DriverExited result) s =
     (let s = s\<lparr>driver_exited := True\<rparr> in
      case result of
        Inl detail \<Rightarrow> ([], fail_with (Text detail) s)
      | Inr _ \<Rightarrow>
          if terminal s = None
          then ([], fail_with (Text ''engine exited before a terminal scan event'') s)
          else ([], s))"

end
