(* ===== verification/Reducer_Spec.thy ===== *)
theory Reducer_Spec
  imports Reducer
begin

text \<open>
  The contract of the reducer. \<open>engine_step\<close> has one rule per event the engine may send in a
  given state and what it does; the handlers compute exactly this relation and fail closed on
  every other event. \<open>app_inv\<close> is what holds in every state the frontend can reach.
\<close>

section \<open>Steps the engine may take\<close>

inductive engine_step :: "u64 \<Rightarrow> engine_body \<Rightarrow> app_state \<Rightarrow> app_state \<Rightarrow> bool" where
  acknowledge:
    "find_pending i s = Some p \<Longrightarrow> ca_control a = control_as_i32 (pc_kind p) \<Longrightarrow>
     ca_resulting_state a = scan_state_as_i32 r \<Longrightarrow>
     accepted_transition_is_valid (pc_kind p) (scan_state s) r \<Longrightarrow>
     engine_step i (ControlAccepted a) s
       (s\<lparr>pending_controls := remove_pending i (pending_controls s),
          active_request := Some \<lparr>ar_request_id = i, ar_kind = pc_kind p,
                                  ar_phase = phase_after_ack (pc_kind p) s\<rparr>,
          scan_state := r,
          banner := Some (Text (control_label (pc_kind p) @ '' acknowledged''))\<rparr>)"
| refuse:
    "find_pending i s = Some p \<Longrightarrow> cr_control x = control_as_i32 (pc_kind p) \<Longrightarrow>
     cr_code x = control_reject_code_as_i32 c \<Longrightarrow> c \<noteq> ControlRejectUnspecified \<Longrightarrow>
     cr_current_state x = scan_state_as_i32 (scan_state s) \<Longrightarrow> scan_state s \<noteq> StateUnspecified \<Longrightarrow>
     engine_step i (ControlRejected x) s
       (s\<lparr>pending_controls := remove_pending i (pending_controls s),
          cancel_requested := (pc_kind p \<noteq> CancelScan \<and> cancel_requested s),
          banner := Some (Text (''control rejected: '' @ cr_detail x))\<rparr>)"
| change_state:
    "i \<noteq> 0 \<Longrightarrow> active_request s = Some origin \<Longrightarrow> ar_request_id origin = i \<Longrightarrow>
     sc_state c = scan_state_as_i32 r \<Longrightarrow>
     phase_after_state_change (ar_kind origin) (ar_phase origin) (scan_state s) r = Some ph \<Longrightarrow>
     engine_step i (ScanStateChanged c) s
       (set_active_phase origin ph (s\<lparr>scan_state := r, banner := Some (Text (sc_reason c))\<rparr>))"
| report_progress:
    "i \<noteq> 0 \<Longrightarrow> active_request s = Some origin \<Longrightarrow> ar_request_id origin = i \<Longrightarrow>
     scan_state s = Running \<Longrightarrow>
     (ar_kind origin = StartScan \<and> ar_phase origin = Steady)
       \<or> (ar_kind origin = ResumeScan \<and> ar_phase origin \<in> {AwaitingResumeProgress, Steady}) \<Longrightarrow>
     engine_step i (ScanProgress pr) s (set_active_phase origin Steady (s\<lparr>progress := Some pr\<rparr>))"
| show_plan:
    "i \<noteq> 0 \<Longrightarrow> active_request s = Some origin \<Longrightarrow> ar_request_id origin = i \<Longrightarrow>
     ar_kind origin = PauseAndBuildProvisionalPlan \<Longrightarrow> ar_phase origin = AwaitingPlanProjection \<Longrightarrow>
     scan_state s = PlanReady \<Longrightarrow> provisional_plan s = None \<Longrightarrow> plan_id plan \<noteq> [] \<Longrightarrow>
     engine_step i (ProvisionalPlanReady plan) s
       (set_active_phase origin Steady
         (s\<lparr>provisional_plan := Some plan, screen := ProvisionalPlanScreen, help_visible := False\<rparr>))"
| invalidate_plan:
    "i \<noteq> 0 \<Longrightarrow> active_request s = Some origin \<Longrightarrow> ar_request_id origin = i \<Longrightarrow>
     ar_kind origin = ResumeScan \<Longrightarrow> ar_phase origin = AwaitingInvalidation \<Longrightarrow>
     provisional_plan s = Some plan \<Longrightarrow> previous_plan_id iv = plan_id plan \<Longrightarrow>
     engine_step i (ProvisionalPlanInvalidated iv) s
       (set_active_phase origin AwaitingResumeState
         (s\<lparr>provisional_plan := None, screen := ScanScreen, help_visible := False\<rparr>))"
| cancelled:
    "i \<noteq> 0 \<Longrightarrow> active_request s = Some origin \<Longrightarrow> ar_request_id origin = i \<Longrightarrow>
     ar_kind origin = CancelScan \<Longrightarrow> ar_phase origin = AwaitingCancelledTerminal \<Longrightarrow>
     scan_state s = Cancelled \<Longrightarrow>
     engine_step i (ScanCancelled cn) s (s\<lparr>terminal := Some (TermCancelled (cancel_reason cn))\<rparr>)"
| finished:
    "i \<noteq> 0 \<Longrightarrow> active_request s = Some origin \<Longrightarrow> ar_request_id origin = i \<Longrightarrow>
     ar_kind origin \<in> {StartScan, ResumeScan} \<Longrightarrow> ar_phase origin = Steady \<Longrightarrow>
     scan_state s = Running \<Longrightarrow>
     engine_step i (ScanFinished f) s
       (s\<lparr>scan_state := Finished, terminal := Some (TermFinished (finish_summary f))\<rparr>)"
| engine_failed:
    "i \<noteq> 0 \<Longrightarrow> active_request s = Some origin \<Longrightarrow> ar_request_id origin = i \<Longrightarrow>
     engine_step i (EngineFailed ef) s
       (s\<lparr>scan_state := Failed,
          terminal := Some (TermFailed (Text (ef_code ef @ '': '' @ ef_detail ef)))\<rparr>)"

lemmas handler_defs =
  reduce_control_accepted_def reduce_control_rejected_def reduce_other_event_def
  reduce_scan_state_changed_def reduce_scan_progress_def reduce_plan_ready_def
  reduce_plan_invalidated_def reduce_scan_cancelled_def reduce_scan_finished_def
  reduce_engine_failed_def invalid_origin_event_def

lemma accepted_transition_specified:
  "accepted_transition_is_valid k c r \<Longrightarrow> r \<noteq> StateUnspecified"
  by (cases k) auto

lemma phase_after_state_change_specified:
  "phase_after_state_change k p c r = Some ph \<Longrightarrow> r \<noteq> StateUnspecified"
  by (auto simp: phase_after_state_change_def split: if_splits)

text \<open>Every step of the contract is what the handlers do \<open>\<dots>\<close>\<close>

lemma engine_step_reduce: "engine_step i body s s' \<Longrightarrow> reduce_body i (Some body) s = ([], s')"
proof (induction rule: engine_step.induct)
  case (acknowledge i s p a r)
  then show ?case
    by (simp add: reduce_control_accepted_def accepted_transition_specified snd_take_pending_Some)
next
  case (refuse i s p x c)
  then show ?case
    by (cases "pc_kind p = CancelScan")
      (simp_all add: reduce_control_rejected_def snd_take_pending_Some Let_def)
next
  case (change_state i s origin c r ph)
  then show ?case
    by (simp add: handler_defs phase_after_state_change_specified)
qed (auto simp: handler_defs)

text \<open>\<open>\<dots>\<close> and everything else the handlers do is to fail.\<close>

lemma reduce_control_accepted_cases:
  assumes "reduce_control_accepted i a s = (fx, s')"
  shows "fx = [] \<and> engine_step i (ControlAccepted a) s s'
    \<or> fx = [StopDriver] \<and> (\<exists>d. s' = fail_with d s)"
proof (cases "fx = []")
  case True
  with assms obtain p r where "find_pending i s = Some p" "ca_control a = control_as_i32 (pc_kind p)"
      "ca_resulting_state a = scan_state_as_i32 r"
      "accepted_transition_is_valid (pc_kind p) (scan_state s) r"
    by (auto simp: reduce_control_accepted_def protocol_failure_def scan_state_try_from_iff
        split: option.splits if_splits)
  from engine_step.acknowledge [OF this] engine_step_reduce [OF engine_step.acknowledge [OF this]]
    assms True
  show ?thesis by simp
next
  case False
  with assms show ?thesis
    by (auto simp: reduce_control_accepted_def protocol_failure_def split: option.splits if_splits)
qed

lemma reduce_control_rejected_cases:
  assumes "reduce_control_rejected i x s = (fx, s')"
  shows "fx = [] \<and> engine_step i (ControlRejected x) s s'
    \<or> fx = [StopDriver] \<and> (\<exists>d. s' = fail_with d s)"
proof (cases "fx = []")
  case True
  with assms obtain p c where "find_pending i s = Some p" "cr_control x = control_as_i32 (pc_kind p)"
      "cr_code x = control_reject_code_as_i32 c" "c \<noteq> ControlRejectUnspecified"
      "cr_current_state x = scan_state_as_i32 (scan_state s)" "scan_state s \<noteq> StateUnspecified"
    by (auto simp: reduce_control_rejected_def protocol_failure_def scan_state_try_from_iff
        control_reject_code_try_from_iff split: option.splits if_splits)
  from engine_step.refuse [OF this] engine_step_reduce [OF engine_step.refuse [OF this]]
    assms True
  show ?thesis by simp
next
  case False
  with assms show ?thesis
    by (auto simp: reduce_control_rejected_def protocol_failure_def Let_def split: option.splits if_splits)
qed

lemma reduce_origin_event_cases:
  assumes "reduce_origin_event origin body s = (fx, s')"
    and "i \<noteq> 0" "active_request s = Some origin" "ar_request_id origin = i"
  shows "fx = [] \<and> engine_step i body s s' \<or> fx = [StopDriver] \<and> (\<exists>d. s' = fail_with d s)"
proof (cases body)
  case (EngineFailed ef)
  then show ?thesis
    using engine_step.engine_failed [OF assms(2-4), of ef] assms(1)
    by (simp add: reduce_engine_failed_def)
qed (use assms in \<open>auto simp: handler_defs protocol_failure_def scan_state_try_from_iff
      split: option.splits if_splits intro: engine_step.intros\<close>)

lemma reduce_other_event_cases:
  assumes "reduce_other_event i body s = (fx, s')"
  shows "fx = [] \<and> engine_step i body s s' \<or> fx = [StopDriver] \<and> (\<exists>d. s' = fail_with d s)"
  using assms reduce_origin_event_cases [of _ body s fx s' i]
  by (auto simp: reduce_other_event_def protocol_failure_def split: option.splits if_splits)

lemma reduce_body_cases:
  assumes "reduce_body i b s = (fx, s')"
  shows "fx = [] \<and> (\<exists>body. b = Some body \<and> engine_step i body s s')
    \<or> fx = [StopDriver] \<and> (\<exists>d. s' = fail_with d s)"
proof (cases b)
  case None
  with assms show ?thesis by (auto simp: protocol_failure_def)
next
  case (Some body)
  with assms show ?thesis
    using reduce_control_accepted_cases reduce_control_rejected_cases reduce_other_event_cases
    by (cases body) auto
qed

end
