(* ===== verification/Reducer_Inv.thy ===== *)
theory Reducer_Inv
  imports Reducer_Spec
begin

text \<open>
  What holds in every state the frontend can reach: the request ids, the pending controls, the
  cancellation flag, the life cycle of the acknowledged request, the shown screen and the outcome
  fit together.
\<close>

section \<open>The invariant\<close>

definition ids_inv :: "app_state \<Rightarrow> bool" where
  "ids_inv s \<longleftrightarrow>
     0 < unat (next_request_id s) \<and> distinct (pending_ids (pending_controls s)) \<and>
     (\<forall>p \<in> set (pending_controls s).
        0 < unat (pc_request_id p) \<and> unat (pc_request_id p) < unat (next_request_id s)) \<and>
     (\<forall>a. active_request s = Some a \<longrightarrow>
        0 < unat (ar_request_id a) \<and> unat (ar_request_id a) < unat (next_request_id s) \<and>
        ar_request_id a \<notin> set (pending_ids (pending_controls s)))"

definition active_kind :: "app_state \<Rightarrow> scan_control_kind option" where
  "active_kind s = map_option ar_kind (active_request s)"

abbreviation pending_kinds :: "app_state \<Rightarrow> scan_control_kind list" where
  "pending_kinds s \<equiv> map pc_kind (pending_controls s)"

definition controls_inv :: "app_state \<Rightarrow> bool" where
  "controls_inv s \<longleftrightarrow>
     distinct (pending_kinds s) \<and> ControlUnspecified \<notin> set (pending_kinds s) \<and>
     active_kind s \<noteq> Some ControlUnspecified"

text \<open>Cancellation is requested exactly while the request waits or has been acknowledged.\<close>

definition cancel_inv :: "app_state \<Rightarrow> bool" where
  "cancel_inv s \<longleftrightarrow>
     (cancel_requested s \<longleftrightarrow> CancelScan \<in> set (pending_kinds s) \<or> active_kind s = Some CancelScan) \<and>
     \<not> (CancelScan \<in> set (pending_kinds s) \<and> active_kind s = Some CancelScan)"

fun request_ok :: "scan_control_kind \<Rightarrow> request_phase \<Rightarrow> scan_state \<Rightarrow> bool \<Rightarrow> bool" where
  "request_ok StartScan ph st plan \<longleftrightarrow>
     ph \<in> {AwaitingStateConfirmation, Steady} \<and> st = Running \<and> \<not> plan"
| "request_ok PauseScan ph st plan \<longleftrightarrow> ph \<in> {AwaitingStateConfirmation, Steady} \<and> st = Paused"
| "request_ok ResumeScan ph st plan \<longleftrightarrow> st = Running \<and>
     (ph = AwaitingInvalidation \<and> plan
      \<or> ph \<in> {AwaitingResumeState, AwaitingResumeProgress, Steady} \<and> \<not> plan)"
| "request_ok PauseAndBuildProvisionalPlan ph st plan \<longleftrightarrow>
     ph \<in> {AwaitingStateConfirmation, AwaitingPlanReadyState} \<and> st = BuildingProvisionalPlan
     \<or> ph = AwaitingPlanProjection \<and> st = PlanReady
     \<or> ph = Steady \<and> st = PlanReady \<and> plan"
| "request_ok CancelScan ph st plan \<longleftrightarrow>
     ph \<in> {AwaitingStateConfirmation, AwaitingCancelledState} \<and> st = Cancelling
     \<or> ph = AwaitingCancelledTerminal \<and> st = Cancelled"
| "request_ok ControlUnspecified ph st plan \<longleftrightarrow> False"

definition lifecycle_inv :: "app_state \<Rightarrow> bool" where
  "lifecycle_inv s \<longleftrightarrow>
     (case active_request s of
        None \<Rightarrow> scan_state s = Idle \<and> provisional_plan s = None
      | Some a \<Rightarrow> request_ok (ar_kind a) (ar_phase a) (scan_state s) (provisional_plan s \<noteq> None))"

fun outcome_inv :: "terminal_state option \<Rightarrow> scan_state \<Rightarrow> bool" where
  "outcome_inv None st \<longleftrightarrow> st \<notin> {StateUnspecified, Finished, Failed}"
| "outcome_inv (Some (TermCancelled _)) st \<longleftrightarrow> st = Cancelled"
| "outcome_inv (Some (TermFinished _)) st \<longleftrightarrow> st = Finished"
| "outcome_inv (Some (TermFailed _)) st \<longleftrightarrow> st = Failed"

definition app_inv :: "app_state \<Rightarrow> bool" where
  "app_inv s \<longleftrightarrow>
     ids_inv s \<and> controls_inv s \<and> cancel_inv s \<and>
     (terminal s = None \<longrightarrow> lifecycle_inv s) \<and>
     outcome_inv (terminal s) (scan_state s) \<and>
     (screen s = ProvisionalPlanScreen \<longleftrightarrow> provisional_plan s \<noteq> None) \<and>
     (driver_exited s \<longrightarrow> terminal s \<noteq> None)"

lemmas inv_defs = app_inv_def ids_inv_def controls_inv_def cancel_inv_def lifecycle_inv_def
  active_kind_def

lemma app_inv_default: "app_inv default_app_state"
  by (simp add: inv_defs default_app_state_def)

section \<open>Failing keeps it\<close>

lemma app_inv_fail_with: "app_inv s \<Longrightarrow> app_inv (fail_with d s)"
  by (simp add: inv_defs fail_with_def)

lemma app_inv_sequence: "app_inv s \<Longrightarrow> app_inv (s\<lparr>last_event_sequence := q\<rparr>)"
  by (simp add: inv_defs split: option.splits)

section \<open>Steps of the engine keep it\<close>

lemma lifecycle_inv_state: "terminal s = None \<Longrightarrow> lifecycle_inv s \<Longrightarrow> outcome_inv None (scan_state s)"
  by (cases "active_request s") (auto simp: lifecycle_inv_def elim!: request_ok.elims)

text \<open>An acknowledgement turns a pending control into the active request.\<close>

lemma ids_inv_take:
  assumes "ids_inv s" "find_pending i s = Some p"
    and "pending_controls s' = remove_pending i (pending_controls s)"
    and "next_request_id s' = next_request_id s"
    and "active_request s' = active_request s
      \<or> active_request s' = Some \<lparr>ar_request_id = i, ar_kind = k, ar_phase = ph\<rparr>"
  shows "ids_inv s'"
  using assms(1,3,4,5) find_pending_Some [OF assms(2)]
  by (cases "active_request s")
    (auto simp: ids_inv_def set_remove_pending distinct_remove_pending)

lemma pending_kinds_take:
  assumes "distinct (pending_kinds s)" "distinct (pending_ids (pending_controls s))"
    and "find_pending i s = Some p"
  shows "set (map pc_kind (remove_pending i (pending_controls s))) = set (pending_kinds s) - {pc_kind p}"
proof -
  have "p \<in> set (pending_controls s)" "pc_request_id p = i"
    using find_pending_Some [OF assms(3)] by auto
  moreover have "inj_on pc_kind (set (pending_controls s))" "inj_on pc_request_id (set (pending_controls s))"
    using assms(1,2) by (simp_all add: distinct_map)
  ultimately show ?thesis
    by (auto simp: set_remove_pending [OF assms(2)] dest: inj_onD)
qed

lemma accepted_request_ok:
  assumes "accepted_transition_is_valid k (scan_state s) r" and "lifecycle_inv s"
  shows "request_ok k (phase_after_ack k s) r (provisional_plan s \<noteq> None)"
  using assms
  by (cases k; cases "active_request s")
    (auto simp: phase_after_ack_def lifecycle_inv_def elim!: request_ok.elims)

lemma cancel_not_superseded:
  assumes "accepted_transition_is_valid k (scan_state s) r" and "lifecycle_inv s"
  shows "active_kind s \<noteq> Some CancelScan"
  using assms by (cases k) (auto simp: lifecycle_inv_def active_kind_def)

lemma pending_kind: "find_pending i s = Some p \<Longrightarrow> pc_kind p \<in> set (pending_kinds s)"
  using find_pending_Some [of i s p] by auto

lemma pending_kinds_taken:
  assumes "controls_inv s" "distinct (pending_ids (pending_controls s))"
    and "find_pending i s = Some p"
    and "pending_controls s' = remove_pending i (pending_controls s)"
  shows "distinct (pending_kinds s')" "k \<in> set (pending_kinds s') \<longleftrightarrow> k \<in> set (pending_kinds s) \<and> k \<noteq> pc_kind p"
  using assms pending_kinds_take [OF _ assms(2,3)]
  by (simp_all only: controls_inv_def distinct_remove_pending Diff_iff singleton_iff simp_thms)

lemma acknowledge_keeps_controls:
  assumes "controls_inv s" "cancel_inv s" "distinct (pending_ids (pending_controls s))"
    and "find_pending i s = Some p" "active_kind s \<noteq> Some CancelScan"
    and "pending_controls s' = remove_pending i (pending_controls s)"
    and "active_kind s' = Some (pc_kind p)" "cancel_requested s' = cancel_requested s"
  shows "controls_inv s' \<and> cancel_inv s'"
  using assms(1,2,5,7,8) pending_kind [OF assms(4)]
  by (auto simp: controls_inv_def cancel_inv_def pending_kinds_taken [OF assms(1,3,4,6)] simp del: set_map)

lemma refuse_keeps_controls:
  assumes "controls_inv s" "cancel_inv s" "distinct (pending_ids (pending_controls s))"
    and "find_pending i s = Some p"
    and "pending_controls s' = remove_pending i (pending_controls s)"
    and "active_kind s' = active_kind s"
    and "cancel_requested s' = (pc_kind p \<noteq> CancelScan \<and> cancel_requested s)"
  shows "controls_inv s' \<and> cancel_inv s'"
  using assms(1,2,6,7) pending_kind [OF assms(4)]
  by (auto simp: controls_inv_def cancel_inv_def pending_kinds_taken [OF assms(1,3,4,5)] simp del: set_map)

lemma engine_step_keeps_inv:
  "engine_step i body s s' \<Longrightarrow> app_inv s \<Longrightarrow> terminal s = None \<Longrightarrow> app_inv s'"
proof (induction rule: engine_step.induct)
  case (acknowledge i s p a r)
  let ?s = "s\<lparr>pending_controls := remove_pending i (pending_controls s),
          active_request := Some \<lparr>ar_request_id = i, ar_kind = pc_kind p,
                                  ar_phase = phase_after_ack (pc_kind p) s\<rparr>,
          scan_state := r,
          banner := Some (Text (control_label (pc_kind p) @ '' acknowledged''))\<rparr>"
  have inv: "ids_inv s" "controls_inv s" "cancel_inv s" "lifecycle_inv s"
    using acknowledge.prems by (auto simp: app_inv_def)
  have "ids_inv ?s"
    by (rule ids_inv_take [OF inv(1) acknowledge.hyps(1), where k = "pc_kind p"
        and ph = "phase_after_ack (pc_kind p) s"]) simp_all
  moreover have "controls_inv ?s \<and> cancel_inv ?s"
    by (rule acknowledge_keeps_controls [OF inv(2,3) _ acknowledge.hyps(1)])
      (use inv(1) cancel_not_superseded [OF acknowledge.hyps(4) inv(4)] in
        \<open>simp_all add: ids_inv_def active_kind_def\<close>)
  moreover have "lifecycle_inv ?s"
    using accepted_request_ok [OF acknowledge.hyps(4) inv(4)] by (simp add: lifecycle_inv_def)
  ultimately show ?case
    using acknowledge.prems lifecycle_inv_state [of ?s] by (simp add: app_inv_def)
next
  case (refuse i s p x c)
  let ?s = "s\<lparr>pending_controls := remove_pending i (pending_controls s),
          cancel_requested := (pc_kind p \<noteq> CancelScan \<and> cancel_requested s),
          banner := Some (Text (''control rejected: '' @ cr_detail x))\<rparr>"
  have inv: "ids_inv s" "controls_inv s" "cancel_inv s"
    using refuse.prems by (auto simp: app_inv_def)
  have "ids_inv ?s"
    by (rule ids_inv_take [OF inv(1) refuse.hyps(1)]) simp_all
  moreover have "controls_inv ?s \<and> cancel_inv ?s"
    by (rule refuse_keeps_controls [OF inv(2,3) _ refuse.hyps(1)])
      (use inv(1) in \<open>simp_all add: ids_inv_def active_kind_def\<close>)
  ultimately show ?case
    using refuse.prems by (simp add: app_inv_def lifecycle_inv_def split: option.splits)
next
  case (change_state i s origin c r ph)
  then show ?case
    by (auto simp: inv_defs set_active_phase_def phase_after_state_change_def split: if_splits)
qed (auto simp: inv_defs set_active_phase_def)

section \<open>Keys keep it\<close>

lemma try_next_control_Inr:
  assumes "try_next_control k s = (Inr c, s')"
  obtains n where "unat n = Suc (unat (next_request_id s))"
    "c = \<lparr>cc_request_id = next_request_id s, cc_kind = k\<rparr>"
    "s' = s\<lparr>next_request_id := n,
             pending_controls := pending_controls s @
               [\<lparr>pc_request_id = next_request_id s, pc_kind = k\<rparr>]\<rparr>"
  using assms by (auto simp: try_next_control_def Let_def dest!: checked_add_SomeD split: option.splits)

lemma try_next_control_Inl: "try_next_control k s = (Inl e, s') \<Longrightarrow> s' = s"
  by (auto simp: try_next_control_def Let_def split: option.splits)

text \<open>What asking for a control once does: nothing, fail for want of an id, or send it.\<close>

lemma request_once_cases:
  assumes "request_once k s = (fx, s')"
  obtains (skip) "fx = []" "s' = s" "has_pending k s \<or> k = CancelScan \<and> cancel_requested s"
  | (exhausted) d where "fx = [StopDriver]" "s' = fail_with d s"
  | (send) n b where "fx = [SendControl \<lparr>cc_request_id = next_request_id s, cc_kind = k\<rparr>]"
      "\<not> has_pending k s" "\<not> (k = CancelScan \<and> cancel_requested s)"
      "unat n = Suc (unat (next_request_id s))"
      "s' = s\<lparr>next_request_id := n,
              pending_controls := pending_controls s @
                [\<lparr>pc_request_id = next_request_id s, pc_kind = k\<rparr>],
              cancel_requested := (k = CancelScan \<or> cancel_requested s), banner := b\<rparr>"
proof -
  show thesis
  proof (cases "has_pending k s \<or> k = CancelScan \<and> cancel_requested s")
    case True
    with assms show thesis by (intro skip) (simp_all add: request_once_def)
  next
    case False
    obtain r t where r: "try_next_control k s = (r, t)" by fastforce
    show thesis
    proof (cases r)
      case (Inl e)
      with r False assms show thesis
        by (intro exhausted [of "Text ''request ID space exhausted''"])
          (auto simp: request_once_def protocol_failure_def dest: try_next_control_Inl split: if_splits)
    next
      case (Inr c)
      from r obtain n where n: "unat n = Suc (unat (next_request_id s))"
          "c = \<lparr>cc_request_id = next_request_id s, cc_kind = k\<rparr>"
          "t = s\<lparr>next_request_id := n,
             pending_controls := pending_controls s @
               [\<lparr>pc_request_id = next_request_id s, pc_kind = k\<rparr>]\<rparr>"
        unfolding Inr by (elim try_next_control_Inr)
      with r Inr False assms show thesis
        by (cases s, intro send [of n "banner s'"]) (auto simp: request_once_def split: if_splits)
    qed
  qed
qed

lemma request_once_keeps_inv:
  assumes "request_once k s = (fx, s')" "k \<noteq> ControlUnspecified" "app_inv s"
  shows "app_inv s'"
  using assms(1)
proof (cases rule: request_once_cases)
  case (send n b)
  have inv: "ids_inv s" "controls_inv s" "cancel_inv s"
    using assms(3) by (auto simp: app_inv_def)
  have "ids_inv s'"
    using inv(1) send(4) unfolding send(5) by (auto simp: ids_inv_def less_Suc_eq)
  moreover have "controls_inv s'" "cancel_inv s'"
    using inv(2,3) assms(2) send(2,3) unfolding send(5)
    by (auto simp: controls_inv_def cancel_inv_def active_kind_def has_pending_iff)
  ultimately show ?thesis
    using assms(3) unfolding send(5) by (simp add: app_inv_def lifecycle_inv_def split: option.splits)
qed (use assms(3) app_inv_fail_with in simp_all)

text \<open>A key press toggles the help, asks for one control, or does nothing.\<close>

lemma reduce_key_cases:
  assumes "reduce_key c k s = (fx, s')"
  obtains (ignore) "fx = []" "s' = s"
  | (toggle) "fx = []" "s' = s\<lparr>help_visible := \<not> help_visible s\<rparr>"
  | (request) kind where "request_once kind s = (fx, s')" "terminal s = None"
      "kind \<in> {PauseScan, ResumeScan, PauseAndBuildProvisionalPlan, CancelScan}"
proof -
  have "(fx, s') = ([], s) \<or> (fx, s') = ([], s\<lparr>help_visible := \<not> help_visible s\<rparr>)
    \<or> terminal s = None \<and> (\<exists>kind \<in> {PauseScan, ResumeScan, PauseAndBuildProvisionalPlan, CancelScan}.
         request_once kind s = (fx, s'))"
    using assms unfolding reduce_key_def by (simp split: if_splits)
  with that show thesis by blast
qed

lemma reduce_key_keeps_inv:
  assumes "reduce_key c k s = (fx, s')" "app_inv s"
  shows "app_inv s'"
  using assms(1)
proof (cases rule: reduce_key_cases)
  case toggle
  with assms(2) show ?thesis by (simp add: inv_defs split: option.splits)
next
  case (request kind)
  with assms(2) request_once_keeps_inv [OF request(1)] show ?thesis by auto
qed (use assms(2) in simp)

section \<open>Engine deliveries\<close>

text \<open>A delivery in sequence: its number is the next one after the coalesced progress it stands for,
  and only progress stands for coalesced progress.\<close>

definition in_sequence :: "engine_delivery \<Rightarrow> app_state \<Rightarrow> bool" where
  "in_sequence d s \<longleftrightarrow>
     unat (event_sequence (dl_event d)) =
       unat (last_event_sequence s) + 1 + unat (skipped_progress_events d) \<and>
     (skipped_progress_events d = 0 \<or> is_scan_progress (ev_body (dl_event d)))"

lemma accepted_sequence_Inr:
  "accepted_sequence l k = Inr q \<longleftrightarrow> unat q = unat l + 1 + unat k"
proof
  assume "accepted_sequence l k = Inr q"
  then show "unat q = unat l + 1 + unat k"
    by (auto simp: accepted_sequence_def dest!: checked_add_SomeD split: option.splits)
next
  assume q: "unat q = unat l + 1 + unat k"
  have "checked_add l 1 = Some (l + 1)"
    using q unat_less_2p [of q] by (auto simp: checked_add_def)
  moreover from this have "checked_add (l + 1) k = Some q"
    using q by (auto simp: checked_add_Some_iff dest!: checked_add_SomeD)
  ultimately show "accepted_sequence l k = Inr q"
    by (simp add: accepted_sequence_def)
qed

lemma reduce_engine_event_cases:
  assumes "reduce_engine_event d s = (fx, s')"
  obtains (step) body where "fx = []" "in_sequence d s" "ev_body (dl_event d) = Some body"
      "engine_step (ev_request_id (dl_event d)) body
         (s\<lparr>last_event_sequence := event_sequence (dl_event d)\<rparr>) s'"
  | (fail) q e where "fx = [StopDriver]" "s' = fail_with e (s\<lparr>last_event_sequence := q\<rparr>)"
proof (cases "in_sequence d s")
  case True
  then have "accepted_sequence (last_event_sequence s) (skipped_progress_events d)
      = Inr (event_sequence (dl_event d))"
    by (simp add: accepted_sequence_Inr in_sequence_def)
  with True assms have "reduce_body (ev_request_id (dl_event d)) (ev_body (dl_event d))
      (s\<lparr>last_event_sequence := event_sequence (dl_event d)\<rparr>) = (fx, s')"
    by (auto simp: reduce_engine_event_def in_sequence_def word_gt_0 Let_def)
  from reduce_body_cases [OF this] True that show thesis by blast
next
  case False
  have "fx = [StopDriver] \<and> (\<exists>e. s' = fail_with e s)"
    using assms False
    by (auto simp: reduce_engine_event_def protocol_failure_def in_sequence_def word_gt_0 Let_def
        accepted_sequence_Inr split: sum.splits if_splits)
  then show thesis
    using fail [of _ "last_event_sequence s"] by auto
qed

lemma reduce_engine_event_keeps_inv:
  assumes "reduce_engine_event d s = (fx, s')" "app_inv s" "terminal s = None"
  shows "app_inv s'"
  using assms(1)
proof (cases rule: reduce_engine_event_cases)
  case (step body)
  with assms(2,3) show ?thesis
    by (auto intro: engine_step_keeps_inv app_inv_sequence)
qed (simp add: assms(2) app_inv_sequence app_inv_fail_with)

section \<open>The reducer as a machine\<close>

lemma app_inv_exited: "app_inv s \<Longrightarrow> terminal s \<noteq> None \<Longrightarrow> app_inv (s\<lparr>driver_exited := True\<rparr>)"
  by (auto simp: inv_defs)

lemma app_inv_exited_failed: "app_inv s \<Longrightarrow> app_inv (fail_with d (s\<lparr>driver_exited := True\<rparr>))"
  by (simp add: inv_defs fail_with_def)

lemma reduce_keeps_inv:
  assumes "reduce e s = (fx, s')" "app_inv s"
  shows "app_inv s'"
proof (cases e)
  case (Key c k)
  with assms reduce_key_keeps_inv show ?thesis by auto
next
  case (Engine d)
  with assms reduce_engine_event_keeps_inv show ?thesis by (auto split: if_splits)
next
  case (DriverExited r)
  with assms app_inv_exited app_inv_exited_failed show ?thesis
    by (auto simp: Let_def split: sum.splits if_splits)
qed (use assms in auto)

interpretation app: invariant_machine reduce app_inv
  by unfold_locales (rule reduce_keeps_inv)

end
