(* ===== verification/Reducer_Laws.thy ===== *)
theory Reducer_Laws
  imports Reducer_Inv "HOL-Library.Multiset"
begin

text \<open>
  The properties of the reducer over whole runs: the reducer as a machine with an invariant, a
  request counter and a stop; the life cycle of a scan; what keys may and may not change; the
  accounting of requests and of event numbers.
\<close>

section \<open>The reducer as a machine\<close>

fun is_stop :: "effect \<Rightarrow> bool" where
  "is_stop StopDriver = True"
| "is_stop (SendControl _) = False"

fun request_numbers :: "effect \<Rightarrow> nat list" where
  "request_numbers StopDriver = []"
| "request_numbers (SendControl c) = [unat (cc_request_id c)]"

abbreviation request_counter :: "app_state \<Rightarrow> nat" where
  "request_counter s \<equiv> unat (next_request_id s)"

lemma engine_step_next_request_id: "engine_step i b s s' \<Longrightarrow> next_request_id s' = next_request_id s"
  by (induction rule: engine_step.induct) (simp_all add: set_active_phase_def)

lemma engine_step_driver_exited: "engine_step i b s s' \<Longrightarrow> driver_exited s' = driver_exited s"
  by (induction rule: engine_step.induct) (simp_all add: set_active_phase_def)

text \<open>One step of the reducer, by what it does.\<close>

lemma reduce_cases:
  assumes "reduce e s = (fx, s')"
  obtains (ignore) "fx = []" "s' = s" "\<forall>r. e \<noteq> DriverExited r"
      "\<forall>d. e = Engine d \<longrightarrow> terminal s \<noteq> None"
  | (toggle) c k where "e = Key c k" "fx = []" "s' = s\<lparr>help_visible := \<not> help_visible s\<rparr>"
  | (request) c k kind where "e = Key c k" "request_once kind s = (fx, s')" "terminal s = None"
      "kind \<in> {PauseScan, ResumeScan, PauseAndBuildProvisionalPlan, CancelScan}"
  | (engine) d body where "e = Engine d" "terminal s = None" "fx = []" "in_sequence d s"
      "ev_body (dl_event d) = Some body"
      "engine_step (ev_request_id (dl_event d)) body
         (s\<lparr>last_event_sequence := event_sequence (dl_event d)\<rparr>) s'"
  | (fail) d q x where "e = Engine d" "terminal s = None" "fx = [StopDriver]"
      "s' = fail_with x (s\<lparr>last_event_sequence := q\<rparr>)"
  | (exited) r where "e = DriverExited r" "fx = []" "s' = s\<lparr>driver_exited := True\<rparr>" "terminal s \<noteq> None"
  | (exit_failed) r x where "e = DriverExited r" "fx = []" "s' = fail_with x (s\<lparr>driver_exited := True\<rparr>)"
proof (cases e)
  case (Key c k)
  with assms have "reduce_key c k s = (fx, s')" by simp
  then show thesis
  proof (cases rule: reduce_key_cases)
    case ignore
    show thesis by (rule that(1)) (simp_all add: ignore Key)
  next
    case toggle
    show thesis by (rule that(2) [OF Key toggle])
  next
    case (request kind)
    show thesis by (rule that(3) [OF Key request])
  qed
next
  case (Engine d)
  show thesis
  proof (cases "terminal s = None")
    case True
    with assms Engine have "reduce_engine_event d s = (fx, s')" by simp
    then show thesis
    proof (cases rule: reduce_engine_event_cases)
      case (step body)
      show thesis by (rule that(4) [OF Engine True step])
    next
      case (fail q x)
      show thesis by (rule that(5) [OF Engine True fail])
    qed
  next
    case False
    with assms Engine have "fx = []" "s' = s" by auto
    then show thesis by (rule that(1)) (simp_all add: Engine False)
  qed
next
  case (DriverExited r)
  have "fx = [] \<and> (s' = s\<lparr>driver_exited := True\<rparr> \<and> terminal s \<noteq> None
      \<or> (\<exists>x. s' = fail_with x (s\<lparr>driver_exited := True\<rparr>)))"
    using assms unfolding DriverExited by (cases r) (auto simp: Let_def split: if_splits)
  then show thesis
    using that(6) [OF DriverExited] that(7) [OF DriverExited] by blast
next
  case Resize
  with assms have "fx = []" "s' = s" by simp_all
  then show thesis by (rule that(1)) (simp_all add: Resize)
qed

lemma request_once_driver_exited:
  "request_once k s = (fx, s') \<Longrightarrow> driver_exited s' = driver_exited s"
  by (erule request_once_cases) (simp_all add: fail_with_def)

lemma reduce_driver_exited:
  "reduce e s = (fx, s') \<Longrightarrow> driver_exited s' \<longleftrightarrow> driver_exited s \<or> (\<exists>r. e = DriverExited r)"
  by (erule reduce_cases)
    (simp_all add: fail_with_def request_once_driver_exited engine_step_driver_exited)

lemma reduce_counts:
  assumes "reduce e s = (fx, s')"
  shows "concat (map request_numbers fx) = [request_counter s ..< request_counter s']
    \<and> request_counter s \<le> request_counter s'"
  using assms
proof (cases rule: reduce_cases)
  case (request c k kind)
  from request(2) show ?thesis
    by (cases rule: request_once_cases) (simp_all add: fail_with_def)
qed (auto simp: fail_with_def dest: engine_step_next_request_id)

interpretation app_numbers: numbering_machine reduce app_inv request_counter request_numbers
  by unfold_locales (rule reduce_counts)

lemma reduce_halted: "terminal s \<noteq> None \<Longrightarrow> reduce e s = (fx, s') \<Longrightarrow> fx = [] \<and> terminal s' \<noteq> None"
  by (erule reduce_cases) (auto simp: fail_with_def)

lemma reduce_stop_halts:
  assumes "reduce e s = (fx, s')" "x \<in> set fx" "is_stop x"
  shows "fx = [x] \<and> terminal s' \<noteq> None"
  using assms(1)
proof (cases rule: reduce_cases)
  case (request c k kind)
  from request(2) assms(2,3) show ?thesis
    by (cases rule: request_once_cases) (auto simp: fail_with_def)
qed (use assms(2,3) in \<open>auto simp: fail_with_def\<close>)

interpretation app_halts: halting_machine reduce "\<lambda>s. terminal s \<noteq> None" is_stop
  by unfold_locales (use reduce_halted reduce_stop_halts in blast)+

text \<open>A step of the contract, delivered in sequence, is what the reducer does.\<close>

lemma engine_accepts:
  assumes "terminal s = None" "in_sequence d s" "ev_body (dl_event d) = Some body"
    and "engine_step (ev_request_id (dl_event d)) body
           (s\<lparr>last_event_sequence := event_sequence (dl_event d)\<rparr>) t"
  shows "reduce (Engine d) s = ([], t)"
proof -
  have "accepted_sequence (last_event_sequence s) (skipped_progress_events d)
      = Inr (event_sequence (dl_event d))"
    using assms(2) by (simp add: accepted_sequence_Inr in_sequence_def)
  with assms(1-3) engine_step_reduce [OF assms(4)] show ?thesis
    by (auto simp: reduce_engine_event_def Let_def in_sequence_def)
qed

lemma default_app_state_simps [simp]:
  "screen default_app_state = ScanScreen" "scan_state default_app_state = Idle"
  "progress default_app_state = None" "provisional_plan default_app_state = None"
  "pending_controls default_app_state = [\<lparr>pc_request_id = 1, pc_kind = StartScan\<rparr>]"
  "active_request default_app_state = None" "help_visible default_app_state = False"
  "cancel_requested default_app_state = False" "terminal default_app_state = None"
  "driver_exited default_app_state = False" "last_event_sequence default_app_state = 0"
  "next_request_id default_app_state = 2"
  by (simp_all add: default_app_state_def)

text \<open>The equations that run the reducer on a concrete event.\<close>

lemmas reducer_eval =
  exact_def reduce_engine_event_def reduce_key_def request_once_def try_next_control_def
  has_pending_def accepted_sequence_def checked_add_def find_pending_def take_pending_def
  scan_state_try_from_def control_reject_code_try_from_def phase_after_ack_def
  phase_after_state_change_def set_active_phase_def protocol_failure_def fail_with_def handler_defs

section \<open>Every reachable state\<close>

abbreviation frontend :: "ui_event list \<Rightarrow> app_state" where
  "frontend es \<equiv> snd (run reduce es default_app_state)"

abbreviation frontend_effects :: "ui_event list \<Rightarrow> effect list" where
  "frontend_effects es \<equiv> fst (run reduce es default_app_state)"

lemma frontend_inv: "app_inv (frontend es)"
  by (rule app.run_keeps [OF app_inv_default])

text \<open>C1: In every state the frontend can reach, whatever keys, engine events and driver exits
  arrive and in whatever order: request ids are fresh and distinct, no control waits twice, cancellation
  is marked as requested exactly while the cancel request waits or is the acknowledged one, the
  acknowledged request's phase fits the scan state, a plan is shown exactly on the plan screen, the
  outcome agrees with the scan state, and the driver has exited only when there is an outcome.\<close>

theorem reachable_states_consistent: "app_inv (snd (run reduce es default_app_state))"
  by (rule app.run_keeps [OF app_inv_default])

text \<open>The frontend exits exactly when its driver has: at the end of any run, \<open>should_exit\<close>
  holds if and only if the driver's exit was among the events.\<close>

theorem exits_with_driver:
  "should_exit (snd (run reduce es default_app_state)) \<longleftrightarrow> list_ex (\<lambda>e. \<exists>r. e = DriverExited r) es"
proof -
  have "driver_exited (snd (run reduce es s)) \<longleftrightarrow>
      driver_exited s \<or> list_ex (\<lambda>e. \<exists>r. e = DriverExited r) es" for s
  proof (induction es arbitrary: s)
    case (Cons e es)
    obtain fx s' where st: "reduce e s = (fx, s')" by fastforce
    with Cons.IH [of s'] reduce_driver_exited [OF st] show ?case
      by (simp add: run_Cons_snd st del: run.simps)
  qed simp
  from this [of default_app_state] frontend_inv [of es] show ?thesis
    by (auto simp: should_exit_def app_inv_def)
qed

text \<open>The controls the frontend sends in a run carry the consecutive request ids 2, 3, 4 and so
  on (1 is the scan's start, sent by the driver), with no id used twice and none skipped.\<close>

theorem request_ids_consecutive:
  "concat (map request_numbers (fst (run reduce es default_app_state)))
     = [2 ..< unat (next_request_id (snd (run reduce es default_app_state)))]"
  using app_numbers.run_numbers [OF app_inv_default, of es] by simp

text \<open>C36: The frontend asks for the driver's stop at most once, and then sends nothing any more.\<close>

theorem stop_is_last:
  "\<exists>cs. fst (run reduce es default_app_state) = map SendControl cs \<or>
        fst (run reduce es default_app_state) = map SendControl cs @ [StopDriver] \<and>
        terminal (snd (run reduce es default_app_state)) \<noteq> None"
proof -
  have stop: "is_stop x \<longleftrightarrow> x = StopDriver" for x by (cases x) auto
  have send: "\<exists>cs. pre = map SendControl cs" if "\<forall>x \<in> set pre. x \<noteq> StopDriver" for pre
    using that by (metis effect.exhaust ex_map_conv)
  show ?thesis
    using app_halts.run_stops_last [of es default_app_state] send
    by (metis (no_types, lifting) prod.collapse stop)
qed

end
