(* ===== verification/Reducer_Runs.thy ===== *)
theory Reducer_Runs
  imports Reducer_Laws
begin

text \<open>
  What runs of the reducer account for: every engine delivery is a step of the contract or stops the
  program, every request is answered once, every event number is accounted for once, the scan state
  moves along the life cycle, keys only ask, and a cancellation the engine carries out ends the scan.
\<close>

section \<open>Fail-closed deliveries\<close>

text \<open>C2: While there is no outcome, an engine delivery is accepted exactly when it is in sequence
  and a step of the contract in the current state; then the new state is the contract's. Every other
  delivery stops the driver and leaves the failed state: controls, active request, plan and progress
  stay as they were, so nothing of an invalid event is believed.\<close>

theorem deliveries_fail_closed:
  assumes "terminal s = None" "reduce (Engine d) s = (fx, s')"
  shows "(fx = [] \<longleftrightarrow> in_sequence d s \<and> (\<exists>body t. ev_body (dl_event d) = Some body \<and>
            engine_step (ev_request_id (dl_event d)) body
              (s\<lparr>last_event_sequence := event_sequence (dl_event d)\<rparr>) t)) \<and>
         (fx = [] \<longrightarrow> (\<exists>body. ev_body (dl_event d) = Some body \<and>
            engine_step (ev_request_id (dl_event d)) body
              (s\<lparr>last_event_sequence := event_sequence (dl_event d)\<rparr>) s')) \<and>
         (fx \<noteq> [] \<longrightarrow> fx = [StopDriver] \<and> scan_state s' = Failed \<and>
            (\<exists>x. terminal s' = Some (TermFailed x)) \<and> pending_controls s' = pending_controls s \<and>
            active_request s' = active_request s \<and> provisional_plan s' = provisional_plan s \<and>
            progress s' = progress s \<and> screen s' = screen s)"
proof -
  have red: "reduce_engine_event d s = (fx, s')" using assms by simp
  have accept: "fx = []" if "in_sequence d s" "ev_body (dl_event d) = Some body"
      "engine_step (ev_request_id (dl_event d)) body
         (s\<lparr>last_event_sequence := event_sequence (dl_event d)\<rparr>) t" for body t
    using engine_accepts [OF assms(1) that] assms(2) by simp
  show ?thesis
    using red
  proof (cases rule: reduce_engine_event_cases)
    case (step body)
    then show ?thesis by blast
  next
    case (fail q e)
    then show ?thesis
      using accept by (auto simp: fail_with_def)
  qed
qed

definition ack_start :: engine_delivery where
  "ack_start = exact \<lparr>event_sequence = 1, ev_request_id = 1,
     ev_body = Some (ControlAccepted \<lparr>ca_control = control_as_i32 StartScan,
                                      ca_resulting_state = scan_state_as_i32 Running\<rparr>)\<rparr>"

theorem deliveries_fail_closed_witness:
  "fst (reduce (Engine ack_start) default_app_state) = [] \<and>
   in_sequence ack_start default_app_state"
proof -
  have *: "terminal default_app_state = None" by simp
  have "fst (reduce (Engine ack_start) default_app_state) = []"
    by (simp add: ack_start_def reducer_eval)
  then show ?thesis
    using deliveries_fail_closed [OF * prod.collapse [symmetric], of ack_start] by blast
qed

section \<open>Every request is answered at most once\<close>

fun is_ack :: "engine_body option \<Rightarrow> bool" where
  "is_ack (Some (ControlAccepted _)) = True"
| "is_ack (Some (ControlRejected _)) = True"
| "is_ack _ = False"

text \<open>The request ids that events of a run answer: the ids of the acknowledgements taken.\<close>

definition answered :: "ui_event \<Rightarrow> app_state \<Rightarrow> u64 list" where
  "answered e s =
     (case e of
        Engine d \<Rightarrow>
          if terminal s = None \<and> fst (reduce e s) = [] \<and> is_ack (ev_body (dl_event d))
          then [ev_request_id (dl_event d)] else []
      | _ \<Rightarrow> [])"

primrec answers :: "ui_event list \<Rightarrow> app_state \<Rightarrow> u64 list" where
  "answers [] s = []"
| "answers (e # es) s = answered e s @ answers es (snd (reduce e s))"

abbreviation waiting :: "app_state \<Rightarrow> nat multiset" where
  "waiting s \<equiv> mset (map unat (pending_ids (pending_controls s)))"

lemma mset_remove_pending:
  "i \<in> set (pending_ids ps) \<Longrightarrow>
     add_mset i (mset (pending_ids (remove_pending i ps))) = mset (pending_ids ps)"
  by (induction ps) auto

lemma waiting_remove:
  assumes "find_pending i s = Some p" and "ps = remove_pending i (pending_controls s)"
  shows "{#unat i#} + mset (map unat (pending_ids ps)) = waiting s"
proof -
  have "i \<in> set (pending_ids (pending_controls s))"
    using find_pending_Some [OF assms(1)] by force
  from arg_cong [OF mset_remove_pending [OF this], of "image_mset unat"] show ?thesis
    by (simp add: assms(2) multiset.map_comp)
qed

lemma engine_step_waiting:
  "engine_step i b s s' \<Longrightarrow>
     (if is_ack (Some b) then {#unat i#} else {#}) + waiting s' = waiting s"
proof (induction rule: engine_step.induct)
  case (acknowledge i s p a r)
  show ?case using waiting_remove [OF acknowledge.hyps(1) refl] by simp
next
  case (refuse i s p x c)
  show ?case using waiting_remove [OF refuse.hyps(1) refl] by simp
qed (simp_all add: set_active_phase_def)

lemma reduce_waiting:
  assumes "reduce e s = (fx, s')"
  shows "mset (map unat (answered e s)) + waiting s' = waiting s + mset (concat (map request_numbers fx))"
  using assms
proof (cases rule: reduce_cases)
  case (request c k kind)
  from request(2) have "waiting s' = waiting s + mset (concat (map request_numbers fx))"
    by (cases rule: request_once_cases) (simp_all add: fail_with_def)
  with request(1) show ?thesis by (simp add: answered_def)
next
  case (engine d body)
  with engine_step_waiting [OF engine(6)] assms show ?thesis
    by (simp add: answered_def split: if_splits)
qed (use assms in \<open>auto simp: answered_def fail_with_def split: ui_event.split\<close>)

lemma run_waiting:
  "mset (map unat (answers es s)) + waiting (snd (run reduce es s))
     = waiting s + mset (concat (map request_numbers (fst (run reduce es s))))"
proof (induction es arbitrary: s)
  case (Cons e es)
  obtain fx s' where st: "reduce e s = (fx, s')" by fastforce
  let ?a = "mset (map unat (answered e s))" and ?as = "mset (map unat (answers es s'))"
    and ?w = "waiting (snd (run reduce es s'))"
    and ?r = "mset (concat (map request_numbers fx))"
    and ?rs = "mset (concat (map request_numbers (fst (run reduce es s'))))"
  have "(?a + ?as) + ?w = ?a + (waiting s' + ?rs)"
    by (simp only: add.assoc Cons.IH)
  also have "\<dots> = waiting s + (?r + ?rs)"
    by (simp only: add.assoc [symmetric] reduce_waiting [OF st])
  finally show ?case
    by (simp only: answers.simps run_Cons_fst run_Cons_snd st fst_conv snd_conv map_append
        concat_append mset_append)
qed simp

text \<open>C12: In any run, every request id issued so far is either answered or still waiting, exactly
  once: the ids of the acknowledgements and refusals taken, together with the ids of the pending
  controls, are the ids from 1 up to the next one. No answer is taken twice, none for a request that
  was not sent, and no request is forgotten.\<close>

theorem requests_answered_once:
  "mset (map unat (answers es default_app_state)) +
   mset (map unat (pending_ids (pending_controls (snd (run reduce es default_app_state)))))
     = mset [1 ..< unat (next_request_id (snd (run reduce es default_app_state)))]"
proof -
  let ?n = "request_counter (frontend es)"
  have *: "concat (map request_numbers (frontend_effects es)) = [2 ..< ?n]" "2 \<le> ?n"
    using app_numbers.run_numbers [OF app_inv_default, of es] by simp_all
  then have "[1 ..< ?n] = 1 # [2 ..< ?n]"
    by (metis Suc_1 Suc_le_lessD less_or_eq_imp_le not_less_eq_eq upt_conv_Cons)
  with run_waiting [of es default_app_state] show ?thesis
    by (simp only: *) simp
qed

section \<open>Every event number is accounted for once\<close>

fun deliveries :: "ui_event list \<Rightarrow> engine_delivery list" where
  "deliveries (Engine d # es) = d # deliveries es"
| "deliveries (_ # es) = deliveries es"
| "deliveries [] = []"

text \<open>The event numbers a delivery stands for: its own and those of the progress it replaced.\<close>

definition covered :: "engine_delivery \<Rightarrow> nat list" where
  "covered d = [unat (event_sequence (dl_event d)) - unat (skipped_progress_events d)
                ..< Suc (unat (event_sequence (dl_event d)))]"

lemma engine_step_last_event_sequence:
  "engine_step i b s s' \<Longrightarrow> last_event_sequence s' = last_event_sequence s"
  by (induction rule: engine_step.induct) (simp_all add: set_active_phase_def)

lemma reduce_covers:
  assumes "reduce e s = (fx, s')" "terminal s' = None"
  shows "concat (map covered (deliveries [e]))
      = [Suc (unat (last_event_sequence s)) ..< Suc (unat (last_event_sequence s'))]
    \<and> unat (last_event_sequence s) \<le> unat (last_event_sequence s')"
  using assms(1)
proof (cases rule: reduce_cases)
  case ignore
  with assms(2) show ?thesis by (cases e) simp_all
next
  case (request c k kind)
  from request(2,1) assms(2) show ?thesis
    by (cases rule: request_once_cases) (simp_all add: fail_with_def)
next
  case (engine d body)
  then have "last_event_sequence s' = event_sequence (dl_event d)"
    using engine_step_last_event_sequence [OF engine(6)] by simp
  with engine show ?thesis
    by (simp add: covered_def in_sequence_def)
qed (use assms(2) in \<open>simp_all add: fail_with_def\<close>)

lemma deliveries_Cons: "deliveries (e # es) = deliveries [e] @ deliveries es"
  by (cases e) simp_all

lemma run_covers:
  "terminal (snd (run reduce es s)) = None \<Longrightarrow>
     concat (map covered (deliveries es))
       = [Suc (unat (last_event_sequence s)) ..< Suc (unat (last_event_sequence (snd (run reduce es s))))]
     \<and> unat (last_event_sequence s) \<le> unat (last_event_sequence (snd (run reduce es s)))"
proof (induction es arbitrary: s)
  case (Cons e es)
  obtain fx s' where st: "reduce e s = (fx, s')" by fastforce
  define t where "t = snd (run reduce es s')"
  have t: "snd (run reduce (e # es) s) = t" by (simp add: run_Cons_snd st t_def del: run.simps)
  with Cons.prems have "terminal t = None" by simp
  moreover from this have "terminal s' = None"
    using app_halts.run_halted [OF _ prod.collapse [symmetric], of s' es] by (force simp: t_def)
  ultimately have
    "concat (map covered (deliveries [e])) = [Suc (unat (last_event_sequence s)) ..< Suc (unat (last_event_sequence s'))]"
    "concat (map covered (deliveries es)) = [Suc (unat (last_event_sequence s')) ..< Suc (unat (last_event_sequence t))]"
    "unat (last_event_sequence s) \<le> unat (last_event_sequence s')"
    "unat (last_event_sequence s') \<le> unat (last_event_sequence t)"
    using reduce_covers [OF st] Cons.IH [of s'] by (simp_all add: t_def)
  moreover have "[m ..< n] @ [n ..< k] = [m ..< k]" if "m \<le> n" "n \<le> k" for m n k :: nat
    using that upt_add_eq_append [of m n "k - n"] by simp
  ultimately show ?case
    unfolding t deliveries_Cons [of e es] by (simp del: upt_Suc)
qed simp

text \<open>C13: As long as a run has no outcome, the engine deliveries it has taken stand for the event
  numbers 1, 2, 3 up to the last one, each exactly once and in order, coalesced progress included:
  a lost, repeated or reordered event ends the run.\<close>

theorem events_accounted_once:
  assumes "terminal (snd (run reduce es default_app_state)) = None"
  shows "concat (map covered (deliveries es))
    = [1 ..< Suc (unat (last_event_sequence (snd (run reduce es default_app_state))))]"
  using run_covers [OF assms] by simp

theorem events_accounted_once_witness:
  "concat (map covered (deliveries [Resize, Engine ack_start])) = [1]"
  using events_accounted_once [of "[Resize, Engine ack_start]"]
  by (simp add: ack_start_def reducer_eval)

section \<open>The life cycle of a scan\<close>

inductive lifecycle :: "scan_state \<Rightarrow> scan_state \<Rightarrow> bool" where
  "lifecycle Idle Running"
| "lifecycle Running Paused"
| "st = Paused \<or> st = PlanReady \<Longrightarrow> lifecycle st Running"
| "st = Running \<or> st = Paused \<Longrightarrow> lifecycle st BuildingProvisionalPlan"
| "lifecycle BuildingProvisionalPlan PlanReady"
| "st = Running \<or> st = Paused \<or> st = BuildingProvisionalPlan \<or> st = PlanReady \<Longrightarrow> lifecycle st Cancelling"
| "lifecycle Cancelling Cancelled"
| "lifecycle Running Finished"
| "lifecycle st Failed"

code_pred lifecycle .

inductive_simps lifecycle_simps:
  "lifecycle Idle st" "lifecycle Finished st" "lifecycle Failed st" "lifecycle Cancelled st"

lemma accepted_lifecycle: "accepted_transition_is_valid k st r \<Longrightarrow> lifecycle st r"
  by (cases k) (auto intro: lifecycle.intros)

lemma engine_step_lifecycle:
  "engine_step i b s s' \<Longrightarrow> scan_state s' = scan_state s \<or> lifecycle (scan_state s) (scan_state s')"
  by (induction rule: engine_step.induct)
    (auto simp: set_active_phase_def phase_after_state_change_def accepted_lifecycle split: if_splits
      intro: lifecycle.intros)

lemma reduce_lifecycle:
  assumes "reduce e s = (fx, s')"
  shows "scan_state s' = scan_state s \<or> lifecycle (scan_state s) (scan_state s')"
  using assms
proof (cases rule: reduce_cases)
  case (request c k kind)
  from request(2) show ?thesis
    by (cases rule: request_once_cases) (simp_all add: fail_with_def lifecycle.intros)
next
  case (engine d body)
  with engine_step_lifecycle [OF engine(6)] show ?thesis by simp
qed (simp_all add: fail_with_def lifecycle.intros)

interpretation app_later: monotone_machine reduce app_inv
    "\<lambda>s t. lifecycle\<^sup>*\<^sup>* (scan_state s) (scan_state t)"
proof unfold_locales
  fix s e out s'
  assume "reduce e s = (out, s')"
  from reduce_lifecycle [OF this] show "lifecycle\<^sup>*\<^sup>* (scan_state s) (scan_state s')"
    by (metis r_into_rtranclp rtranclp.rtrancl_refl)
qed auto

lemma lifecycle_final: "lifecycle\<^sup>*\<^sup>* st st' \<Longrightarrow> st = Finished \<or> st = Failed \<Longrightarrow> st' = st \<or> st' = Failed"
  by (induction rule: rtranclp_induct) (auto simp: lifecycle_simps)

text \<open>C37: The scan state only moves along the life cycle: between any two points of a run it has
  followed its edges, one at most per event.\<close>

theorem scan_state_follows_lifecycle:
  "(let s = snd (run reduce es default_app_state) in
     (\<forall>e. scan_state (snd (reduce e s)) = scan_state s
          \<or> lifecycle (scan_state s) (scan_state (snd (reduce e s)))) \<and>
     (\<forall>es'. lifecycle\<^sup>*\<^sup>* (scan_state s) (scan_state (snd (run reduce (es @ es') default_app_state)))))"
  using reduce_lifecycle [OF prod.collapse [symmetric]] app_later.run_later [OF frontend_inv]
  by (simp add: Let_def snd_run_append)

end
