(* ===== verification/Reducer_Control.thy ===== *)
theory Reducer_Control
  imports Reducer_Runs
begin

text \<open>
  The user's side of the reducer: a key only asks, the engine decides; a running scan can always be
  cancelled; a whole session from start over pause and resume to cancellation.
\<close>

section \<open>Keys only ask\<close>










section \<open>Cancelling\<close>

definition deliver :: "u64 \<Rightarrow> u64 \<Rightarrow> engine_body \<Rightarrow> ui_event" where
  "deliver q i body = Engine (exact \<lparr>event_sequence = q, ev_request_id = i, ev_body = Some body\<rparr>)"

definition state_changed :: "scan_state \<Rightarrow> string \<Rightarrow> engine_body" where
  "state_changed st reason = ScanStateChanged \<lparr>sc_state = scan_state_as_i32 st, sc_reason = reason\<rparr>"

definition accepted_to :: "scan_control_kind \<Rightarrow> scan_state \<Rightarrow> engine_body" where
  "accepted_to k st =
     ControlAccepted \<lparr>ca_control = control_as_i32 k, ca_resulting_state = scan_state_as_i32 st\<rparr>"

text \<open>The user asks to cancel and the engine carries it out.\<close>

definition cancel_script :: "u64 \<Rightarrow> u64 \<Rightarrow> string \<Rightarrow> ui_event list" where
  "cancel_script i q reason =
     [Key (KeyChar CHR ''q'') KeyPress,
      deliver (q + 1) i (accepted_to CancelScan Cancelling),
      deliver (q + 2) i (state_changed Cancelling ''cancel acknowledged''),
      deliver (q + 3) i (state_changed Cancelled ''scan cancelled''),
      deliver (q + 4) i (ScanCancelled \<lparr>cancel_reason = reason\<rparr>)]"

lemma word_add_unat:
  "unat (q :: u64) + n < 2 ^ 64 \<Longrightarrow> unat (q + of_nat n) = unat q + n"
  by (simp add: unat_word_ariths unat_of_nat)

lemma deliver_step:
  assumes "engine_step i body (s\<lparr>last_event_sequence := q\<rparr>) t" "terminal s = None"
    and "unat q = Suc (unat (last_event_sequence s))"
  shows "reduce (deliver q i body) s = ([], t)"
  unfolding deliver_def
  by (rule engine_accepts) (use assms in \<open>simp_all add: exact_def in_sequence_def\<close>)

lemma find_fresh_last:
  "i \<notin> set (map f ps) \<Longrightarrow> f x = i \<Longrightarrow> find (\<lambda>p. f p = i) (ps @ [x]) = Some x"
  by (induction ps) auto

lemma find_pending_last:
  "i \<notin> set (pending_ids ps) \<Longrightarrow> pending_controls s = ps @ [\<lparr>pc_request_id = i, pc_kind = k\<rparr>] \<Longrightarrow>
     find_pending i s = Some \<lparr>pc_request_id = i, pc_kind = k\<rparr>"
  by (simp add: find_pending_def find_fresh_last del: set_map)

lemma cancel_key:
  assumes "app_inv s" "terminal s = None" "\<not> cancel_requested s" "unat (next_request_id s) + 1 < 2 ^ 64"
  obtains s' where
    "reduce (Key (KeyChar CHR ''q'') KeyPress) s
       = ([SendControl \<lparr>cc_request_id = next_request_id s, cc_kind = CancelScan\<rparr>], s')"
    "find_pending (next_request_id s) s' = Some \<lparr>pc_request_id = next_request_id s, pc_kind = CancelScan\<rparr>"
    "terminal s' = None" "scan_state s' = scan_state s" "last_event_sequence s' = last_event_sequence s"
    "provisional_plan s' = provisional_plan s" "0 < unat (next_request_id s)"
proof -
  have inv: "ids_inv s" "cancel_inv s"
    using assms(1) by (auto simp: app_inv_def)
  then have fresh: "next_request_id s \<notin> set (pending_ids (pending_controls s))" "0 < unat (next_request_id s)"
    by (auto simp: ids_inv_def)
  have "\<not> has_pending CancelScan s"
    using inv(2) assms(3) by (simp add: cancel_inv_def has_pending_iff)
  then have "reduce (Key (KeyChar CHR ''q'') KeyPress) s
      = ([SendControl \<lparr>cc_request_id = next_request_id s, cc_kind = CancelScan\<rparr>],
         s\<lparr>next_request_id := next_request_id s + 1,
           pending_controls := pending_controls s @ [\<lparr>pc_request_id = next_request_id s, pc_kind = CancelScan\<rparr>],
           cancel_requested := True,
           banner := Some (Text (''Cancellation requested; waiting for the engine'' @ ellipsis))\<rparr>)"
    using assms(2-4) by (simp add: reduce_key_def request_once_def try_next_control_def checked_add_def Let_def)
  then show thesis
    by (rule that) (use assms(2) fresh in \<open>simp_all add: find_pending_last [OF fresh(1)]\<close>)
qed

abbreviation cancellable :: "scan_state \<Rightarrow> bool" where
  "cancellable st \<equiv> st \<in> {Running, Paused, BuildingProvisionalPlan, PlanReady}"

lemma cancel_deliveries:
  assumes find: "find_pending i s = Some \<lparr>pc_request_id = i, pc_kind = CancelScan\<rparr>"
    and "terminal s = None" "cancellable (scan_state s)" "i \<noteq> 0"
    and q: "unat (last_event_sequence s) + 4 < 2 ^ 64" "q = last_event_sequence s"
  shows "\<exists>t. run reduce (tl (cancel_script i q reason)) s = ([], t) \<and>
           terminal t = Some (TermCancelled reason) \<and> scan_state t = Cancelled"
proof -
  have q_unat: "unat (q + 1) = Suc (unat q)" "unat (q + 2) = Suc (unat (q + 1))"
      "unat (q + 3) = Suc (unat (q + 2))" "unat (q + 4) = Suc (unat (q + 3))"
    using word_add_unat [of q 1] word_add_unat [of q 2] word_add_unat [of q 3] word_add_unat [of q 4] q
    by simp_all
  let ?o = "\<lambda>ph. \<lparr>ar_request_id = i, ar_kind = CancelScan, ar_phase = ph\<rparr>"
  let ?a = "\<lparr>ca_control = control_as_i32 CancelScan, ca_resulting_state = scan_state_as_i32 Cancelling\<rparr>"
  let ?c = "\<lambda>st r. \<lparr>sc_state = scan_state_as_i32 st, sc_reason = r\<rparr>"
  obtain t1 where 1: "engine_step i (accepted_to CancelScan Cancelling) (s\<lparr>last_event_sequence := q + 1\<rparr>) t1"
      "active_request t1 = Some (?o AwaitingStateConfirmation)" "scan_state t1 = Cancelling"
      "terminal t1 = None" "last_event_sequence t1 = q + 1"
    using engine_step.acknowledge [of i "s\<lparr>last_event_sequence := q + 1\<rparr>" _ ?a Cancelling] find assms(2,3)
    by (force simp: accepted_to_def find_pending_def phase_after_ack_def)
  obtain t2 where 2: "engine_step i (state_changed Cancelling ''cancel acknowledged'') (t1\<lparr>last_event_sequence := q + 2\<rparr>) t2"
      "active_request t2 = Some (?o AwaitingCancelledState)" "scan_state t2 = Cancelling"
      "terminal t2 = None" "last_event_sequence t2 = q + 2"
    using engine_step.change_state [of i "t1\<lparr>last_event_sequence := q + 2\<rparr>" _ "?c Cancelling ''cancel acknowledged''" Cancelling
        AwaitingCancelledState] 1 \<open>i \<noteq> 0\<close>
    by (force simp: state_changed_def phase_after_state_change_def set_active_phase_def)
  obtain t3 where 3: "engine_step i (state_changed Cancelled ''scan cancelled'') (t2\<lparr>last_event_sequence := q + 3\<rparr>) t3"
      "active_request t3 = Some (?o AwaitingCancelledTerminal)" "scan_state t3 = Cancelled"
      "terminal t3 = None" "last_event_sequence t3 = q + 3"
    using engine_step.change_state [of i "t2\<lparr>last_event_sequence := q + 3\<rparr>" _ "?c Cancelled ''scan cancelled''" Cancelled
        AwaitingCancelledTerminal] 2 \<open>i \<noteq> 0\<close>
    by (force simp: state_changed_def phase_after_state_change_def set_active_phase_def)
  obtain t4 where 4: "engine_step i (ScanCancelled \<lparr>cancel_reason = reason\<rparr>) (t3\<lparr>last_event_sequence := q + 4\<rparr>) t4"
      "scan_state t4 = Cancelled" "terminal t4 = Some (TermCancelled reason)"
    using engine_step.cancelled [of i "t3\<lparr>last_event_sequence := q + 4\<rparr>" "?o AwaitingCancelledTerminal"
        "\<lparr>cancel_reason = reason\<rparr>"] 3 \<open>i \<noteq> 0\<close>
    by auto
  have "reduce (deliver (q + 1) i (accepted_to CancelScan Cancelling)) s = ([], t1)"
    by (rule deliver_step [OF 1(1)]) (use assms(2) q_unat q in simp_all)
  moreover have "reduce (deliver (q + 2) i (state_changed Cancelling ''cancel acknowledged'')) t1 = ([], t2)"
    by (rule deliver_step [OF 2(1)]) (use 1 q_unat in simp_all)
  moreover have "reduce (deliver (q + 3) i (state_changed Cancelled ''scan cancelled'')) t2 = ([], t3)"
    by (rule deliver_step [OF 3(1)]) (use 2 q_unat in simp_all)
  moreover have "reduce (deliver (q + 4) i (ScanCancelled \<lparr>cancel_reason = reason\<rparr>)) t3 = ([], t4)"
    by (rule deliver_step [OF 4(1)]) (use 3 q_unat in simp_all)
  ultimately show ?thesis
    using 4 by (simp add: cancel_script_def)
qed

text \<open>C14: A scan can always be cancelled. In any reachable state of a running, paused or planning
  scan with no cancellation under way, pressing q sends a cancel request, and when the engine
  acknowledges it and reports its three steps, the frontend ends with the cancelled outcome and stops
  nothing by itself.\<close>

theorem cancel_always_possible:
  assumes "s = snd (run reduce es default_app_state)"
    and "terminal s = None" "scan_state s \<in> {Running, Paused, BuildingProvisionalPlan, PlanReady}"
    and "\<not> cancel_requested s"
    and "unat (next_request_id s) + 1 < 2 ^ 64" "unat (last_event_sequence s) + 4 < 2 ^ 64"
  shows "\<exists>t. run reduce (cancel_script (next_request_id s) (last_event_sequence s) reason) s
      = ([SendControl \<lparr>cc_request_id = next_request_id s, cc_kind = CancelScan\<rparr>], t) \<and>
    terminal t = Some (TermCancelled reason) \<and> scan_state t = Cancelled"
proof -
  have "app_inv s" using frontend_inv [of es] assms(1) by simp
  from cancel_key [OF this assms(2,4,5)] obtain s' where
    key: "reduce (Key (KeyChar CHR ''q'') KeyPress) s
       = ([SendControl \<lparr>cc_request_id = next_request_id s, cc_kind = CancelScan\<rparr>], s')"
    and s': "find_pending (next_request_id s) s' = Some \<lparr>pc_request_id = next_request_id s, pc_kind = CancelScan\<rparr>"
      "terminal s' = None" "scan_state s' = scan_state s" "last_event_sequence s' = last_event_sequence s"
      "0 < unat (next_request_id s)"
    by blast
  have "cancellable (scan_state s')" "next_request_id s \<noteq> 0" "unat (last_event_sequence s') + 4 < 2 ^ 64"
    using assms(3,6) s' by (auto simp: unat_gt_0)
  from cancel_deliveries [OF s'(1,2) this s'(4) [symmetric], of reason] key show ?thesis
    by (auto simp: cancel_script_def Let_def simp del: reduce.simps split: prod.splits)
qed

definition running_script :: "ui_event list" where
  "running_script =
     [deliver 1 1 (accepted_to StartScan Running), deliver 2 1 (state_changed Running ''scan started'')]"

theorem cancel_always_possible_witness:
  "let s = snd (run reduce running_script default_app_state) in
   \<exists>t. run reduce (cancel_script (next_request_id s) (last_event_sequence s) ''enough'') s
      = ([SendControl \<lparr>cc_request_id = 2, cc_kind = CancelScan\<rparr>], t) \<and>
    terminal t = Some (TermCancelled ''enough'') \<and> scan_state t = Cancelled"
proof -
  let ?s = "snd (run reduce running_script default_app_state)"
  have "terminal ?s = None" "scan_state ?s = Running" "\<not> cancel_requested ?s"
      "next_request_id ?s = 2" "last_event_sequence ?s = 2"
    by (simp_all add: running_script_def deliver_def accepted_to_def state_changed_def reducer_eval)
  with cancel_always_possible [OF refl, of running_script "''enough''"] show ?thesis
    by (simp add: Let_def)
qed

definition session_script :: "scan_progress \<Rightarrow> ui_event list" where
  "session_script pr =
     running_script @
     [deliver 3 1 (ScanProgress pr),
      Key (KeyChar CHR '' '') KeyPress,
      deliver 4 2 (accepted_to PauseScan Paused),
      deliver 5 2 (state_changed Paused ''pause acknowledged''),
      Key (KeyChar CHR '' '') KeyPress,
      deliver 6 3 (accepted_to ResumeScan Running),
      deliver 7 3 (state_changed Running ''resume acknowledged''),
      deliver 8 3 (ScanProgress pr)] @
     cancel_script 4 8 ''script complete'' @
     [DriverExited (Inr ())]"

text \<open>The session of the frontend's own test: a scan starts, reports progress, is paused, resumed
  and cancelled. The frontend sends exactly one pause, one resume and one cancel, in this order with
  ids 2, 3 and 4, changes its state only on the engine's acknowledgement, and exits with the
  cancelled outcome.\<close>

theorem session_runs_to_cancelled:
  "fst (run reduce (session_script pr) default_app_state)
     = [SendControl \<lparr>cc_request_id = 2, cc_kind = PauseScan\<rparr>,
        SendControl \<lparr>cc_request_id = 3, cc_kind = ResumeScan\<rparr>,
        SendControl \<lparr>cc_request_id = 4, cc_kind = CancelScan\<rparr>] \<and>
   terminal (snd (run reduce (session_script pr) default_app_state))
     = Some (TermCancelled ''script complete'') \<and>
   should_exit (snd (run reduce (session_script pr) default_app_state))"
  by (simp add: session_script_def running_script_def cancel_script_def deliver_def accepted_to_def
      state_changed_def reducer_eval should_exit_def)

end
