(* ===== verification/App.thy ===== *)
theory App
  imports Reducer_Control
begin

text \<open>
  The application loop, \<open>diskplan-cli/src/tui/app.rs\<close>: draw, leave when the state says so, wait for
  an event, reduce it and carry out its effects. The terminal, the event source and the control sink
  are what they are in the code, parameters: the event source is the script of its results, the sink
  and the terminal are functions on states of their own.
\<close>

section \<open>Definitions\<close>

record 'c control_sink =
  sink_send :: "control_command \<Rightarrow> 'c \<Rightarrow> (io_error + unit) \<times> 'c"
  sink_stop :: "'c \<Rightarrow> (io_error + unit) \<times> 'c"

text \<open>The \<open>Display\<close> form of an I/O error of this program is its message.\<close>

fun show_io_error :: "io_error \<Rightarrow> string" where
  "show_io_error (IoError kind message) = message"

definition perform_effect :: "'c control_sink \<Rightarrow> effect \<Rightarrow> 'c \<Rightarrow> (string + unit) \<times> 'c" where
  "perform_effect sink effect c =
     (case effect of
        SendControl command \<Rightarrow>
          (case sink_send sink command c of
             (Inl e, c) \<Rightarrow> (Inl (''failed to send engine control: '' @ show_io_error e), c)
           | (Inr _, c) \<Rightarrow> (Inr (), c))
      | StopDriver \<Rightarrow>
          (case sink_stop sink c of
             (Inl e, c) \<Rightarrow> (Inl (''failed to stop engine driver: '' @ show_io_error e), c)
           | (Inr _, c) \<Rightarrow> (Inr (), c)))"

text \<open>A control that could not be delivered counts as the driver's failed exit.\<close>

fun perform_effects :: "'c control_sink \<Rightarrow> effect list \<Rightarrow> app_state \<Rightarrow> 'c \<Rightarrow> app_state \<times> 'c" where
  "perform_effects sink [] s c = (s, c)"
| "perform_effects sink (e # es) s c =
     (case perform_effect sink e c of
        (Inl detail, c) \<Rightarrow>
          perform_effects sink es
            ((snd (reduce (DriverExited (Inl detail)) s))\<lparr>terminal := Some (TermFailed (Text detail))\<rparr>) c
      | (Inr _, c) \<Rightarrow> perform_effects sink es s c)"

text \<open>How the loop ends; \<open>Waiting\<close> when the script of events is over and the loop still waits.\<close>

datatype app_outcome = Returned app_state | AppError io_error | Waiting app_state

fun application_loop ::
  "(app_state \<Rightarrow> 't \<Rightarrow> io_error + 't) \<Rightarrow> 'c control_sink \<Rightarrow> (io_error + ui_event) list \<Rightarrow>
     app_state \<Rightarrow> 't \<Rightarrow> 'c \<Rightarrow> app_outcome \<times> 'c" where
  "application_loop draw sink source s t c =
     (case draw s t of
        Inl e \<Rightarrow> (AppError e, c)
      | Inr t \<Rightarrow>
          if should_exit s then (Returned s, c)
          else
            (case source of
               [] \<Rightarrow> (Waiting s, c)
             | Inl e # source \<Rightarrow> (AppError e, c)
             | Inr event # source \<Rightarrow>
                 let (effects, s) = reduce event s; (s, c) = perform_effects sink effects s c in
                 application_loop draw sink source s t c))"

declare application_loop.simps [simp del]

definition run_application ::
  "(app_state \<Rightarrow> 't \<Rightarrow> io_error + 't) \<Rightarrow> 'c control_sink \<Rightarrow> (io_error + ui_event) list \<Rightarrow>
     't \<Rightarrow> 'c \<Rightarrow> app_outcome \<times> 'c" where
  "run_application draw sink source t c = application_loop draw sink source default_app_state t c"

section \<open>The loop keeps the invariant\<close>

lemma sink_failure_inv:
  assumes "app_inv s"
  shows "app_inv ((snd (reduce (DriverExited (Inl detail)) s))\<lparr>terminal := Some (TermFailed (Text detail))\<rparr>)"
  using app_inv_exited_failed [OF assms, of "Text detail"] by (cases s) (simp add: fail_with_def)

lemma perform_effects_inv: "app_inv s \<Longrightarrow> app_inv (fst (perform_effects sink es s c))"
proof (induction es arbitrary: s c)
  case (Cons e es)
  obtain r c1 where r: "perform_effect sink e c = (r, c1)" by fastforce
  then show ?case
  proof (cases r)
    case (Inl detail)
    from Cons.IH [OF sink_failure_inv [OF Cons.prems], of detail c1] r Inl show ?thesis
      by (simp del: reduce.simps)
  qed (use Cons r in simp)
qed simp

lemma application_loop_inv:
  "app_inv s \<Longrightarrow> application_loop draw sink source s t c = (Returned s', c') \<Longrightarrow>
     app_inv s' \<and> should_exit s'"
proof (induction source arbitrary: s t c)
  case Nil
  then show ?case
    by (subst (asm) application_loop.simps) (auto split: sum.splits if_splits)
next
  case (Cons r source)
  show ?case
  proof (cases "\<exists>t'. draw s t = Inr t' \<and> \<not> should_exit s \<and> is_ok r")
    case True
    then obtain t' event where ev: "draw s t = Inr t'" "\<not> should_exit s" "r = Inr event"
      by (auto simp: is_ok_iff)
    obtain fx s1 where s1: "reduce event s = (fx, s1)" by fastforce
    obtain s2 c2 where s2: "perform_effects sink fx s1 c = (s2, c2)" by fastforce
    have "app_inv s2"
      using perform_effects_inv [OF reduce_keeps_inv [OF s1 Cons.prems(1)]] s2 by (metis fst_conv)
    from Cons.IH [OF this] Cons.prems(2) ev s1 s2 show ?thesis
      by (subst (asm) application_loop.simps) simp
  next
    case False
    with Cons.prems show ?thesis
      by (subst (asm) application_loop.simps) (auto split: sum.splits if_splits)
  qed
qed

text \<open>Whatever the terminal, the events and the control sink do, the application returns only a
  consistent state that has an outcome and whose driver has exited.\<close>

theorem application_returns_consistent:
  assumes "run_application draw sink source t c = (Returned s, c')"
  shows "app_inv s \<and> terminal s \<noteq> None \<and> driver_exited s"
  using application_loop_inv [OF app_inv_default, of draw sink source t c s c'] assms
  by (auto simp: run_application_def should_exit_def)

section \<open>Sinks that work\<close>

lemma reduce_not_exit:
  "reduce e s = (fx, s') \<Longrightarrow> app_inv s \<Longrightarrow> should_exit s' \<longleftrightarrow> should_exit s \<or> (\<exists>r. e = DriverExited r)"
  using reduce_keeps_inv [of e s fx s'] reduce_driver_exited [of e s fx s']
  by (auto simp: should_exit_def app_inv_def)

text \<open>A sink that accepts the next effects it is asked for, and what it has taken.\<close>

locale accepting_sink =
  fixes sink :: "'c control_sink"
    and accepting :: "nat \<Rightarrow> 'c \<Rightarrow> bool"
    and take_effects :: "effect list \<Rightarrow> 'c \<Rightarrow> 'c"
  assumes accepts: "accepting (Suc n) c \<Longrightarrow> perform_effect sink e c = (Inr (), take_effects [e] c)"
    and take_nothing: "take_effects [] c = c"
    and take_more: "take_effects (es @ fs) c = take_effects fs (take_effects es c)"
    and still_accepting: "accepting (length es + n) c \<Longrightarrow> accepting n (take_effects es c)"
begin

lemma perform_all: "accepting (length es + n) c \<Longrightarrow> perform_effects sink es s c = (s, take_effects es c)"
proof (induction es arbitrary: c)
  case (Cons e es)
  have "accepting (length es + n) (take_effects [e] c)"
    using still_accepting [of "[e]" "length es + n" c] Cons.prems by simp
  with Cons show ?case
    using take_more [of "[e]" es c] by (simp add: accepts)
qed (simp add: take_nothing)

lemma loop_runs_reducer:
  "app_inv s \<Longrightarrow> \<not> should_exit s \<Longrightarrow> \<forall>e \<in> set es. \<forall>r. e \<noteq> DriverExited r \<Longrightarrow>
     accepting (length (fst (run reduce (es @ [DriverExited r]) s)) + n) c \<Longrightarrow>
     application_loop (\<lambda>s t. Inr t) sink (map Inr (es @ DriverExited r # later)) s t c
       = (Returned (snd (run reduce (es @ [DriverExited r]) s)),
          take_effects (fst (run reduce (es @ [DriverExited r]) s)) c)"
proof (induction es arbitrary: s c)
  case Nil
  obtain fx s' where st: "reduce (DriverExited r) s = (fx, s')" by fastforce
  have "should_exit s'" using reduce_not_exit [OF st Nil.prems(1)] by simp
  then have "application_loop (\<lambda>s t. Inr t) sink (map Inr later) s' t c' = (Returned s', c')" for c'
    by (subst application_loop.simps) simp
  moreover have "perform_effects sink fx s' c = (s', take_effects fx c)"
    using Nil.prems(4) st by (intro perform_all [of _ n]) (simp del: reduce.simps)
  ultimately show ?case
    using Nil.prems(2) st by (subst application_loop.simps) (simp del: reduce.simps)
next
  case (Cons e es)
  obtain fx s' where st: "reduce e s = (fx, s')" by fastforce
  have "\<not> should_exit s'" "app_inv s'"
    using reduce_not_exit [OF st Cons.prems(1)] reduce_keeps_inv [OF st Cons.prems(1)] Cons.prems(2,3) by auto
  note alive = this
  let ?rest = "fst (run reduce (es @ [DriverExited r]) s')"
  have "accepting (length fx + (length ?rest + n)) c"
    using Cons.prems(4) st by (simp add: run_Cons_fst add.assoc del: reduce.simps run.simps)
  with perform_all still_accepting have "perform_effects sink fx s' c = (s', take_effects fx c)"
    "accepting (length ?rest + n) (take_effects fx c)" by blast+
  with Cons.IH [OF alive(2,1) _ this(2)] Cons.prems(2,3) st show ?case
    by (subst application_loop.simps)
      (simp add: take_more run_Cons_fst run_Cons_snd del: reduce.simps run.simps)
qed

lemma application_runs:
  "\<forall>e \<in> set es. \<forall>r. e \<noteq> DriverExited r \<Longrightarrow>
     accepting (length (fst (run reduce (es @ [DriverExited r]) default_app_state)) + n) c \<Longrightarrow>
     run_application (\<lambda>s t. Inr t) sink (map Inr (es @ DriverExited r # later)) t c
       = (Returned (snd (run reduce (es @ [DriverExited r]) default_app_state)),
          take_effects (fst (run reduce (es @ [DriverExited r]) default_app_state)) c)"
  unfolding run_application_def by (rule loop_runs_reducer) (simp_all add: app_inv_default should_exit_def)

end

text \<open>The sink of the frontend's tests: it records what it is asked and never fails.\<close>

definition recording_sink :: "effect list control_sink" where
  "recording_sink = \<lparr>sink_send = (\<lambda>command c. (Inr (), c @ [SendControl command])),
     sink_stop = (\<lambda>c. (Inr (), c @ [StopDriver]))\<rparr>"

interpretation recorded: accepting_sink recording_sink "\<lambda>_ _. True" "\<lambda>es c. c @ es"
  by unfold_locales (simp_all add: perform_effect_def recording_sink_def split: effect.split)

text \<open>With a terminal that draws and a sink that accepts, the application is exactly a run of the
  reducer up to the driver's exit: it returns the reducer's state, has asked the sink for exactly the
  reducer's effects in order, and reads no event after the driver's exit.\<close>

theorem application_runs_reducer:
  assumes "\<forall>e \<in> set es. \<forall>r. e \<noteq> DriverExited r"
  shows "run_application (\<lambda>s t. Inr t) recording_sink (map Inr (es @ DriverExited r # later)) t []
    = (Returned (snd (run reduce (es @ [DriverExited r]) default_app_state)),
       fst (run reduce (es @ [DriverExited r]) default_app_state))"
  using recorded.application_runs [OF assms, of r later t "[]"] by simp

theorem application_runs_reducer_witness:
  "fst (run_application (\<lambda>s t. Inr t) recording_sink
      (map Inr ([Key (KeyChar CHR ''q'') KeyPress] @ DriverExited (Inr ()) # [Resize])) () [])
   = Returned (snd (run reduce [Key (KeyChar CHR ''q'') KeyPress, DriverExited (Inr ())] default_app_state))"
  using application_runs_reducer [of "[Key (KeyChar CHR ''q'') KeyPress]" "Inr ()" "[Resize]" "()"]
  by (simp del: run.simps reduce.simps)

theorem application_returns_consistent_witness:
  "app_inv (snd (run reduce [DriverExited (Inl ''gone'')] default_app_state))"
proof -
  have "run_application (\<lambda>s t. Inr t) recording_sink [Inr (DriverExited (Inl ''gone''))] () []
      = (Returned (snd (run reduce [DriverExited (Inl ''gone'')] default_app_state)), [])"
    using recorded.application_runs [of "[]" "Inl ''gone''" "[]" "()" "[]"] by simp
  from application_returns_consistent [OF this] show ?thesis by blast
qed

text \<open>C38: The frontend never hangs on a driver that is gone: as soon as one control cannot be
  delivered, the application returns, without waiting for another event, with the failed outcome that
  names the error.\<close>

theorem undeliverable_control_ends_application:
  assumes "draw s t = Inr t'" "\<not> should_exit s" "reduce event s = ([effect], s1)"
    and "perform_effect sink effect c = (Inl detail, c')"
    and "\<And>s. draw s t' = Inr t''"
  shows "\<exists>s2. application_loop draw sink (Inr event # source) s t c = (Returned s2, c') \<and>
    terminal s2 = Some (TermFailed (Text detail)) \<and> scan_state s2 = Failed"
proof -
  let ?s2 = "(snd (reduce (DriverExited (Inl detail)) s1))\<lparr>terminal := Some (TermFailed (Text detail))\<rparr>"
  have "should_exit ?s2" "scan_state ?s2 = Failed"
    by (simp_all add: should_exit_def fail_with_def)
  moreover from this have "application_loop draw sink source ?s2 t' c' = (Returned ?s2, c')"
    using assms(5) by (subst application_loop.simps) (simp del: reduce.simps)
  ultimately show ?thesis
    using assms(1-4) by (subst application_loop.simps) (auto simp del: reduce.simps)
qed

definition broken_sink :: "unit control_sink" where
  "broken_sink = \<lparr>sink_send = (\<lambda>command c. (Inl (IoError BrokenPipe ''engine driver stopped''), c)),
     sink_stop = (\<lambda>c. (Inl (IoError BrokenPipe ''engine driver stopped''), c))\<rparr>"

theorem undeliverable_control_ends_application_witness:
  "\<exists>s2. application_loop (\<lambda>s t. Inr t) broken_sink [Inr (Key (KeyChar CHR ''q'') KeyPress)] default_app_state () ()
      = (Returned s2, ()) \<and>
    terminal s2 = Some (TermFailed (Text ''failed to send engine control: engine driver stopped''))"
proof -
  obtain s1 where s1: "reduce (Key (KeyChar CHR ''q'') KeyPress) default_app_state
      = ([SendControl \<lparr>cc_request_id = 2, cc_kind = CancelScan\<rparr>], s1)"
    by (simp add: reducer_eval)
  have "perform_effect broken_sink (SendControl \<lparr>cc_request_id = 2, cc_kind = CancelScan\<rparr>) ()
      = (Inl ''failed to send engine control: engine driver stopped'', ())"
    by (simp add: perform_effect_def broken_sink_def)
  from undeliverable_control_ends_application [where draw = "\<lambda>s t. Inr t" and t = "()" and source = "[]",
      OF _ _ s1 this] show ?thesis
    by (auto simp: should_exit_def)
qed

end
