(* ===== verification/Pipeline.thy ===== *)
theory Pipeline
  imports Event_Queue_Laws Reducer_Control
begin

text \<open>
  Driver, channel and reducer together: the channel's compaction is exactly what the reducer's
  sequence check allows for, so events that the engine numbered without a gap never fail it.
\<close>

definition is_engine :: "ui_event \<Rightarrow> bool" where
  "is_engine e = (case e of Engine d \<Rightarrow> True | _ \<Rightarrow> False)"

text \<open>The events that come from the channel, as opposed to the terminal.\<close>

fun from_channel :: "ui_event \<Rightarrow> bool" where
  "from_channel (Engine d) = True"
| "from_channel (DriverExited r) = True"
| "from_channel _ = False"

lemma deliveries_append: "deliveries (es @ fs) = deliveries es @ deliveries fs"
  by (induction es rule: deliveries.induct) simp_all

lemma deliveries_from_channel: "deliveries (filter from_channel es) = deliveries es"
  by (induction es rule: deliveries.induct) simp_all

lemma consecutive_upt:
  "consecutive (x # xs) \<Longrightarrow> x # xs = [x ..< x + Suc (length xs)]"
proof (induction xs arbitrary: x)
  case (Cons y ys)
  then have y: "y = Suc x" "consecutive (y # ys)" by auto
  have "[x ..< x + Suc (length (y # ys))] = x # [Suc x ..< x + Suc (length (y # ys))]"
    by (rule upt_conv_Cons) simp
  also have "[Suc x ..< x + Suc (length (y # ys))] = y # ys"
    using Cons.IH [OF y(2)] y(1) by (simp del: upt_Suc)
  finally show ?case by simp
qed simp

lemma consecutive_upt_last:
  assumes "consecutive ns" "ns \<noteq> []"
  shows "ns = [Suc (last ns) - length ns ..< Suc (last ns)]" "length ns \<le> Suc (last ns)"
proof -
  obtain x xs where ns: "ns = x # xs" using assms(2) by (cases ns) auto
  have up: "ns = [x ..< x + Suc (length xs)]"
    using consecutive_upt assms(1) ns by blast
  then have "last ns = x + length xs"
    by (metis add_Suc_right last_snoc le_add1 upt_Suc)
  with up show "ns = [Suc (last ns) - length ns ..< Suc (last ns)]" "length ns \<le> Suc (last ns)"
    by (simp_all add: ns)
qed

lemma block_covered:
  assumes "block_of e b"
  shows "concat (map covered (deliveries [e])) = map engine_number (filter is_engine b)"
    and "e = Engine d \<Longrightarrow> skipped_progress_events d = 0 \<or> is_progress_event e"
proof -
  have stands: "stands_for e b" "list_all exact_event b"
    using assms by (auto simp: block_of_def)
  show "concat (map covered (deliveries [e])) = map engine_number (filter is_engine b)"
    using stands(1) unfolding stands_for_def
  proof
    assume "b = [e]"
    with stands(2) show ?thesis
      by (cases e) (simp_all add: covered_def exact_event_def is_engine_def engine_number_def)
  next
    assume "\<exists>d. last b = Engine (exact d) \<and> (\<forall>x \<in> set b. is_progress_event x) \<and>
          consecutive (map engine_number b) \<and>
          (\<exists>k. unat k + 1 = length b \<and> e = Engine ((exact d)\<lparr>skipped_progress_events := k\<rparr>))"
    then obtain d k where b: "last b = Engine (exact d)" "\<forall>x \<in> set b. is_progress_event x"
        "consecutive (map engine_number b)" "unat k + 1 = length b"
        "e = Engine ((exact d)\<lparr>skipped_progress_events := k\<rparr>)"
      by blast
    have ne: "b \<noteq> []" using b(4) by auto
    have "filter is_engine b = b"
      using b(2) by (auto simp: is_engine_def is_progress_event_def filter_id_conv split: ui_event.splits)
    moreover have "last (map engine_number b) = unat (event_sequence d)"
      using ne b(1) by (simp add: last_map engine_number_def exact_def)
    ultimately show ?thesis
      using consecutive_upt_last [OF b(3)] ne b(4,5)
      by (simp add: covered_def exact_def del: upt_Suc) (metis Suc_eq_plus1 diff_Suc_Suc)
  qed
  assume "e = Engine d"
  with stands show "skipped_progress_events d = 0 \<or> is_progress_event e"
    by (auto simp: stands_for_def exact_event_def exact_def)
       (metis is_progress_event_skipped last_in_set list.size(3) nat.distinct(1) exact_def
         engine_delivery.update_convs(2))
qed

lemma blocks_covered:
  "list_all2 block_of es blocks \<Longrightarrow>
     concat (map covered (deliveries es)) = map engine_number (filter is_engine (concat blocks))"
proof (induction es blocks rule: list_all2_induct)
  case (Cons e es b blocks)
  then show ?case
    using block_covered(1) [OF Cons.hyps(1)] by (simp add: deliveries_Cons [of e es])
qed simp

lemma covered_next:
  assumes "[1 ..< Suc l] @ covered d @ rest = [1 ..< n]"
  shows "unat (event_sequence (dl_event d)) = l + 1 + unat (skipped_progress_events d)"
proof -
  let ?q = "unat (event_sequence (dl_event d))" and ?k = "unat (skipped_progress_events d)"
  have ne: "covered d = (?q - ?k) # [Suc (?q - ?k) ..< Suc ?q]"
    by (simp add: covered_def upt_conv_Cons del: upt_Suc)
  have "l < length [1 ..< n]"
    by (subst assms [symmetric]) (simp add: ne)
  then have "[1 ..< n] ! l = Suc l" by (simp add: nth_upt)
  moreover have "([1 ..< Suc l] @ covered d @ rest) ! l = ?q - ?k"
    by (simp add: ne nth_append)
  ultimately have "?q - ?k = Suc l"
    using assms by (metis)
  then show ?thesis by simp
qed

text \<open>C6: The driver's thread and the user interface never disagree about the event numbers. Let the
  engine events taken into the channel be numbered 1, 2, 3 and so on (what the session guarantees of
  the events it reads), let sends and receives interleave in any way, and let the user interface see
  the events handed out so far, mixed with any keys and resizes: then, while there is no outcome, the
  next engine delivery handed out is in sequence, so the reducer never stops the driver for a gap that
  coalescing made.\<close>

theorem coalescing_never_breaks_sequence:
  assumes "engine_event_channel capacity = Inr q"
    and "run channel_step ops q = (outs, q')"
    and "map engine_number (filter is_engine (concat (map taken outs))) = [1 ..< n]"
    and "concat (map given outs) = filter from_channel es @ Engine d # later"
    and "terminal (snd (run reduce es default_app_state)) = None"
  shows "in_sequence d (snd (run reduce es default_app_state))"
proof -
  obtain blocks where blocks: "list_all2 block_of (concat (map given outs) @ events q') blocks"
      "concat blocks = concat (map taken outs)"
    using chan.run_compacts [OF new_channel_inv [OF assms(1)], of "[]" ops] assms(1,2)
    by (auto simp: new_channel)
  let ?l = "unat (last_event_sequence (frontend es))"
  have "concat (map covered (deliveries (concat (map given outs) @ events q'))) = [1 ..< n]"
    using blocks_covered [OF blocks(1)] assms(3) blocks(2) by simp
  moreover have "concat (map covered (deliveries es)) = [1 ..< Suc ?l]"
    using run_covers [OF assms(5)] by simp
  ultimately have "[1 ..< Suc ?l] @ covered d @ concat (map covered (deliveries (later @ events q'))) = [1 ..< n]"
    by (simp add: assms(4) deliveries_append deliveries_from_channel del: upt_Suc)
  from covered_next [OF this]
  have num: "unat (event_sequence (dl_event d)) = ?l + 1 + unat (skipped_progress_events d)" .
  from blocks(1) obtain b where "block_of (Engine d) b"
    unfolding assms(4) by (auto simp: list_all2_append1 list_all2_Cons1)
  from block_covered(2) [OF this refl] have "skipped_progress_events d = 0 \<or> is_scan_progress (ev_body (dl_event d))"
    by (auto simp: is_progress_event_def split: option.splits engine_body.splits)
  with num show ?thesis
    by (simp add: in_sequence_def)
qed

definition ready_channel :: event_queue where
  "ready_channel = \<lparr>events = [], semantic_events = 0, semantic_capacity = 16,
     producer_closed = False, receiver_closed = False\<rparr>"

theorem coalescing_never_breaks_sequence_witness:
  "in_sequence ((exact (progress_event 2 default_progress))\<lparr>skipped_progress_events := 1\<rparr>)
     (snd (run reduce [Resize] default_app_state))"
proof -
  let ?ops = "[SendEngine (progress_event 1 default_progress), SendEngine (progress_event 2 default_progress), Receive]"
  have ch: "engine_event_channel 16 = Inr ready_channel"
    by (simp add: engine_event_channel_def ready_channel_def)
  have outs: "run channel_step ?ops ready_channel =
      ([Took (Engine (exact (progress_event 1 default_progress))), Took (Engine (exact (progress_event 2 default_progress))),
        Gave (Engine ((exact (progress_event 2 default_progress))\<lparr>skipped_progress_events := 1\<rparr>))], ready_channel)"
    by (simp add: channel_eval progress_event_def ready_channel_def)
  show ?thesis
    by (rule coalescing_never_breaks_sequence [OF ch outs, where n = 3 and later = "[]"])
      (simp_all add: is_engine_def engine_number_def progress_event_def exact_def upt_rec)
qed

end
