(* ===== verification/Worker_Thread.thy ===== *)
theory Worker_Thread
  imports Driver App Pipeline
begin

text \<open>
  The two threads of the frontend together: the driver's thread from its start to its last message
  (\<open>diskplan-cli/src/tui/driver.rs\<close>), the texts of the errors it reports, and the source of events the
  application waits on (\<open>TerminalEventSource\<close> of \<open>tui/event.rs\<close>).
\<close>

section \<open>Texts of the errors\<close>

text \<open>The formats of the standard library: \<open>Display\<close> of an \<open>i32\<close>, \<open>Debug\<close> of an \<open>Option<i32>\<close> and of a
  duration in milliseconds.\<close>

definition show_i32 :: "i32 \<Rightarrow> string" where
  "show_i32 v = (if sint v < 0 then ''-'' @ show_nat (nat (- sint v)) else show_nat (nat (sint v)))"

fun debug_code :: "i32 option \<Rightarrow> string" where
  "debug_code None = ''None''"
| "debug_code (Some v) = ''Some('' @ show_i32 v @ '')''"

definition millis_fraction :: "nat \<Rightarrow> string" where
  "millis_fraction n =
     (if n = 0 then ''''
      else if n mod 100 = 0 then ''.'' @ [digit (n div 100)]
      else if n mod 10 = 0 then ''.'' @ [digit (n div 100), digit (n div 10 mod 10)]
      else ''.'' @ [digit (n div 100), digit (n div 10 mod 10), digit (n mod 10)])"

definition debug_duration :: "nat \<Rightarrow> string" where
  "debug_duration ms =
     (if ms = 0 then ''0ns''
      else if ms < 1000 then show_nat ms @ ''ms''
      else show_nat (ms div 1000) @ millis_fraction (ms mod 1000) @ ''s'')"

fun frame_error_display :: "frame_error \<Rightarrow> string" where
  "frame_error_display (FrameIo e) = ''I/O error: '' @ show_io_error e"
| "frame_error_display (TruncatedPrefix received) =
     ''truncated frame prefix: received '' @ show_nat received @ '' of 4 bytes''"
| "frame_error_display (Oversized payload maximum) =
     ''frame payload length '' @ show_nat payload @ '' exceeds maximum '' @ show_nat maximum"
| "frame_error_display (TruncatedPayload expected received) =
     ''truncated frame payload: received '' @ show_nat received @ '' of '' @ show_nat expected @ '' bytes''"

fun accepted_handshake_error_display :: "accepted_handshake_error \<Rightarrow> string" where
  "accepted_handshake_error_display (SequenceMismatch expected actual) =
     ''handshake response sequence '' @ show_u64 actual @ '' does not match request sequence '' @
     show_u64 expected"
| "accepted_handshake_error_display MissingSelectedVersion =
     ''accepted handshake has no selected protocol version''"
| "accepted_handshake_error_display (MajorMismatch expected actual) =
     ''accepted protocol major '' @ show_nat (unat actual) @ '' does not match offered major '' @
     show_nat (unat expected)"
| "accepted_handshake_error_display (MinorOutOfRange offered selected) =
     ''accepted protocol minor '' @ show_nat (unat selected) @ '' exceeds offered minor '' @
     show_nat (unat offered)"
| "accepted_handshake_error_display NonCanonicalCapabilities =
     ''negotiated capabilities are not unique and canonically sorted''"
| "accepted_handshake_error_display (UnofferedCapability c) =
     ''negotiated capability was not offered by the client: '' @ c"
| "accepted_handshake_error_display (MissingRequired c) =
     ''required client capability was not negotiated: '' @ c"

fun client_error_display :: "client_error \<Rightarrow> string" where
  "client_error_display (Io e) = ''I/O error: '' @ show_io_error e"
| "client_error_display (Frame e) = ''framing error: '' @ frame_error_display e"
| "client_error_display (Protobuf e) = ''protobuf decode error: '' @ e"
| "client_error_display CleanEof = ''engine closed stdout before sending a complete response''"
| "client_error_display (Timeout phase timeout) =
     ''timed out waiting for engine '' @ phase @ '' after '' @ debug_duration timeout"
| "client_error_display (UnexpectedResponse phase) =
     ''engine sent an unexpected response during '' @ phase"
| "client_error_display InvalidRequestId = ''request_id must be non-zero''"
| "client_error_display (ResponseSequenceMismatch expected actual) =
     ''engine response sequence '' @ show_u64 actual @ '' does not match request sequence '' @
     show_u64 expected"
| "client_error_display (EventSequenceMismatch previous actual) =
     ''engine event sequence '' @ show_u64 actual @ '' does not immediately follow '' @ show_u64 previous"
| "client_error_display (EventSequenceExhausted previous) =
     ''engine event sequence space is exhausted after '' @ show_u64 previous"
| "client_error_display (EventEnvelopeSequenceMismatch envelope event) =
     ''engine event envelope sequence '' @ show_u64 envelope @ '' does not match event sequence '' @
     show_u64 event"
| "client_error_display (RejectedByEngine c detail) =
     ''engine rejected the request with code '' @ show_i32 c @ '': '' @ detail"
| "client_error_display (InvalidAcceptance e) =
     ''engine handshake acceptance is invalid: '' @ accepted_handshake_error_display e"
| "client_error_display (EngineFailure c) = ''engine exited with status '' @ debug_code c"
| "client_error_display EngineExitedAfterHandshake =
     ''engine exited after handshake instead of entering the ready state''"
| "client_error_display MissingScanControlCapability =
     ''engine did not negotiate the required scan-control-v1 capability''"
| "client_error_display ExtraFrameAfterShutdown =
     ''engine emitted an extra framed message while shutting down''"
| "client_error_display DecoderDisconnected =
     ''engine stdout decoder disconnected without reporting clean EOF''"
| "client_error_display (CleanupIncomplete child_process_id process_group_id timeout) =
     ''engine cleanup is incomplete: child '' @ show_nat (unat child_process_id) @
     '' in process group '' @ show_nat (unat process_group_id) @
     '' did not exit after SIGKILL within '' @ debug_duration timeout @
     ''; reaping continues in the background''"
| "client_error_display (ProcessGroupCleanupIncomplete process_group_id timeout) =
     ''engine cleanup is incomplete: process group '' @ show_nat (unat process_group_id) @
     '' still exists after SIGKILL and '' @ debug_duration timeout"

section \<open>The driver's thread and its handle\<close>

text \<open>What the thread puts into the channel: the engine's events, then the driver's exit. A panic
  would end it without the exit.\<close>

definition worker_thread ::
  "'w wire \<Rightarrow> io_error + u32 \<times> 'w \<times> recv_event list \<Rightarrow> os \<Rightarrow> (io_error + unit) list \<Rightarrow> polled list \<Rightarrow>
     ui_event list" where
  "worker_thread wire spawned w ingress commands =
     (let (result, events, _) = run_engine wire spawned w ingress commands in
      map (\<lambda>event. Engine (exact event)) events @
      (case result of
         Inr _ \<Rightarrow> [DriverExited (Inr ())]
       | Inl (Error e) \<Rightarrow> [DriverExited (Inl (client_error_display e))]
       | Inl (Panic _) \<Rightarrow> []))"

text \<open>\<open>EngineDriver::spawn\<close>, with the outcome of starting the thread and how long it will listen.\<close>

definition spawn_driver :: "io_error + unit \<Rightarrow> bool list \<Rightarrow> io_error + driver_handle \<times> event_queue" where
  "spawn_driver thread_started listens =
     bindR (engine_event_channel SEMANTIC_EVENT_CAPACITY) (\<lambda>channel.
     bindR thread_started (\<lambda>_.
     Inr (\<lparr>has_commands = True, worker_listens = listens, delivered = []\<rparr>, channel)))"

text \<open>The handle as the application's control sink.\<close>

definition driver_sink :: "driver_handle control_sink" where
  "driver_sink = \<lparr>sink_send = send_control, sink_stop = request_stop\<rparr>"

section \<open>The source of events\<close>

text \<open>What the terminal delivers, and what \<open>select!\<close> finds ready next, the channel or the terminal;
  a script that is over leaves the application waiting.\<close>

datatype terminal_event = TermKey key_code key_event_kind | TermResize | TermOther

datatype ready = FromEngine "io_error + ui_event" | FromTerminal "(io_error + terminal_event) option"

fun source_next_event :: "ready list \<Rightarrow> (io_error + ui_event) option \<times> ready list" where
  "source_next_event [] = (None, [])"
| "source_next_event (FromEngine r # rs) = (Some r, rs)"
| "source_next_event (FromTerminal (Some (Inr (TermKey c k))) # rs) = (Some (Inr (Key c k)), rs)"
| "source_next_event (FromTerminal (Some (Inr TermResize)) # rs) = (Some (Inr Resize), rs)"
| "source_next_event (FromTerminal (Some (Inr TermOther)) # rs) = source_next_event rs"
| "source_next_event (FromTerminal (Some (Inl e)) # rs) = (Some (Inl e), rs)"
| "source_next_event (FromTerminal None # rs) =
     (Some (Inl (IoError UnexpectedEof ''terminal event source closed'')), rs)"

text \<open>All the results of an application that keeps asking.\<close>

lemma source_next_event_shorter:
  "source_next_event rs = (Some r, rs') \<Longrightarrow> length rs' < length rs"
  by (induction rs rule: source_next_event.induct) auto

function source_events :: "ready list \<Rightarrow> (io_error + ui_event) list" where
  "source_events rs =
     (case source_next_event rs of (None, _) \<Rightarrow> [] | (Some r, rs') \<Rightarrow> r # source_events rs')"
  by pat_completeness auto
termination
  by (relation "measure length") (auto dest: source_next_event_shorter [OF sym])

declare source_events.simps [simp del]

section \<open>The connected thread never panics\<close>

definition never_panics :: "('s, failure, 'a) action \<Rightarrow> bool" where
  "never_panics m \<longleftrightarrow> (\<forall>s message. fst (m s) \<noteq> Inl (Panic message))"

lemma never_panicsD: "never_panics m \<Longrightarrow> m s = (r, s') \<Longrightarrow> r \<noteq> Inl (Panic message)"
  by (metis never_panics_def fst_conv)

lemma never_panics_bindS:
  assumes "never_panics m" "\<And>x. never_panics (k x)"
  shows "never_panics (bindS m k)"
  using assms unfolding never_panics_def bindS_def
  by (auto split: prod.splits sum.splits) (metis fst_conv)+

lemma never_panics_simps:
  "never_panics (returnS x)" "never_panics (failS e) \<longleftrightarrow> (\<forall>message. e \<noteq> Panic message)"
  "(\<And>e message. f e \<noteq> Panic message) \<Longrightarrow> never_panics (map_errS f m)"
  by (auto simp: never_panics_def map_errS_def split: prod.splits sum.splits)

lemma write_envelope_no_panic: "never_panics (write_envelope wire e)"
  by (auto simp: never_panics_def write_envelope_def io_failure_def Let_def split: option.splits sum.splits)

lemma read_envelope_no_panic: "never_panics (read_envelope_with_timeout wire phase timeout)"
proof -
  have "never_panics (bindS (map_errS io_failure observe_exit) (\<lambda>seen. case seen of
      Some status \<Rightarrow> failS (Error (EngineFailure (code status))) | None \<Rightarrow> failS (Error CleanEof)))"
    by (intro never_panics_bindS never_panics_simps(3))
      (auto simp: never_panics_simps io_failure_def split: option.splits)
  then show ?thesis
    unfolding never_panics_def read_envelope_with_timeout_def Let_def
    by (auto split: prod.splits recv_event.splits sum.splits option.splits)
qed

lemma accept_handshake_no_panic: "never_panics (accept_handshake rust_client_hello q a)"
proof -
  have "validate_accepted rust_client_hello HANDSHAKE_SEQUENCE q a \<noteq> None"
    by (auto simp: validate_accepted_def rust_client_hello_def split: option.splits if_splits)
  then show ?thesis
    unfolding never_panics_def accept_handshake_def
    by (auto simp: bindS_def map_errS_def io_failure_def split: option.splits sum.splits prod.splits)
qed

lemma perform_handshake_no_panic: "never_panics (perform_handshake wire)"
proof -
  have "never_panics (read_envelope wire phase)" for phase
    using read_envelope_no_panic unfolding never_panics_def read_envelope_def by blast
  then show ?thesis
    unfolding perform_handshake_def
    by (intro never_panics_bindS write_envelope_no_panic)
      (auto simp: never_panics_simps accept_handshake_no_panic split: option.splits envelope_body.splits)
qed

lemma wait_or_terminate_no_panic: "never_panics wait_or_terminate"
  unfolding never_panics_def
proof (intro allI)
  fix s :: "'a session" and message
  show "fst (wait_or_terminate s) \<noteq> Inl (Panic message)"
  proof (cases "ses_child s")
    case None
    then show ?thesis
      by (simp add: wait_or_terminate_def poll_or_def poll_child_def child_mut_def bindS_def
          map_errS_def io_failure_def)
  next
    case (Some pid)
    then have "settled pid (fst (wait_or_terminate s)) (snd (wait_or_terminate s))"
      by (intro settlesD [OF wait_or_terminate_settles]) simp_all
    then show ?thesis by (simp add: settled_def)
  qed
qed

lemma shutdown_no_panic: "never_panics shutdown"
  unfolding never_panics_def
proof (intro allI)
  fix s :: "'a session" and message
  obtain r t where w: "wait_or_terminate (s\<lparr>ses_stdin := None\<rparr>) = (r, t)" by fastforce
  have "r \<noteq> Inl (Panic m)" for m
    by (rule never_panicsD [OF wait_or_terminate_no_panic w])
  with w show "fst (shutdown s) \<noteq> Inl (Panic message)"
    by (auto simp: shutdown_def drain_stdout_def Let_def bindR_def
        split: prod.splits sum.splits failure.splits recv_event.splits option.splits if_splits)
qed

lemma on_session_no_panic: "never_panics m \<Longrightarrow> never_panics (on_session m)"
  by (auto simp: never_panics_def on_session_def Let_def split: prod.splits) (metis fst_conv)

lemma read_engine_event_no_panic: "never_panics (read_engine_event_with_timeout wire timeout)"
  unfolding read_engine_event_with_timeout_def
  by (intro never_panics_bindS read_envelope_no_panic)
    (auto simp: never_panics_def split: option.splits envelope_body.splits)

lemma send_no_panic:
  "never_panics (send_start_scan wire i p)" "never_panics (send_scan_control wire i c)"
  by (auto simp: send_start_scan_def send_scan_control_def never_panics_simps write_envelope_no_panic)

lemma shutdown_worker_no_panic: "fst (shutdown_worker k) \<noteq> Inl (Panic message)"
  unfolding shutdown_worker_def
  by (rule on_session_no_panic [OF shutdown_no_panic, unfolded never_panics_def, rule_format])

lemma worker_loop_no_panic: "fst (worker_loop wire ps k) \<noteq> Inl (Panic message)"
  by (rule worker_loop_rule [of "\<lambda>_. True" _ wire "\<lambda>out. fst out \<noteq> Inl (Panic message)"])
    (auto simp: shutdown_worker_no_panic fail_worker_def
      dest: never_panicsD [OF on_session_no_panic [OF send_no_panic(2)]]
        never_panicsD [OF on_session_no_panic [OF read_engine_event_no_panic]])

lemma connect_no_panic:
  assumes "\<not> reader_fails spawned w"
  shows "fst (connect wire spawned w) \<noteq> Inl (Panic message)"
  using assms
  by (auto simp: connect_def connect_with_timeout_def spawn_command_def reader_fails_def io_failure_def Let_def
      split: sum.splits prod.splits bool.splits dest: never_panicsD [OF perform_handshake_no_panic])

lemma run_engine_no_panic:
  assumes "\<not> reader_fails spawned w"
  shows "fst (run_engine wire spawned w ingress commands) \<noteq> Inl (Panic message)"
proof -
  have "fst (connect wire spawned w) \<noteq> Inl (Panic message)"
    by (rule connect_no_panic [OF assms])
  moreover have "fst (run_connected wire commands k) \<noteq> Inl (Panic message)" for k :: "'a worker"
    by (auto simp: run_connected_def fail_worker_def worker_loop_no_panic split: sum.splits prod.splits
        dest: never_panicsD [OF on_session_no_panic [OF send_no_panic(1)]])
  ultimately show ?thesis
    by (auto simp: run_engine_def Let_def split: sum.splits prod.splits) (metis fst_conv)+
qed

section \<open>What the thread sends\<close>

lemma worker_thread_sends:
  assumes "\<not> reader_fails spawned w"
  obtains events r n where
    "worker_thread wire spawned w ingress commands = map (\<lambda>event. Engine (exact event)) events @ [DriverExited r]"
    "map (\<lambda>event. unat (event_sequence event)) events = [1 ..< n]"
proof -
  obtain result events w1 where run: "run_engine wire spawned w ingress commands = (result, events, w1)"
    by (cases "run_engine wire spawned w ingress commands")
  with run_engine_no_panic [OF assms, of wire ingress commands] have "result \<noteq> Inl (Panic m)" for m
    by auto
  then have "\<exists>r. worker_thread wire spawned w ingress commands =
      map (\<lambda>event. Engine (exact event)) events @ [DriverExited r]"
    using run by (cases result; cases "projl result") (auto simp: worker_thread_def)
  with driver_sends_contiguous [of wire spawned w ingress commands] run that show thesis by auto
qed

lemma worker_thread_panics:
  assumes "reader_fails spawned w"
  shows "worker_thread wire spawned w ingress commands = []"
  using connect_reader_fails [OF assms, of wire] by (auto simp: worker_thread_def run_engine_def)

text \<open>While only the channel is ready, the source is the channel: every result, in order.\<close>

lemma source_events_engine:
  "\<forall>x \<in> set rs. \<exists>r. x = FromEngine r \<Longrightarrow> map FromEngine (source_events rs) = rs"
proof (induction rs)
  case (Cons x rs)
  then obtain r where "x = FromEngine r" by auto
  with Cons show ?case by (subst source_events.simps) simp
qed (subst source_events.simps, simp)

section \<open>From the engine to the end of the application\<close>

text \<open>Through the channel: what it hands out ends with the driver's exit, the only one.\<close>

lemma block_of_exited: "block_of e b \<Longrightarrow> DriverExited r \<in> set b \<Longrightarrow> e = DriverExited r"
  by (auto simp: block_of_def stands_for_def is_progress_event_def)

lemma exit_comes_out:
  assumes "list_all2 block_of es blocks" "DriverExited r \<in> set (concat blocks)"
  shows "DriverExited r \<in> set es"
proof -
  from assms(2) obtain b where b: "b \<in> set blocks" "DriverExited r \<in> set b" by auto
  with assms(1) obtain e where "e \<in> set es" "block_of e b"
    by (metis in_set_conv_nth list_all2_conv_all_nth)
  with block_of_exited b(2) show ?thesis by blast
qed

text \<open>An exit that the application has seen stays, also when the effects cannot be delivered.\<close>

lemma perform_effects_exited:
  "should_exit s \<Longrightarrow> should_exit (fst (perform_effects sink fx s c))"
proof (induction fx arbitrary: s c)
  case (Cons e fx)
  obtain r c' where r: "perform_effect sink e c = (r, c')" by fastforce
  show ?case
  proof (cases r)
    case (Inl detail)
    have "should_exit ((snd (reduce (DriverExited (Inl detail)) s))\<lparr>terminal := Some (TermFailed (Text detail))\<rparr>)"
      by (simp add: should_exit_def fail_with_def)
    from Cons.IH [OF this, of c'] r Inl show ?thesis by (simp del: reduce.simps)
  qed (use Cons r in simp)
qed simp

lemma application_loop_returns:
  "app_inv s \<Longrightarrow> DriverExited r \<in> set es \<Longrightarrow>
     \<exists>s' c'. application_loop (\<lambda>s t. Inr t) sink (map Inr es) s t c = (Returned s', c')"
proof (induction es arbitrary: s c)
  case (Cons e es)
  obtain fx s1 where s1: "reduce e s = (fx, s1)" by fastforce
  obtain s2 c2 where s2: "perform_effects sink fx s1 c = (s2, c2)" by fastforce
  have step: "application_loop (\<lambda>s t. Inr t) sink (map Inr (e # es)) s t c =
      (if should_exit s then (Returned s, c) else application_loop (\<lambda>s t. Inr t) sink (map Inr es) s2 t c2)"
    using s1 s2 by (subst application_loop.simps) (simp del: reduce.simps)
  show ?case
  proof (cases "e = DriverExited r")
    case True
    with reduce_not_exit [OF s1 Cons.prems(1)] have "should_exit s1" by blast
    with perform_effects_exited [of s1 sink fx c] s2 have "should_exit s2" by simp
    then have "application_loop (\<lambda>s t. Inr t) sink (map Inr es) s2 t c2 = (Returned s2, c2)"
      by (subst application_loop.simps) simp
    with step show ?thesis by auto
  next
    case False
    have "app_inv s2"
      using perform_effects_inv [OF reduce_keeps_inv [OF s1 Cons.prems(1)], of sink fx c] s2 by simp
    with Cons.IH False Cons.prems(2) step show ?thesis by auto
  qed
qed simp

text \<open>A thread that panics lets go of its end of the channel, and the source of events fails.\<close>

definition engine_source_closed :: io_error where
  "engine_source_closed = IoError BrokenPipe ''engine event source closed''"

lemma next_event_closed:
  "events q = [] \<Longrightarrow> fst (next_event (drop_ingress q)) = ReceiveFailed engine_source_closed"
  by (simp add: next_event_def drop_ingress_def engine_source_closed_def)

lemma application_loop_fails:
  "fst (application_loop draw sink (source @ [Inl e]) s t c) \<noteq> Waiting s'"
proof (induction source arbitrary: s t c)
  case Nil
  show ?case by (subst application_loop.simps) (simp split: sum.split)
next
  case (Cons x source)
  then show ?case
    by (subst application_loop.simps) (simp add: Let_def split: sum.split prod.split)
qed

text \<open>The only error of an application that draws is the one its source reports.\<close>

lemma application_loop_error:
  "application_loop (\<lambda>s t. Inr t) sink (map Inr source @ [Inl e]) s t c = (AppError e', c') \<Longrightarrow> e' = e"
proof (induction source arbitrary: s c)
  case Nil
  then show ?case by (subst (asm) application_loop.simps) (simp split: if_splits)
next
  case (Cons x source)
  from Cons.prems show ?case
    by (subst (asm) application_loop.simps)
      (auto simp: Let_def simp del: reduce.simps split: prod.splits if_splits dest: Cons.IH)
qed

lemma exit_reaches_source:
  assumes "engine_event_channel capacity = Inr q"
    and "run channel_step ops q = (outs, q')" "events q' = []"
    and "filter from_channel source = concat (map given outs)"
    and "DriverExited r \<in> set (concat (map taken outs))"
  shows "DriverExited r \<in> set source"
proof -
  obtain blocks where blocks: "list_all2 block_of (concat (map given outs) @ events q') blocks"
      "concat blocks = concat (map taken outs)"
    using chan.run_compacts [OF new_channel_inv [OF assms(1)], of "[]" ops] assms(1,2)
    by (auto simp: new_channel)
  with exit_comes_out [OF blocks(1)] assms(3,5) have "DriverExited r \<in> set (filter from_channel source)"
    by (simp add: assms(4))
  then show ?thesis by simp
qed

section \<open>Properties\<close>

text \<open>C17: The driver's thread always reports its end, unless its session's reader thread cannot be
  started: whatever else the engine, the operating system, the channel and the user interface do, it
  does not panic, and puts into the channel the engine's events, numbered 1, 2, 3 and so on without a
  gap, and after them one driver exit. When the reader thread cannot be started it panics and puts
  nothing into the channel.\<close>

theorem driver_always_reports:
  "if reader_fails spawned w then worker_thread wire spawned w ingress commands = []
   else \<exists>events r n. worker_thread wire spawned w ingress commands =
       map (\<lambda>event. Engine (exact event)) events @ [DriverExited r] \<and>
     map (\<lambda>event. unat (event_sequence event)) events = [1 ..< n]"
proof (cases "reader_fails spawned w")
  case False
  obtain events r n where "worker_thread wire spawned w ingress commands =
      map (\<lambda>event. Engine (exact event)) events @ [DriverExited r]"
    "map (\<lambda>event. unat (event_sequence event)) events = [1 ..< n]"
    by (rule worker_thread_sends [OF False])
  with False show ?thesis by auto
qed (simp add: worker_thread_panics)

text \<open>C8: The frontend always comes to an end. Let the driver's thread put all it sends into the
  channel, let sends and receives interleave in any way until the channel is empty, and let the
  application take what the channel hands out, mixed with any keys and resizes, on a terminal that
  draws and with any control sink, working or failing: then the application returns, in a consistent
  state that has an outcome, whatever the engine did. If the thread panicked, because the reader
  thread could not be started, the channel it has let go of reports an error, and with that the
  application ends too, with a state or with the error.\<close>

theorem frontend_ends_with_driver:
  assumes "engine_event_channel capacity = Inr q"
    and "run channel_step ops q = (outs, q')" and "events q' = []"
    and "concat (map taken outs) = worker_thread wire spawned w ingress commands"
    and "filter from_channel source = concat (map given outs)"
  shows "if reader_fails spawned w
    then fst (next_event (drop_ingress q')) = ReceiveFailed engine_source_closed \<and>
      (\<exists>out c'. run_application (\<lambda>s t. Inr t) sink (map Inr source @ [Inl engine_source_closed]) t c = (out, c') \<and>
         (case out of Returned s \<Rightarrow> app_inv s \<and> terminal s \<noteq> None \<and> driver_exited s
          | AppError e \<Rightarrow> e = engine_source_closed | Waiting s \<Rightarrow> False))
    else \<exists>s c'. run_application (\<lambda>s t. Inr t) sink (map Inr source) t c = (Returned s, c') \<and>
           app_inv s \<and> terminal s \<noteq> None \<and> driver_exited s"
proof (cases "reader_fails spawned w")
  case False
  obtain es r n where "worker_thread wire spawned w ingress commands =
      map (\<lambda>event. Engine (exact event)) es @ [DriverExited r]"
    by (rule worker_thread_sends [OF False])
  with assms(4) have "DriverExited r \<in> set (concat (map taken outs))" by simp
  then have "DriverExited r \<in> set source"
    using exit_reaches_source [OF assms(1-3,5)] by blast
  then obtain s c' where run: "run_application (\<lambda>s t. Inr t) sink (map Inr source) t c = (Returned s, c')"
    using application_loop_returns [OF app_inv_default] unfolding run_application_def by metis
  with False application_returns_consistent [OF run] show ?thesis by auto
next
  case True
  obtain out c' where run: "run_application (\<lambda>s t. Inr t) sink (map Inr source @ [Inl engine_source_closed]) t c
      = (out, c')" by fastforce
  have "case out of Returned s \<Rightarrow> app_inv s \<and> terminal s \<noteq> None \<and> driver_exited s
      | AppError e \<Rightarrow> e = engine_source_closed | Waiting s \<Rightarrow> False"
  proof (cases out)
    case (Returned s)
    with run application_returns_consistent show ?thesis by fastforce
  next
    case (AppError e)
    with run application_loop_error [of sink source engine_source_closed] show ?thesis
      unfolding run_application_def by fastforce
  next
    case (Waiting s)
    with run application_loop_fails show ?thesis
      unfolding run_application_def by (metis fst_conv)
  qed
  with True run next_event_closed [OF assms(3)] show ?thesis by auto
qed

text \<open>An engine that cannot be started: the driver is gone when the application asks it to cancel.\<close>

theorem frontend_ends_with_driver_witness:
  "\<exists>s c'. run_application (\<lambda>s t. Inr t) driver_sink
       (map Inr [Key (KeyChar CHR ''q'') KeyPress, DriverExited (Inl ''I/O error: no such file'')]) ()
       \<lparr>has_commands = True, worker_listens = [False], delivered = []\<rparr> = (Returned s, c') \<and>
     app_inv s \<and> terminal s \<noteq> None \<and> driver_exited s"
proof -
  have ch: "engine_event_channel 16 = Inr ready_channel"
    by (simp add: engine_event_channel_def ready_channel_def)
  have outs: "run channel_step [SendExited (Inl ''I/O error: no such file''), Receive] ready_channel =
      ([Took (DriverExited (Inl ''I/O error: no such file'')), Gave (DriverExited (Inl ''I/O error: no such file''))],
       ready_channel)"
    by (simp add: channel_eval ready_channel_def)
  have sent: "worker_thread sample_wire (Inl (IoError NotFound ''no such file'')) quiet_os [] [] =
      [DriverExited (Inl ''I/O error: no such file'')]"
    by (simp add: worker_thread_def run_engine_def connect_def connect_with_timeout_def spawn_command_def spawn_reaper_def
        quiet_os_def log_def io_failure_def)
  have "\<not> reader_fails (Inl (IoError NotFound ''no such file'') :: io_error + u32 \<times> bytes \<times> recv_event list) quiet_os"
    by (simp add: reader_fails_def)
  then show ?thesis
    using frontend_ends_with_driver [OF ch outs, where wire = sample_wire
        and spawned = "Inl (IoError NotFound ''no such file'')" and w = quiet_os and ingress = "[]" and commands = "[]"
        and sink = driver_sink and t = "()" and c = "\<lparr>has_commands = True, worker_listens = [False], delivered = []\<rparr>"
        and source = "[Key (KeyChar CHR ''q'') KeyPress, DriverExited (Inl ''I/O error: no such file'')]"]
    by (simp add: sent ready_channel_def)
qed

end
