(* ===== verification/Driver_Steps.thy ===== *)
theory Driver_Steps
  imports Worker_Thread
begin

text \<open>
  The driver's thread step by step, beside the application that holds its handle
  (\<open>diskplan-cli/src/tui/driver.rs\<close>): where it stands, the commands in its queue that it has not yet
  looked at, and the channel of events. A send into a full channel waits, and so may a thread that is
  told nothing; dropping the handle waits for the thread. Calls of the operating system return: reads
  and waits have deadlines, and the pipe to the engine is assumed to take what is written.
\<close>

section \<open>The thread\<close>

text \<open>Where the thread stands: before its session, at the inner loop over the commands, at the read of
  one event, at the send of one, back from \<open>run_engine\<close> with its result, and at its end.\<close>

datatype 'w thread =
    Connecting "io_error + u32 \<times> 'w \<times> recv_event list" os
  | AtCommands "'w worker"
  | Polling "'w worker"
  | SendingEvent engine_event "'w worker"
  | Reporting "failure + unit"
  | Ended

type_synonym 'w driver_world = "'w thread \<times> driver_command list \<times> event_queue"

text \<open>\<open>run_engine\<close> owns the receiver of the commands, and drops it, with what is in the queue, when it
  returns.\<close>

fun listening :: "'w thread \<Rightarrow> bool" where
  "listening (Reporting _) = False"
| "listening Ended = False"
| "listening _ = True"

fun ended :: "'w thread \<Rightarrow> bool" where
  "ended Ended = True"
| "ended _ = False"

definition begin_scan :: "'w wire \<Rightarrow> 'w session \<Rightarrow> 'w thread" where
  "begin_scan wire s =
     (let k = \<lparr>wk_session = s, wk_ingress = [], wk_sent = []\<rparr> in
      if \<not> list_ex (\<lambda>c. c = ''scan-control-v1'') (negotiated_capabilities (ses_accepted s))
      then Reporting (fst (fail_worker (Error MissingScanControlCapability) k))
      else
        case on_session (send_start_scan wire 1 ''standard'') k of
          (Inl e, k) \<Rightarrow> Reporting (fst (fail_worker e k))
        | (Inr _, k) \<Rightarrow> AtCommands k)"

fun is_poll_timeout :: "failure \<Rightarrow> bool" where
  "is_poll_timeout (Error (Timeout phase _)) \<longleftrightarrow> phase = ''engine event''"
| "is_poll_timeout _ \<longleftrightarrow> False"

text \<open>One step; \<open>None\<close> when the thread waits for space in the channel. A panic unwinds without a
  report.\<close>

fun thread_step :: "'w wire \<Rightarrow> bool \<Rightarrow> 'w driver_world \<Rightarrow> 'w driver_world option" where
  "thread_step wire sender_open (Connecting spawned w, pending, q) =
     (case connect wire spawned w of
        (Inl e, _) \<Rightarrow> Some (Reporting (Inl e), [], q)
      | (Inr s, _) \<Rightarrow>
          let thread = begin_scan wire s in
          Some (thread, if listening thread then pending else [], q))"
| "thread_step wire sender_open (AtCommands k, [], q) =
     Some (if sender_open then Polling k else Reporting (fst (shutdown_worker k)), [], q)"
| "thread_step wire sender_open (AtCommands k, StopWorker # pending, q) =
     Some (Reporting (fst (shutdown_worker k)), [], q)"
| "thread_step wire sender_open (AtCommands k, ControlDriver control # pending, q) =
     (case on_session (send_scan_control wire (cc_request_id control) (cc_kind control)) k of
        (Inl e, k) \<Rightarrow> Some (Reporting (fst (fail_worker e k)), [], q)
      | (Inr _, k) \<Rightarrow> Some (AtCommands k, pending, q))"
| "thread_step wire sender_open (Polling k, pending, q) =
     (case on_session (read_engine_event_with_timeout wire EVENT_POLL_INTERVAL) k of
        (Inr event, k) \<Rightarrow> Some (SendingEvent event k, pending, q)
      | (Inl e, k) \<Rightarrow>
          if is_poll_timeout e then Some (AtCommands k, pending, q)
          else Some (Reporting (fst (fail_worker e k)), [], q))"
| "thread_step wire sender_open (SendingEvent event k, pending, q) =
     (case send_engine_event event q of
        (Blocked, _) \<Rightarrow> None
      | (SendFailed _, q) \<Rightarrow> Some (Reporting (fst (shutdown_worker k)), [], q)
      | (Sent, q) \<Rightarrow>
          let k = k\<lparr>wk_sent := wk_sent k @ [event]\<rparr> in
          if is_terminal_event (ev_body event) then Some (Reporting (fst (shutdown_worker k)), [], q)
          else Some (AtCommands k, pending, q))"
| "thread_step wire sender_open (Reporting (Inl (Panic message)), pending, q) =
     Some (Ended, [], drop_ingress q)"
| "thread_step wire sender_open (Reporting (Inl (Error e)), pending, q) =
     (case send_driver_exited (Inl (client_error_display e)) q of
        (Blocked, _) \<Rightarrow> None
      | (_, q) \<Rightarrow> Some (Ended, [], drop_ingress q))"
| "thread_step wire sender_open (Reporting (Inr _), pending, q) =
     (case send_driver_exited (Inr ()) q of
        (Blocked, _) \<Rightarrow> None
      | (_, q) \<Rightarrow> Some (Ended, [], drop_ingress q))"
| "thread_step wire sender_open (Ended, pending, q) = Some (Ended, pending, q)"

section \<open>Joining it\<close>

text \<open>Nothing tells the thread to go: it goes on for as long as the engine keeps it waiting.\<close>

fun polls_on :: "bool \<Rightarrow> 'w driver_world \<Rightarrow> bool" where
  "polls_on sender_open (AtCommands k, pending, q) \<longleftrightarrow> sender_open \<and> pending = []"
| "polls_on sender_open _ \<longleftrightarrow> False"

fun steps_left :: "'w driver_world \<Rightarrow> nat" where
  "steps_left (Connecting spawned w, pending, q) = 5 + length pending"
| "steps_left (Polling k, pending, q) = 5 + length pending"
| "steps_left (SendingEvent event k, pending, q) = 4 + length pending"
| "steps_left (AtCommands k, pending, q) = 3 + length pending"
| "steps_left (Reporting r, pending, q) = 1 + length pending"
| "steps_left (Ended, pending, q) = 0"

lemma begin_scan_cases: "(\<exists>k. begin_scan wire s = AtCommands k) \<or> (\<exists>r. begin_scan wire s = Reporting r)"
  by (auto simp: begin_scan_def Let_def split: prod.split sum.split)

lemma begin_scan_left: "steps_left (begin_scan wire s, pending, q) \<le> 3 + length pending"
  using begin_scan_cases [of wire s] by auto

lemma thread_step_left:
  "thread_step wire sender_open world = Some world' \<Longrightarrow> \<not> ended (fst world) \<Longrightarrow>
     \<not> polls_on sender_open world \<Longrightarrow> steps_left world' < steps_left world"
proof (induction wire sender_open world rule: thread_step.induct)
  case (1 wire sender_open spawned w pending q)
  then show ?case
    using begin_scan_left [of wire _ pending q] begin_scan_left [of wire _ "[]" q]
    by (force simp: Let_def intro: le_less_trans split: prod.splits sum.splits if_splits)
qed (auto simp: Let_def split: prod.splits sum.splits send_outcome.splits if_splits)

text \<open>\<open>JoinHandle::join\<close>: the world once the thread has ended, if it does.\<close>

function join_thread :: "'w wire \<Rightarrow> bool \<Rightarrow> 'w driver_world \<Rightarrow> 'w driver_world option" where
  "join_thread wire sender_open world =
     (if ended (fst world) then Some world
      else if polls_on sender_open world then None
      else case thread_step wire sender_open world of
          None \<Rightarrow> None
        | Some world \<Rightarrow> join_thread wire sender_open world)"
  by pat_completeness auto
termination
  by (relation "measure (\<lambda>(wire, sender_open, world). steps_left world)") (auto dest: thread_step_left)

declare join_thread.simps [simp del]

text \<open>\<open>Drop\<close> of the handle: a last stop, which arrives when the thread still holds the receiver, then
  the sender is dropped and the thread joined; nothing when the join never returns.\<close>

definition drop_driver ::
  "'w wire \<Rightarrow> 'w driver_world \<Rightarrow> driver_handle \<Rightarrow> (driver_handle \<times> 'w driver_world) option" where
  "drop_driver wire world h =
     (let (thread, pending, q) = world;
          (r, h) = send_command StopWorker (h\<lparr>worker_listens := [listening thread]\<rparr>);
          h = h\<lparr>has_commands := False\<rparr>;
          pending = (if is_ok r then pending @ [StopWorker] else pending)
      in
      case join_thread wire False (thread, pending, q) of
        None \<Rightarrow> None
      | Some world \<Rightarrow> Some (h, world))"

section \<open>The steps are those of the loop\<close>

text \<open>What is left to do gives the same result as the loop over what the thread will meet: a turn at
  a command, and a turn at an empty queue, whose event meets a channel that takes or refuses it.\<close>

fun thread_result :: "'w wire \<Rightarrow> polled list \<Rightarrow> 'w thread \<Rightarrow> failure + unit" where
  "thread_result wire polls (AtCommands k) = fst (worker_loop wire polls k)"
| "thread_result wire polls (Reporting r) = r"
| "thread_result wire polls _ = Inr ()"

lemma command_turn:
  assumes "thread_step wire sender_open (AtCommands k, c # pending, q) = Some (thread, pending', q')"
  shows "fst (worker_loop wire (GotCommand c # polls) k) = thread_result wire polls thread"
  using assms by (cases c) (auto split: prod.splits sum.splits)

lemma closed_turn:
  assumes "thread_step wire False (AtCommands k, [], q) = Some (thread, pending', q')"
  shows "fst (worker_loop wire (QueueClosed # polls) k) = thread_result wire polls thread"
  using assms by auto

lemma failed_read_turn:
  assumes "on_session (read_engine_event_with_timeout wire EVENT_POLL_INTERVAL) k = (Inl e, k')"
    and "thread_step wire True (Polling k, pending, q) = Some (thread, pending', q')"
  shows "fst (worker_loop wire (QueueEmpty # polls) k) = thread_result wire polls thread"
  using assms by (auto split: if_splits failure.splits client_error.splits)

lemma event_turn:
  assumes "on_session (read_engine_event_with_timeout wire EVENT_POLL_INTERVAL) k = (Inr event, k')"
    and "thread_step wire True (SendingEvent event k', pending, q) = Some (thread, pending', q')"
    and "wk_ingress k' = (case fst (send_engine_event event q) of SendFailed e \<Rightarrow> [Inl e] | _ \<Rightarrow> [])"
  shows "fst (worker_loop wire (QueueEmpty # polls) k) = thread_result wire polls thread"
proof -
  obtain outcome q2 where q2: "send_engine_event event q = (outcome, q2)" by fastforce
  show ?thesis
  proof (cases outcome)
    case Sent
    with assms(3) q2 have "ingress_send event k' = (Inr (), k'\<lparr>wk_sent := wk_sent k' @ [event]\<rparr>)"
      by (cases k') (simp add: ingress_send_def)
    with assms(1,2) q2 Sent show ?thesis by (auto simp: Let_def split: if_splits)
  next
    case (SendFailed e)
    with assms(3) q2 have "ingress_send event k' = (Inl e, k'\<lparr>wk_ingress := []\<rparr>)"
      by (cases k') (simp add: ingress_send_def)
    moreover have "fst (shutdown_worker (k'\<lparr>wk_ingress := []\<rparr>)) = fst (shutdown_worker k')"
      by (simp add: shutdown_worker_def on_session_def Let_def split: prod.split)
    ultimately show ?thesis using assms(1,2) q2 SendFailed by auto
  qed (use assms(2) q2 in simp)
qed

section \<open>A thread that is told to stop ends\<close>

lemma send_refused:
  assumes "receiver_closed q"
  obtains e where "send event q = (SendFailed e, q)"
  using assms by (simp add: send_def)

lemma step_when_receiver_closed:
  assumes "receiver_closed (snd (snd world))" "\<not> ended (fst world)"
  obtains thread pending q where "thread_step wire sender_open world = Some (thread, pending, q)"
    "receiver_closed q" "ended thread \<longrightarrow> pending = [] \<and> producer_closed q"
proof -
  have "\<exists>thread pending q. thread_step wire sender_open world = Some (thread, pending, q) \<and> receiver_closed q \<and>
      (ended thread \<longrightarrow> pending = [] \<and> producer_closed q)"
    using assms
  proof (induction wire sender_open world rule: thread_step.induct)
    case (1 wire sender_open spawned w pending q)
    then show ?case
      using begin_scan_cases [of wire]
      by (auto simp: Let_def split: prod.split sum.split) (metis ended.simps listening.simps)+
  next
    case (6 wire sender_open event k pending q)
    then obtain e where "send_engine_event event q = (SendFailed e, q)"
      unfolding send_engine_event_def by (auto elim: send_refused)
    with 6 show ?case by simp
  next
    case (8 wire sender_open e pending q)
    then obtain e' where "send_driver_exited (Inl (client_error_display e)) q = (SendFailed e', q)"
      unfolding send_driver_exited_def by (auto elim: send_refused)
    with 8 show ?case by (simp add: drop_ingress_def)
  next
    case (9 wire sender_open u pending q)
    then obtain e' where "send_driver_exited (Inr ()) q = (SendFailed e', q)"
      unfolding send_driver_exited_def by (auto elim: send_refused)
    with 9 show ?case by (simp add: drop_ingress_def)
  qed (auto simp: drop_ingress_def split: prod.split sum.split)
  with that show thesis by blast
qed

lemma join_when_receiver_closed:
  assumes "receiver_closed (snd (snd world))" "\<not> ended (fst world)"
  shows "\<exists>q. join_thread wire False world = Some (Ended, [], q) \<and> receiver_closed q \<and> producer_closed q"
  using assms
proof (induction "steps_left world" arbitrary: world rule: less_induct)
  case less
  obtain thread pending q where step: "thread_step wire False world = Some (thread, pending, q)"
      "receiver_closed q" "ended thread \<longrightarrow> pending = [] \<and> producer_closed q"
    by (rule step_when_receiver_closed [OF less.prems])
  have no: "\<not> polls_on False world" by (cases "(False, world)" rule: polls_on.cases) auto
  have join: "join_thread wire False world = join_thread wire False (thread, pending, q)"
    using less.prems(2) no step(1) by (subst join_thread.simps) simp
  show ?case
  proof (cases "ended thread")
    case True
    then have "thread = Ended" by (cases thread) simp_all
    with join step True show ?thesis by (subst (asm) (2) join_thread.simps) simp
  next
    case False
    then have "\<exists>q'. join_thread wire False (thread, pending, q) = Some (Ended, [], q') \<and>
        receiver_closed q' \<and> producer_closed q'"
      by (intro less.hyps thread_step_left [OF step(1)]) (use less.prems(2) no step(2) in simp_all)
    with join show ?thesis by simp
  qed
qed

text \<open>With the receiver still there the thread may never end: joined before the stream of events is
  dropped, a thread that finds the channel full waits for space that nobody will make.\<close>

lemma full_channel_blocks:
  assumes "semantic_capacity q \<le> semantic_events q" "\<not> receiver_closed q"
  shows "join_thread wire sender_open (Reporting (Inr ()), pending, q) = None"
proof -
  have "send_driver_exited (Inr ()) q = (Blocked, q)"
    using assms by (simp add: send_driver_exited_def send_def is_progress_event_def)
  then show ?thesis by (subst join_thread.simps) simp
qed

end
