(* ===== verification/Frontend.thy ===== *)
theory Frontend
  imports Driver_Steps
begin

text \<open>
  The terminal guard and the entry points, \<open>diskplan-cli/src/tui/mod.rs\<close> and \<open>main.rs\<close>. The terminal
  is its three modes; the results of the writes to it and of switching raw mode are scripts. A write
  that fails may have taken effect before (\<open>execute!\<close> writes, then flushes); switching raw mode either
  succeeds or changes nothing.
\<close>

section \<open>The terminal and the guard\<close>

record tty =
  raw_on :: bool
  alternate_on :: bool
  cursor_hidden :: bool

definition clean_tty :: tty where
  "clean_tty = \<lparr>raw_on = False, alternate_on = False, cursor_hidden = False\<rparr>"

datatype write_result = Written | FailedBefore io_error | FailedAfter io_error

record terminal_guard =
  guard_tty :: tty
  guard_writes :: "write_result list"
  guard_modes :: "(io_error + unit) list"
  guard_raw :: bool
  guard_alternate :: bool
  guard_hidden :: bool

text \<open>\<open>execute!(&mut writer, command)\<close>; a script that is over means success.\<close>

definition execute :: "(tty \<Rightarrow> tty) \<Rightarrow> (terminal_guard, io_error, unit) action" where
  "execute command g =
     (let (r, rest) = (case guard_writes g of [] \<Rightarrow> (Written, []) | r # rs \<Rightarrow> (r, rs));
          g = g\<lparr>guard_writes := rest\<rparr>;
          applied = g\<lparr>guard_tty := command (guard_tty g)\<rparr>
      in
      case r of
        Written \<Rightarrow> (Inr (), applied)
      | FailedBefore e \<Rightarrow> (Inl e, g)
      | FailedAfter e \<Rightarrow> (Inl e, applied))"

definition switch_raw :: "bool \<Rightarrow> (terminal_guard, io_error, unit) action" where
  "switch_raw on g =
     (let (r, rest) = (case guard_modes g of [] \<Rightarrow> (Inr (), []) | r # rs \<Rightarrow> (r, rs));
          g = g\<lparr>guard_modes := rest\<rparr>
      in
      case r of
        Inl e \<Rightarrow> (Inl e, g)
      | Inr _ \<Rightarrow> (Inr (), g\<lparr>guard_tty := (guard_tty g)\<lparr>raw_on := on\<rparr>\<rparr>))"

definition change_guard :: "(terminal_guard \<Rightarrow> terminal_guard) \<Rightarrow> (terminal_guard, io_error, unit) action" where
  "change_guard f g = (Inr (), f g)"

text \<open>One of the three steps of \<open>restore\<close>: undoes a mode if it is marked, keeps the first error.\<close>

definition undo ::
  "(terminal_guard \<Rightarrow> bool) \<Rightarrow> (terminal_guard, io_error, unit) action \<Rightarrow>
     (terminal_guard \<Rightarrow> terminal_guard) \<Rightarrow> io_error option \<times> terminal_guard \<Rightarrow>
     io_error option \<times> terminal_guard" where
  "undo marked undoing unmark = (\<lambda>(first_error, g).
     if marked g then
       (case undoing g of
          (Inr _, g) \<Rightarrow> (first_error, unmark g)
        | (Inl e, g) \<Rightarrow> (if first_error = None then Some e else first_error, g))
     else (first_error, g))"

abbreviation undo_hidden :: "io_error option \<times> terminal_guard \<Rightarrow> io_error option \<times> terminal_guard" where
  "undo_hidden \<equiv> undo guard_hidden (execute (\<lambda>t. t\<lparr>cursor_hidden := False\<rparr>)) (\<lambda>g. g\<lparr>guard_hidden := False\<rparr>)"

abbreviation undo_alternate :: "io_error option \<times> terminal_guard \<Rightarrow> io_error option \<times> terminal_guard" where
  "undo_alternate \<equiv>
     undo guard_alternate (execute (\<lambda>t. t\<lparr>alternate_on := False\<rparr>)) (\<lambda>g. g\<lparr>guard_alternate := False\<rparr>)"

abbreviation undo_raw :: "io_error option \<times> terminal_guard \<Rightarrow> io_error option \<times> terminal_guard" where
  "undo_raw \<equiv> undo guard_raw (switch_raw False) (\<lambda>g. g\<lparr>guard_raw := False\<rparr>)"

definition restore :: "terminal_guard \<Rightarrow> (io_error + unit) \<times> terminal_guard" where
  "restore g =
     (case undo_raw (undo_alternate (undo_hidden (None, g))) of
        (Some e, g) \<Rightarrow> (Inl e, g)
      | (None, g) \<Rightarrow> (Inr (), g))"

definition drop_guard :: "terminal_guard \<Rightarrow> terminal_guard" where
  "drop_guard g = snd (restore g)"

definition enter_steps :: "(terminal_guard, io_error, unit) action" where
  "enter_steps =
     bindS (switch_raw True) (\<lambda>_.
     bindS (change_guard (\<lambda>g. g\<lparr>guard_raw := True\<rparr>)) (\<lambda>_.
     bindS (change_guard (\<lambda>g. g\<lparr>guard_alternate := True\<rparr>)) (\<lambda>_.
     bindS (execute (\<lambda>t. t\<lparr>alternate_on := True\<rparr>)) (\<lambda>_.
     bindS (change_guard (\<lambda>g. g\<lparr>guard_hidden := True\<rparr>)) (\<lambda>_.
     execute (\<lambda>t. t\<lparr>cursor_hidden := True\<rparr>))))))"

text \<open>An error drops the guard made so far.\<close>

definition enter_with ::
  "tty \<Rightarrow> write_result list \<Rightarrow> (io_error + unit) list \<Rightarrow> (io_error + unit) \<times> terminal_guard" where
  "enter_with initial writes modes =
     (case enter_steps \<lparr>guard_tty = initial, guard_writes = writes, guard_modes = modes,
                        guard_raw = False, guard_alternate = False, guard_hidden = False\<rparr> of
        (Inl e, g) \<Rightarrow> (Inl e, drop_guard g)
      | (Inr _, g) \<Rightarrow> (Inr (), g))"

section \<open>The interactive program\<close>

text \<open>How \<open>tui::run\<close> ends; it waits for ever when the script of events is over, and hangs when the
  driver's thread that it joins does not end.\<close>

datatype tui_outcome = TuiExit "io_error + unit" | TuiWaits app_state | TuiHangs

text \<open>The locals are dropped in the reverse order of their declaration: the stream of events, alone or
  in the source that owns it, always goes before the driver's handle.\<close>

definition drop_locals ::
  "'w wire \<Rightarrow> 'w driver_world \<Rightarrow> driver_handle \<Rightarrow> (driver_handle \<times> 'w driver_world) option" where
  "drop_locals wire world driver =
     (let (thread, pending, q) = world in drop_driver wire (thread, pending, drop_stream q) driver)"

definition leave ::
  "'w wire \<Rightarrow> 'w driver_world \<Rightarrow> driver_handle \<Rightarrow> io_error + unit \<Rightarrow> tty \<Rightarrow>
     tui_outcome \<times> tty \<times> (driver_handle \<times> 'w driver_world) option" where
  "leave wire world driver result tty =
     (case drop_locals wire world driver of
        None \<Rightarrow> (TuiHangs, tty, None)
      | Some left \<Rightarrow> (TuiExit result, tty, Some left))"

text \<open>\<open>tui::run\<close>: \<open>created\<close> is the result of \<open>Terminal::new\<close>, \<open>ready\<close> what the application will be
  given, and \<open>world\<close> where the driver's thread, its commands and the channel have come to when the
  function leaves. The guard is dropped before the driver. The terminal, the handle and the world in
  the end are returned.\<close>

definition run_tui ::
  "'w wire \<Rightarrow> io_error + unit \<Rightarrow> bool list \<Rightarrow> io_error + 't \<Rightarrow> (app_state \<Rightarrow> 't \<Rightarrow> io_error + 't) \<Rightarrow> ready list \<Rightarrow>
     tty \<Rightarrow> write_result list \<Rightarrow> (io_error + unit) list \<Rightarrow> 'w driver_world \<Rightarrow>
     tui_outcome \<times> tty \<times> (driver_handle \<times> 'w driver_world) option" where
  "run_tui wire thread_started listens created draw ready initial writes modes world =
     (case spawn_driver thread_started listens of
        Inl e \<Rightarrow> (TuiExit (Inl e), initial, None)
      | Inr (driver, engine_events) \<Rightarrow>
     (case enter_with initial writes modes of
        (Inl e, g) \<Rightarrow> leave wire world driver (Inl e) (guard_tty g)
      | (Inr _, g) \<Rightarrow>
     (case created of
        Inl e \<Rightarrow> leave wire world driver (Inl e) (guard_tty (drop_guard g))
      | Inr backend \<Rightarrow>
     (case run_application draw driver_sink (source_events ready) backend driver of
        (Waiting s, driver) \<Rightarrow> (TuiWaits s, guard_tty g, Some (driver, world))
      | (result, driver) \<Rightarrow>
     (case restore g of
        (Inl e, g) \<Rightarrow> leave wire world driver (Inl e) (guard_tty (drop_guard g))
      | (Inr _, g) \<Rightarrow>
          leave wire world driver (case result of AppError e \<Rightarrow> Inl e | _ \<Rightarrow> Inr ())
            (guard_tty (drop_guard g)))))))"

section \<open>The command line\<close>

datatype invocation = UsageError string | HandshakeOnly string | Interactive string

definition usage :: "string \<Rightarrow> string" where
  "usage program = ''usage: '' @ program @ '' [--handshake] <diskplan-engine>''"

text \<open>\<open>args\<close> are the process's arguments, the program's own name first.\<close>

fun parse_args :: "string list \<Rightarrow> invocation" where
  "parse_args [] = UsageError (usage ''diskplan'')"
| "parse_args [program] = UsageError (usage program)"
| "parse_args (program # first # rest) =
     (if first = ''--handshake'' then
        (case rest of
           [] \<Rightarrow> UsageError (usage ''diskplan'')
         | [engine] \<Rightarrow> HandshakeOnly engine
         | _ \<Rightarrow> UsageError (usage ''diskplan''))
      else if rest = [] then Interactive first
      else UsageError (usage ''diskplan''))"

text \<open>The exit code, the line for the standard output and the one for the standard error, for a
  handshake and an interactive program that return.\<close>

definition main_program ::
  "(string \<Rightarrow> string + string list) \<Rightarrow> (string \<Rightarrow> string + unit) \<Rightarrow> string list \<Rightarrow>
     nat \<times> string option \<times> string option" where
  "main_program handshake tui args =
     (case parse_args args of
        UsageError message \<Rightarrow> (64, None, Some message)
      | HandshakeOnly engine \<Rightarrow>
          (case handshake engine of
             Inr capabilities \<Rightarrow>
               (0, Some (''handshake ok: '' @ concat (case capabilities of
                   [] \<Rightarrow> [] | c # cs \<Rightarrow> c # map (\<lambda>d. '','' @ d) cs)), None)
           | Inl e \<Rightarrow> (1, None, Some (''handshake failed: '' @ e)))
      | Interactive engine \<Rightarrow>
          (case tui engine of
             Inr _ \<Rightarrow> (0, None, None)
           | Inl e \<Rightarrow> (1, None, Some (''diskplan: '' @ e))))"

section \<open>The terminal is given back\<close>

text \<open>Whatever the terminal was changed to is marked for undoing.\<close>

definition guard_covers :: "terminal_guard \<Rightarrow> bool" where
  "guard_covers g \<longleftrightarrow>
     (raw_on (guard_tty g) \<longrightarrow> guard_raw g) \<and>
     (alternate_on (guard_tty g) \<longrightarrow> guard_alternate g) \<and>
     (cursor_hidden (guard_tty g) \<longrightarrow> guard_hidden g)"

definition guard_flags :: "terminal_guard \<Rightarrow> bool" where
  "guard_flags g \<longleftrightarrow> guard_raw g \<or> guard_alternate g \<or> guard_hidden g"

lemma covers_no_flags: "guard_covers g \<Longrightarrow> \<not> guard_flags g \<Longrightarrow> guard_tty g = clean_tty"
  by (cases "guard_tty g") (auto simp: guard_covers_def guard_flags_def clean_tty_def)

lemma execute_flags:
  assumes "execute command g = (r, g')"
  shows "guard_raw g' = guard_raw g" "guard_alternate g' = guard_alternate g" "guard_hidden g' = guard_hidden g"
    "guard_tty g' = guard_tty g \<and> (\<exists>e. r = Inl e) \<or> guard_tty g' = command (guard_tty g)"
    "guard_modes g' = guard_modes g"
    "guard_writes g = [] \<Longrightarrow> r = Inr () \<and> guard_writes g' = []"
  using assms
  by (auto simp: execute_def Let_def split: list.splits write_result.splits)

lemma switch_raw_flags:
  assumes "switch_raw on g = (r, g')"
  shows "guard_raw g' = guard_raw g" "guard_alternate g' = guard_alternate g" "guard_hidden g' = guard_hidden g"
    "guard_tty g' = guard_tty g \<and> (\<exists>e. r = Inl e) \<or> guard_tty g' = (guard_tty g)\<lparr>raw_on := on\<rparr> \<and> r = Inr ()"
    "guard_writes g' = guard_writes g"
    "guard_modes g = [] \<Longrightarrow> r = Inr () \<and> guard_modes g' = []"
  using assms by (auto simp: switch_raw_def Let_def split: list.splits sum.splits)

text \<open>What each undoing keeps: the marks cover the terminal, marks are only taken away, and without an
  error the mark is gone.\<close>

definition undone :: "terminal_guard \<Rightarrow> terminal_guard \<Rightarrow> bool" where
  "undone g g' \<longleftrightarrow>
     (guard_covers g \<longrightarrow> guard_covers g') \<and>
     (guard_raw g' \<longrightarrow> guard_raw g) \<and> (guard_alternate g' \<longrightarrow> guard_alternate g) \<and>
     (guard_hidden g' \<longrightarrow> guard_hidden g) \<and>
     (guard_writes g = [] \<and> guard_modes g = [] \<longrightarrow> guard_writes g' = [] \<and> guard_modes g' = [])"

lemma undone_trans: "undone g h \<Longrightarrow> undone h k \<Longrightarrow> undone g k"
  by (auto simp: undone_def)

lemma undone_marks:
  "undone g g' \<Longrightarrow> (guard_raw g' \<longrightarrow> guard_raw g) \<and> (guard_alternate g' \<longrightarrow> guard_alternate g) \<and>
     (guard_hidden g' \<longrightarrow> guard_hidden g)"
  by (simp add: undone_def)

lemma undone_scripts:
  "undone g g' \<Longrightarrow> guard_writes g = [] \<Longrightarrow> guard_modes g = [] \<Longrightarrow> guard_writes g' = [] \<and> guard_modes g' = []"
  by (simp add: undone_def)

lemma undo_hidden_spec:
  assumes "undo_hidden (f, g) = (f', g')"
  shows "undone g g' \<and> (f' = None \<longrightarrow> f = None \<and> \<not> guard_hidden g') \<and>
    (f = None \<and> guard_writes g = [] \<longrightarrow> f' = None)"
proof -
  obtain r h where h: "execute (\<lambda>t. t\<lparr>cursor_hidden := False\<rparr>) g = (r, h)" by fastforce
  from assms h execute_flags [OF h] show ?thesis
    by (auto simp: undo_def undone_def guard_covers_def split: sum.splits if_splits)
qed

lemma undo_alternate_spec:
  assumes "undo_alternate (f, g) = (f', g')"
  shows "undone g g' \<and> (f' = None \<longrightarrow> f = None \<and> \<not> guard_alternate g') \<and>
    (f = None \<and> guard_writes g = [] \<longrightarrow> f' = None)"
proof -
  obtain r h where h: "execute (\<lambda>t. t\<lparr>alternate_on := False\<rparr>) g = (r, h)" by fastforce
  from assms h execute_flags [OF h] show ?thesis
    by (auto simp: undo_def undone_def guard_covers_def split: sum.splits if_splits)
qed

lemma undo_raw_spec:
  assumes "undo_raw (f, g) = (f', g')"
  shows "undone g g' \<and> (f' = None \<longrightarrow> f = None \<and> \<not> guard_raw g') \<and>
    (f = None \<and> guard_modes g = [] \<longrightarrow> f' = None)"
proof -
  obtain r h where h: "switch_raw False g = (r, h)" by fastforce
  from assms h switch_raw_flags [OF h] show ?thesis
    by (auto simp: undo_def undone_def guard_covers_def split: sum.splits if_splits)
qed

lemma restore_eq:
  "restore g = (r, g') \<longleftrightarrow> (\<exists>f. undo_raw (undo_alternate (undo_hidden (None, g))) = (f, g') \<and>
     r = (case f of Some e \<Rightarrow> Inl e | None \<Rightarrow> Inr ()))"
  unfolding restore_def by (cases "undo_raw (undo_alternate (undo_hidden (None, g)))") (auto split: option.splits)

lemma restore_spec:
  assumes "restore g = (r, g')"
  shows "undone g g' \<and> (r = Inr () \<longrightarrow> \<not> guard_flags g') \<and>
    (guard_writes g = [] \<and> guard_modes g = [] \<longrightarrow> r = Inr ())"
proof -
  obtain f1 g1 where 1: "undo_hidden (None, g) = (f1, g1)" by fastforce
  obtain f2 g2 where 2: "undo_alternate (f1, g1) = (f2, g2)" by fastforce
  obtain f3 where 3: "undo_raw (f2, g2) = (f3, g')" and r: "r = Inr () \<longleftrightarrow> f3 = None"
    using assms unfolding restore_eq 1 2 by (auto split: option.splits)
  note s1 = undo_hidden_spec [OF 1] and s2 = undo_alternate_spec [OF 2] and s3 = undo_raw_spec [OF 3]
  then have u: "undone g g1" "undone g1 g2" "undone g2 g'" by blast+
  then have "undone g g'" by (meson undone_trans)
  moreover have "\<not> guard_flags g'" if "f3 = None"
  proof -
    have "\<not> guard_hidden g1" "\<not> guard_alternate g2" "\<not> guard_raw g'"
      using s1 s2 s3 that by blast+
    with undone_marks [OF u(2)] undone_marks [OF u(3)] show ?thesis
      unfolding guard_flags_def by blast
  qed
  moreover have "f3 = None" if "guard_writes g = []" "guard_modes g = []"
  proof -
    have "f1 = None" using s1 that(1) by blast
    moreover have "guard_writes g1 = []" "guard_modes g1 = []" using undone_scripts [OF u(1) that] by simp_all
    moreover from this have "guard_modes g2 = []" using undone_scripts [OF u(2)] by simp
    ultimately show ?thesis using s2 s3 by blast
  qed
  ultimately show ?thesis using r by blast
qed

lemma enter_steps_covers:
  assumes "enter_steps g = (r, g')" "guard_tty g = clean_tty"
  shows "guard_covers g'"
proof -
  obtain r1 g1 where 1: "switch_raw True g = (r1, g1)" by fastforce
  let ?g2 = "g1\<lparr>guard_raw := True, guard_alternate := True\<rparr>"
  obtain r3 g3 where 3: "execute (\<lambda>t. t\<lparr>alternate_on := True\<rparr>) ?g2 = (r3, g3)" by fastforce
  let ?g4 = "g3\<lparr>guard_hidden := True\<rparr>"
  obtain r5 g5 where 5: "execute (\<lambda>t. t\<lparr>cursor_hidden := True\<rparr>) ?g4 = (r5, g5)" by fastforce
  show ?thesis
    using assms 1 3 5 switch_raw_flags [OF 1] execute_flags [OF 3] execute_flags [OF 5]
    by (auto simp: enter_steps_def bindS_def change_guard_def guard_covers_def clean_tty_def
        split: sum.splits)
qed

lemma enter_with_covers:
  assumes "enter_with clean_tty writes modes = (r, g)"
  shows "guard_covers g"
proof -
  obtain q h where h: "enter_steps \<lparr>guard_tty = clean_tty, guard_writes = writes, guard_modes = modes,
      guard_raw = False, guard_alternate = False, guard_hidden = False\<rparr> = (q, h)" by fastforce
  then have "guard_covers h" by (rule enter_steps_covers) simp
  with assms h restore_spec [OF prod.collapse [symmetric], of h] show ?thesis
    by (auto simp: enter_with_def drop_guard_def undone_def split: sum.splits)
qed

text \<open>C40: The terminal is never left changed without the guard knowing: entering from a clean terminal
  and restoring any number of times, with any of the writes and mode switches failing before or after
  taking effect, what is still changed is still marked; a restore that reports success leaves the
  terminal clean; and a restore whose writes succeed reports success.\<close>

theorem guard_gives_terminal_back:
  "let g = ((\<lambda>g. snd (restore g)) ^^ n) (snd (enter_with clean_tty writes modes)) in
     (raw_on (guard_tty g) \<longrightarrow> guard_raw g) \<and> (alternate_on (guard_tty g) \<longrightarrow> guard_alternate g) \<and>
     (cursor_hidden (guard_tty g) \<longrightarrow> guard_hidden g) \<and>
     (fst (restore g) = Inr () \<longrightarrow> guard_tty (snd (restore g)) = clean_tty) \<and>
     (guard_writes g = [] \<and> guard_modes g = [] \<longrightarrow> fst (restore g) = Inr ())"
proof -
  define g where "g = ((\<lambda>g. snd (restore g)) ^^ n) (snd (enter_with clean_tty writes modes))"
  have covers: "guard_covers g"
    unfolding g_def
  proof (induction n)
    case (Suc n)
    then show ?case
      using restore_spec [OF prod.collapse [symmetric]] unfolding undone_def by (simp add: undone_def)
  qed (simp add: enter_with_covers [OF prod.collapse [symmetric]])
  note spec = restore_spec [OF prod.collapse [symmetric], of g]
  have "fst (restore g) = Inr () \<longrightarrow> guard_tty (snd (restore g)) = clean_tty"
    using spec covers covers_no_flags unfolding undone_def by blast
  with covers spec show ?thesis
    unfolding g_def [symmetric] Let_def guard_covers_def by blast
qed

theorem guard_gives_terminal_back_witness:
  "let g = snd (enter_with clean_tty [Written, FailedAfter (IoError BrokenPipe ''gone'')] []) in
   guard_tty g = clean_tty \<and> guard_tty (snd (restore g)) = clean_tty"
  using guard_gives_terminal_back [of 0 "[Written, FailedAfter (IoError BrokenPipe ''gone'')]" "[]"]
  by (simp add: Let_def enter_with_def enter_steps_def bindS_def change_guard_def execute_def
      switch_raw_def clean_tty_def drop_guard_def restore_def undo_def)

lemma restore_clean:
  "guard_covers g \<Longrightarrow> restore g = (Inr (), g') \<Longrightarrow> guard_tty g' = clean_tty"
  using restore_spec [of g "Inr ()" g'] covers_no_flags [of g'] by (auto simp: undone_def)

lemma drop_clean: "guard_covers g \<Longrightarrow> guard_writes g = [] \<Longrightarrow> guard_modes g = [] \<Longrightarrow> guard_tty (drop_guard g) = clean_tty"
  using restore_spec [OF prod.collapse [symmetric], of g] restore_clean [of g "drop_guard g"]
  by (metis drop_guard_def prod.collapse)

lemma drop_unflagged: "\<not> guard_flags g \<Longrightarrow> drop_guard g = g"
  by (simp add: drop_guard_def restore_def undo_def guard_flags_def)

text \<open>Entering with at most one step that does not simply succeed.\<close>

lemma enter_one_fault:
  assumes "enter_with clean_tty (replicate i Written @ [x]) [m] = (r, g)" "i \<le> 1"
  shows "(r = Inr () \<longrightarrow> guard_covers g \<and> guard_writes g = [] \<and> guard_modes g = []) \<and>
    (r \<noteq> Inr () \<longrightarrow> guard_tty g = clean_tty)"
proof -
  have "i = 0 \<or> i = 1" using assms(2) by auto
  then show ?thesis
    using assms(1)
    by (elim disjE; cases x; cases m)
      (auto simp: enter_with_def enter_steps_def bindS_def change_guard_def execute_def switch_raw_def
        clean_tty_def drop_guard_def restore_def undo_def guard_covers_def)
qed

text \<open>When the interactive program ends without an error the terminal is as it was found, whatever
  happened in between; and when it ends after any one step of entering failed, before or after taking
  effect, or the terminal could not be created, or the application failed, the terminal is as it was
  found too.\<close>

lemma run_tui_clean:
  assumes "run_tui wire started listens created draw ready clean_tty writes modes world = (TuiExit (Inr ()), tty, h)"
  shows "tty = clean_tty"
proof -
  obtain r g where g: "enter_with clean_tty writes modes = (r, g)" by fastforce
  obtain q k where k: "restore g = (q, k)" by fastforce
  have "q = Inr () \<Longrightarrow> guard_tty k = clean_tty \<and> drop_guard k = k"
    using restore_clean [OF enter_with_covers [OF g]] restore_spec [OF k] drop_unflagged k by auto
  with assms g k show ?thesis
    by (auto simp: run_tui_def leave_def split: sum.splits prod.splits app_outcome.splits option.splits)
qed

lemma run_tui_one_fault:
  assumes "run_tui wire started listens created draw ready clean_tty (replicate i Written @ [x]) [m] world
      = (TuiExit r, tty, h)"
    and "i \<le> 1"
  shows "tty = clean_tty"
proof -
  obtain q g where g: "enter_with clean_tty (replicate i Written @ [x]) [m] = (q, g)" by fastforce
  note fault = enter_one_fault [OF g assms(2)]
  obtain p k where k: "restore g = (p, k)" by fastforce
  have "q = Inr () \<Longrightarrow> guard_tty (drop_guard g) = clean_tty \<and> p = Inr () \<and> guard_tty k = clean_tty \<and> drop_guard k = k"
    using fault drop_clean restore_spec [OF k] restore_clean k drop_unflagged by auto
  with fault assms(1) g k show ?thesis
    by (auto simp: run_tui_def leave_def split: sum.splits prod.splits app_outcome.splits option.splits)
qed

end
