(* ===== verification/Driver_Child.thy ===== *)
theory Driver_Child
  imports Driver
begin

text \<open>
  What becomes of the engine's process over the whole life of the driver's thread: the thread touches
  no other process, and when it is through the process has been reaped or handed to the thread that
  waits for it, wherever the session failed.
\<close>

section \<open>The calls concern the engine alone\<close>

fun concerns :: "u32 \<Rightarrow> os_action \<Rightarrow> bool" where
  "concerns pid (Reaped p _) \<longleftrightarrow> p = pid"
| "concerns pid (Signalled _ pgid) \<longleftrightarrow> pgid = pid"
| "concerns pid (KilledChild p) \<longleftrightarrow> p = pid"
| "concerns pid (HandedOver p) \<longleftrightarrow> p = pid"
| "concerns pid SpawnedReaper \<longleftrightarrow> True"

definition child_only :: "u32 \<Rightarrow> os \<Rightarrow> os \<Rightarrow> bool" where
  "child_only pid w w' \<longleftrightarrow>
     set (reaper_accepts w') \<subseteq> set (reaper_accepts w) \<and>
     (\<exists>new. actions w' = actions w @ new \<and> (\<forall>a \<in> set new. concerns pid a))"

lemma child_only_order: "reflp (child_only pid)" "transp (child_only pid)"
proof -
  show "reflp (child_only pid)" by (simp add: child_only_def reflp_def)
  show "transp (child_only pid)"
  proof (rule transpI)
    fix u v w
    assume "child_only pid u v" "child_only pid v w"
    then obtain new more where new: "actions v = actions u @ new" "\<forall>a \<in> set new. concerns pid a"
      "actions w = actions v @ more" "\<forall>a \<in> set more. concerns pid a"
      and "set (reaper_accepts w) \<subseteq> set (reaper_accepts u)"
      by (auto simp: child_only_def)
    moreover have "actions w = actions u @ (new @ more)" "\<forall>a \<in> set (new @ more). concerns pid a"
      using new by auto
    ultimately show "child_only pid u w" unfolding child_only_def by blast
  qed
qed

interpretation tending: os_order "child_only pid" pid for pid
  by unfold_locales
    (auto simp: child_only_order keeps_def child_only_def try_wait_def kill_command_def child_kill_def spawn_reaper_def
      reaper_send_def deadline_passed_def log_def Let_def
      split: list.splits sum.splits option.splits if_splits)

section \<open>The thread respects what the calls respect\<close>

lemma ingress_keeps_session: "ingress_send event k = (r, k') \<Longrightarrow> wk_session k' = wk_session k"
  by (auto simp: ingress_send_def Let_def split: prod.splits)

context os_order
begin

lemma fail_worker: "served R pid (wk_session k) (wk_session (snd (fail_worker e k)))"
  by (simp add: fail_worker_def drop_session)

lemma on_session:
  "keeps (served R pid) m \<Longrightarrow> on_session m k = (r, k') \<Longrightarrow> served R pid (wk_session k) (wk_session k')"
  by (auto simp: on_session_eq dest: keepsD)

lemma shutdown_worker: "served R pid (wk_session k) (wk_session (snd (shutdown_worker k)))"
  using on_session [OF shutdown] unfolding shutdown_worker_def by (metis prod.collapse)

lemma worker_loop: "served R pid (wk_session k0) (wk_session (snd (worker_loop wire ps k0)))"
proof (rule worker_loop_rule [of "\<lambda>k. served R pid (wk_session k0) (wk_session k)"])
  fix k event k1 e k2
  assume "served R pid (wk_session k0) (wk_session k)"
    "on_session (read_engine_event_with_timeout wire EVENT_POLL_INTERVAL) k = (Inr event, k1)"
    "ingress_send event k1 = (Inl e, k2)"
  then have "served R pid (wk_session k0) (wk_session k2)"
    using on_session [OF read_engine_event] session_later ingress_keeps_session by metis
  then show "served R pid (wk_session k0) (wk_session (snd (shutdown_worker k2)))"
    using session_later shutdown_worker by blast
qed (use same_os session_later fail_worker shutdown_worker on_session [OF requests(2)]
    on_session [OF read_engine_event] ingress_keeps_session in metis)+

lemma run_connected: "served R pid (wk_session k) (wk_session (snd (run_connected wire commands k)))"
  by (auto simp: run_connected_def fail_worker split: prod.split sum.split
      dest!: on_session [OF requests(1)] intro: session_later fail_worker worker_loop)

end

section \<open>The session keeps the child until it ends\<close>

lemma write_envelope_child: "write_envelope wire e s = (r, s') \<Longrightarrow> ses_child s' = ses_child s"
  by (auto simp: write_envelope_def Let_def split: option.splits sum.splits)

lemma sends_child:
  "send_scan_control wire i c s = (r, s') \<Longrightarrow> ses_child s' = ses_child s"
  "send_start_scan wire i p s = (r, s') \<Longrightarrow> ses_child s' = ses_child s"
  by (auto simp: send_scan_control_def send_start_scan_def split: if_splits dest: write_envelope_child)

lemma child_try_wait_child:
  "bindS child_mut (\<lambda>pid. on_os (try_wait pid)) s = (r, s') \<Longrightarrow> ses_child s' = ses_child s"
  by (auto simp: bindS_def child_mut_def split: option.splits dest: on_os_child)

lemma observe_exit_child: "observe_exit s = (r, s') \<Longrightarrow> ses_child s' = ses_child s"
proof (induction s arbitrary: r s' rule: observe_exit.induct)
  case (1 s)
  obtain q t where q: "bindS child_mut (\<lambda>pid. on_os (try_wait pid)) s = (q, t)" by fastforce
  obtain b w where b: "deadline_passed (ses_os t) = (b, w)" by fastforce
  note same = child_try_wait_child [OF q]
  show ?case
  proof (cases "q = Inr None \<and> \<not> b")
    case True
    with 1(2) q b have "observe_exit (t\<lparr>ses_os := w\<rparr>) = (r, s')"
      by (subst (asm) observe_exit.simps) simp
    with 1(1) [OF q [symmetric] _ refl b [symmetric]] True same show ?thesis by simp
  next
    case False
    with 1(2) q b same show ?thesis
      by (subst (asm) observe_exit.simps) (auto split: sum.splits option.splits bool.splits)
  qed
qed

lemma read_envelope_child:
  "read_envelope_with_timeout wire phase timeout s = (r, s') \<Longrightarrow> ses_child s' = ses_child s"
  by (auto simp: read_envelope_with_timeout_def recv_timeout_def Let_def bindS_def map_errS_def
      split: list.splits recv_event.splits sum.splits option.splits prod.splits
      dest: observe_exit_child)

lemma read_engine_event_child:
  "read_engine_event_with_timeout wire timeout s = (r, s') \<Longrightarrow> ses_child s' = ses_child s"
  by (auto simp: read_engine_event_with_timeout_def bindS_def
      split: prod.splits sum.splits option.splits envelope_body.splits if_splits dest: read_envelope_child)

lemma perform_handshake_child: "perform_handshake wire s = (r, s') \<Longrightarrow> ses_child s' = ses_child s"
proof -
  have accept: "accept_handshake h q a s = (r, s') \<Longrightarrow> ses_child s' = ses_child s" for h q a s r and s' :: "'a session"
    by (auto simp: accept_handshake_def bindS_def map_errS_def child_mut_def
        split: option.splits sum.splits prod.splits dest: on_os_child)
  assume "perform_handshake wire s = (r, s')"
  then show ?thesis
    by (auto simp: perform_handshake_def read_envelope_def bindS_def
        split: sum.splits prod.splits option.splits envelope_body.splits if_splits
        dest!: write_envelope_child read_envelope_child accept)
qed

section \<open>The end of a session releases the child\<close>

text \<open>The session of a running child, with a reaper thread that takes what it is sent: the thread only
  ends when the session has dropped its end of the queue.\<close>

definition owns :: "u32 \<Rightarrow> 'w session \<Rightarrow> bool" where
  "owns pid s \<longleftrightarrow> ses_child s = Some pid \<and> ses_pgid s = pid \<and> False \<notin> set (reaper_accepts (ses_os s))"

definition releases :: "u32 \<Rightarrow> ('w session, failure, 'a) action \<Rightarrow> bool" where
  "releases pid m \<longleftrightarrow> (\<forall>s r s'. owns pid s \<longrightarrow> m s = (r, s') \<longrightarrow> ses_child s' = None)"

lemma still_owns: "served (child_only pid) pid s s' \<Longrightarrow> owns pid s \<Longrightarrow> ses_child s' = Some pid \<Longrightarrow> owns pid s'"
  by (auto simp: served_def serves_def owns_def child_only_def)

lemma releases_after:
  assumes "leaves_child m" "keeps (served (child_only pid) pid) m" "releases pid next"
  shows "releases pid (bindS m (\<lambda>_. next))"
  unfolding releases_def
proof (intro allI impI)
  fix s :: "'a session" and r s'
  assume o: "owns pid s" and run: "bindS m (\<lambda>_. next) s = (r, s')"
  from assms(1) o obtain t where t: "m s = (Inr (), t)" "ses_child t = Some pid"
    by (auto simp: leaves_child_def owns_def)
  have "owns pid t" by (rule still_owns [OF keepsD [OF assms(2) t(1)] o t(2)])
  with assms(3) run t show "ses_child s' = None" by (auto simp: releases_def)
qed

lemma releases_poll_or:
  assumes "releases pid next"
  shows "releases pid (poll_or next)"
  unfolding releases_def
proof (intro allI impI)
  fix s :: "'a session" and r s'
  assume o: "owns pid s" and run: "poll_or next s = (r, s')"
  obtain q t where q: "poll_child s = (q, t)" by fastforce
  have c: "ses_child s = Some pid" using o by (simp add: owns_def)
  note t = poll_child_cases [OF c q]
  then have "owns pid t"
    using still_owns [OF keepsD [OF tending.poll_child q] o] by blast
  moreover have "finish_reaped_child status t = (r, s') \<Longrightarrow> ses_child s' = None" for status
    by (auto simp: finish_reaped_child_def Let_def bindS_def map_errS_def dest: on_os_child
        split: prod.splits sum.splits)
  ultimately show "ses_child s' = None"
    using assms t run q by (auto simp: poll_or_def releases_def)
qed

lemma give_up_child_releases: "releases pid give_up_child"
  unfolding releases_def
proof (intro allI impI)
  fix s :: "'a session" and r s'
  assume o: "owns pid s" and run: "give_up_child s = (r, s')"
  then have "\<exists>w. handoff_live_child s = (Inr pid, s\<lparr>ses_child := None, ses_os := w\<rparr>)"
    by (cases "reaper_accepts (ses_os s)")
      (auto simp: owns_def handoff_live_child_def try_handoff_child_def reaper_send_def Let_def)
  then obtain w where "handoff_live_child s = (Inr pid, s\<lparr>ses_child := None, ses_os := w\<rparr>)" ..
  with run show "ses_child s' = None"
    by (auto simp: give_up_child_def Let_def split: prod.splits dest: on_os_child)
qed

lemma wait_or_terminate_releases: "releases pid wait_or_terminate"
  unfolding wait_or_terminate_def
  by (intro releases_poll_or releases_after signal_group_leaves kill_direct_child_leaves
      tending.signal_group tending.kill_direct_child give_up_child_releases)

definition gone :: "u32 \<Rightarrow> os \<Rightarrow> bool" where
  "gone pid w \<longleftrightarrow> (\<exists>status. Reaped pid status \<in> set (actions w)) \<or> HandedOver pid \<in> set (actions w)"

lemma owns_stdin: "owns pid (s\<lparr>ses_stdin := a\<rparr>) \<longleftrightarrow> owns pid s"
  by (simp add: owns_def)

lemma drop_session_gone:
  assumes "owns pid s"
  shows "gone pid (ses_os (drop_session s))"
proof -
  let ?s = "s\<lparr>ses_stdin := None\<rparr>"
  obtain r t where w: "wait_or_terminate ?s = (r, t)" by fastforce
  have "ses_child t = None"
    using wait_or_terminate_releases [of pid] assms w owns_stdin unfolding releases_def by blast
  moreover have "settled pid r t"
    using assms by (intro settlesD [OF wait_or_terminate_settles _ w]) (simp add: owns_def)
  ultimately show ?thesis
    using assms w by (auto simp: drop_session_def Let_def settled_def gone_def owns_def)
qed

lemma shutdown_gone:
  assumes "owns pid s" "shutdown s = (r, s')"
  shows "gone pid (ses_os s') \<and> (r = Inr () \<longrightarrow> Reaped pid (ExitStatus (Some 0)) \<in> set (actions (ses_os s')))"
proof -
  have c: "ses_child s = Some pid" using assms(1) by (simp add: owns_def)
  obtain q t where w: "wait_or_terminate (s\<lparr>ses_stdin := None\<rparr>) = (q, t)" by fastforce
  obtain d u where d: "drain_stdout t = (d, u)" by fastforce
  have "ses_child t = None"
    using wait_or_terminate_releases [of pid] assms(1) w owns_stdin unfolding releases_def by blast
  then have "ses_child (drop_session t) = None" "ses_child (drop_session u) = None"
    using drain_stdout_keeps [OF d] by (simp_all add: drop_session_def)
  with assms(2) w d have "ses_child s' = None"
    by (auto simp: shutdown_def Let_def split: sum.splits failure.splits)
  with shutdown_accounts_for_child [OF c] assms(2) show ?thesis
    by (auto simp: accounted_def gone_def)
qed

section \<open>The driver's thread\<close>

definition through_with :: "u32 \<Rightarrow> failure + unit \<Rightarrow> os \<Rightarrow> bool" where
  "through_with pid r w \<longleftrightarrow>
     gone pid w \<and> (r = Inr () \<longrightarrow> Reaped pid (ExitStatus (Some 0)) \<in> set (actions w))"

lemma shutdown_worker_through:
  "owns pid (wk_session k) \<Longrightarrow> shutdown_worker k = (r, k') \<Longrightarrow> through_with pid r (ses_os (wk_session k'))"
  unfolding shutdown_worker_def on_session_eq through_with_def by (auto dest: shutdown_gone)

lemma fail_worker_through:
  "owns pid (wk_session k) \<Longrightarrow> fail_worker e k = (r, k') \<Longrightarrow> through_with pid r (ses_os (wk_session k'))"
  by (auto simp: fail_worker_def through_with_def drop_session_gone)

lemma on_session_owns:
  assumes "keeps (served (child_only pid) pid) m" "\<And>s r s'. m s = (r, s') \<Longrightarrow> ses_child s' = ses_child s"
    and "on_session m k = (r, k')" "owns pid (wk_session k)"
  shows "owns pid (wk_session k')"
proof -
  from assms(3) obtain s where s: "m (wk_session k) = (r, s)" "wk_session k' = s"
    by (auto simp: on_session_eq)
  with assms(2) [OF s(1)] assms(4) show ?thesis
    using still_owns [OF keepsD [OF assms(1) s(1)]] by (simp add: owns_def)
qed

lemma steps_own:
  "on_session (send_start_scan wire i p) k = (r1, k') \<Longrightarrow> owns pid (wk_session k) \<Longrightarrow> owns pid (wk_session k')"
  "on_session (send_scan_control wire i c) k = (r2, k') \<Longrightarrow> owns pid (wk_session k) \<Longrightarrow> owns pid (wk_session k')"
  "on_session (read_engine_event_with_timeout wire timeout) k = (r3, k') \<Longrightarrow> owns pid (wk_session k) \<Longrightarrow>
     owns pid (wk_session k')"
  by (erule (1) on_session_owns [rotated 2],
      auto simp: tending.requests tending.read_engine_event dest: sends_child read_engine_event_child)+

lemma worker_loop_through:
  assumes "owns pid (wk_session k)" "worker_loop wire ps k = (r, k')"
  shows "through_with pid r (ses_os (wk_session k'))"
proof -
  let ?Q = "\<lambda>out. through_with pid (fst out) (ses_os (wk_session (snd out)))"
  have ends: "?Q (shutdown_worker k)" "?Q (fail_worker e k)" if "owns pid (wk_session k)" for e and k :: "'a worker"
    using shutdown_worker_through [OF that prod.collapse [symmetric]]
      fail_worker_through [OF that prod.collapse [symmetric]] by blast+
  have "?Q (worker_loop wire ps k)"
  proof (rule worker_loop_rule [of "\<lambda>k. owns pid (wk_session k)" _ wire ?Q])
    fix k event k1 e k2
    assume o: "owns pid (wk_session k)" and refused: "ingress_send event k1 = (Inl e, k2)"
      and read: "on_session (read_engine_event_with_timeout wire EVENT_POLL_INTERVAL) k = (Inr event, k1)"
    show "?Q (shutdown_worker k2)"
      using ends(1) [of k2] steps_own(3) [OF read o] ingress_keeps_session [OF refused] by simp
  qed (use assms(1) in \<open>auto simp: ends ingress_keeps_session dest: steps_own\<close>)
  with assms(2) show ?thesis by simp
qed

lemma run_connected_through:
  "owns pid (wk_session k) \<Longrightarrow> run_connected wire commands k = (r, k') \<Longrightarrow>
     through_with pid r (ses_os (wk_session k'))"
  by (auto simp: run_connected_def split: if_splits prod.splits sum.splits
      dest!: steps_own(1) intro: fail_worker_through worker_loop_through)

lemma connect_child:
  assumes "connect wire (Inr (pid, stdin, frames)) w = (r, w')"
    and "False \<notin> set (reaper_accepts w)" "is_ok (fst (spawn_reaper w))"
    and "\<not> reader_fails (Inr (pid, stdin, frames)) w"
  shows "child_only pid w w' \<and>
    (case r of Inl e \<Rightarrow> gone pid w' | Inr s \<Rightarrow> owns pid s \<and> ses_os s = w')"
proof -
  obtain w0 where w0: "spawn_reaper w = (Inr (), w0)"
    using assms(3) by (cases "spawn_reaper w") (auto simp: is_ok_iff)
  then obtain w1 where w1: "start_reader w0 = (True, w1)"
    using assms(4) by (cases "start_reader w0") (simp add: reader_fails_def)
  define s where "s = \<lparr>ses_child = Some pid, ses_stdin = Some stdin, ses_frames = frames,
      ses_timeout = DEFAULT_HANDSHAKE_TIMEOUT,
      ses_accepted = \<lparr>selected_version = None, negotiated_capabilities = []\<rparr>,
      ses_last_event = 0, ses_pgid = pid, ses_os = w1\<rparr>"
  obtain q t where t: "perform_handshake wire s = (q, t)" by fastforce
  have "child_only pid w0 w1"
    using w1 by (auto simp: start_reader_def child_only_def split: list.splits)
  then have first: "child_only pid w w1"
    using keepsD [OF tending.spawn_reaper w0] tending.later by blast
  have served: "served (child_only pid) pid s t" by (rule keepsD [OF tending.perform_handshake t])
  have s: "owns pid s" "serves pid s" "ses_os s = w1"
    using assms(2) first by (auto simp: s_def owns_def serves_def child_only_def)
  have t_owns: "owns pid t"
    using perform_handshake_child [OF t] s(1) by (intro still_owns [OF served s(1)]) (simp add: owns_def)
  have later: "child_only pid w (ses_os t)" "child_only pid w (ses_os (drop_session t))"
    using served tending.drop_session [of pid t] first s(2,3) tending.later unfolding served_def by metis+
  have "(r, w') = (case q of Inr _ \<Rightarrow> (Inr t, ses_os t) | Inl e \<Rightarrow> (Inl e, ses_os (drop_session t)))"
    using assms(1) t unfolding s_def by (simp add: connect_def connect_with_timeout_def spawn_command_def w0 w1)
  with later t_owns show ?thesis
    by (auto simp: drop_session_gone split: sum.splits)
qed

lemma connected_thread_through:
  assumes "run_engine wire (Inr (pid, stdin, frames)) w ingress commands = (r, sent, w')"
    and "False \<notin> set (reaper_accepts w)" "is_ok (fst (spawn_reaper w))"
    and "\<not> reader_fails (Inr (pid, stdin, frames)) w"
  shows "child_only pid w w' \<and> through_with pid r w'"
proof -
  obtain c w1 where c: "connect wire (Inr (pid, stdin, frames)) w = (c, w1)" by fastforce
  note child = connect_child [OF c assms(2-4)]
  show ?thesis
  proof (cases c)
    case (Inl e)
    with c child assms(1) show ?thesis by (auto simp: run_engine_def through_with_def)
  next
    case (Inr s)
    let ?k = "\<lparr>wk_session = s, wk_ingress = ingress, wk_sent = []\<rparr>"
    obtain k where k: "run_connected wire commands ?k = (r, k)" "w' = ses_os (wk_session k)"
      using assms(1) c Inr by (auto simp: run_engine_def Let_def split: prod.splits)
    have own: "owns pid (wk_session ?k)" using child Inr by simp
    moreover have "child_only pid w1 w'"
      using tending.run_connected [of pid ?k wire commands] own k child Inr
      by (simp add: served_def serves_def owns_def)
    ultimately show ?thesis
      using run_connected_through [OF own k(1)] k(2) child tending.later by blast
  qed
qed

lemma unstarted_reaper:
  assumes "run_engine wire spawned w ingress commands = (r, sent, w')" "\<not> is_ok (fst (spawn_reaper w))"
  shows "(\<exists>e. r = Inl (Error (Io e))) \<and> sent = [] \<and> actions w' = actions w"
proof -
  obtain x w1 where x: "spawn_reaper w = (x, w1)" by fastforce
  with assms(2) obtain e where "x = Inl e" by (cases x) simp_all
  moreover from this x have "actions w1 = actions w"
    by (auto simp: spawn_reaper_def Let_def split: list.splits)
  ultimately have "spawn_reaper w = (Inl e, w1)" "actions w1 = actions w" using x by simp_all
  with assms(1) show ?thesis
    by (auto simp: run_engine_def connect_def connect_with_timeout_def spawn_command_def io_failure_def)
qed

text \<open>C5: The driver's thread never abandons the engine and touches no other process, provided the
  reader thread could be started. Whatever the engine sends, wherever the handshake, a request, the
  channel or the shutdown fails and whatever the operating system answers, every signal, kill and wait
  the thread made was for the engine's process or process group, and in the end the engine was reaped,
  or handed to the reaper thread, which is assumed to take what it is sent; the thread succeeds only
  when the engine was reaped with exit code 0. When the reaper thread cannot be started nothing is
  done at all. When the reader thread cannot be started, the thread panics and nothing is ever done
  about the engine: it is neither signalled, reaped nor handed over.\<close>

theorem driver_reaps_engine:
  assumes "run_engine wire (Inr (pid, stdin, frames)) w ingress commands = (r, sent, w')"
    and "actions w = []" "False \<notin> set (reaper_accepts w)"
  shows "if \<not> is_ok (fst (spawn_reaper w)) then (\<exists>e. r = Inl (Error (Io e))) \<and> sent = [] \<and> actions w' = []
    else if reader_fails (Inr (pid, stdin, frames)) w
    then r = Inl (Panic ''failed to spawn thread'') \<and> sent = [] \<and> actions w' = [SpawnedReaper]
    else (\<forall>a \<in> set (actions w'). concerns pid a) \<and>
      ((\<exists>status. Reaped pid status \<in> set (actions w')) \<or> HandedOver pid \<in> set (actions w')) \<and>
      (r = Inr () \<longrightarrow> Reaped pid (ExitStatus (Some 0)) \<in> set (actions w'))"
proof -
  consider (Reaper) "\<not> is_ok (fst (spawn_reaper w))" | (Reader) "reader_fails (Inr (pid, stdin, frames)) w"
    | (Started) "is_ok (fst (spawn_reaper w))" "\<not> reader_fails (Inr (pid, stdin, frames)) w" by blast
  then show ?thesis
  proof cases
    case Reaper
    with assms(1,2) show ?thesis by (simp add: unstarted_reaper)
  next
    case Reader
    with assms(1,2) connect_reader_fails [OF Reader, of wire] show ?thesis
      by (auto simp: run_engine_def reader_fails_def)
  next
    case Started
    with connected_thread_through [OF assms(1,3)] assms(2) show ?thesis
      by (auto simp: child_only_def through_with_def gone_def)
  qed
qed

text \<open>An engine that negotiates, is asked to stop and exits.\<close>

theorem driver_reaps_engine_witness:
  "\<exists>sent w'. run_engine sample_wire (Inr (7, [], [Received (Inr (Some [2])), Received (Inr None)]))
      (quiet_os\<lparr>try_waits := [Inr None, Inr (Some (ExitStatus (Some 0)))]\<rparr>) [] [GotCommand StopWorker]
      = (Inr (), sent, w') \<and> Reaped 7 (ExitStatus (Some 0)) \<in> set (actions w')"
proof -
  let ?w = "quiet_os\<lparr>try_waits := [Inr None, Inr (Some (ExitStatus (Some 0)))]\<rparr>"
  obtain r sent w' where run: "run_engine sample_wire
      (Inr (7, [], [Received (Inr (Some [2])), Received (Inr None)])) ?w [] [GotCommand StopWorker] = (r, sent, w')"
    by (rule prod_cases3)
  note valid = negotiated_peer_valid [OF sample_negotiation, of 1]
  have "r = Inr ()"
    using run
    by (simp add: Let_def run_engine_def connect_def connect_with_timeout_def spawn_command_def perform_handshake_def write_envelope_def read_envelope_def
        read_envelope_with_timeout_def accept_handshake_def valid sample_wire_def sample_answer_def
        HANDSHAKE_SEQUENCE_def run_connected_def send_start_scan_def on_session_def shutdown_worker_def
        shutdown_eval spawn_reaper_def start_reader_def vec_write_frame MAX_FRAME_LENGTH_def)
  moreover from driver_reaps_engine [OF run] have "r = Inr () \<longrightarrow> Reaped 7 (ExitStatus (Some 0)) \<in> set (actions w')"
    by (simp add: quiet_os_def spawn_reaper_def start_reader_def reader_fails_def log_def)
  ultimately show ?thesis using run by blast
qed

end
