(* ===== verification/Interactive.thy ===== *)
theory Interactive
  imports Frontend Driver_Child
begin

text \<open>
  The interactive program as a whole, \<open>tui::run\<close> with the driver's handle as the application's control
  sink: what it sends to the driver's thread and how it leaves the thread, whichever way it ends and
  wherever the thread stands then.
\<close>

section \<open>The handle as a sink\<close>

fun command_of :: "effect \<Rightarrow> driver_command" where
  "command_of (SendControl command) = ControlDriver command"
| "command_of StopDriver = StopWorker"

text \<open>The thread holds the receiver of the commands for at least \<open>n\<close> more sends.\<close>

definition connected :: "nat \<Rightarrow> driver_handle \<Rightarrow> bool" where
  "connected n h \<longleftrightarrow> has_commands h \<and> n \<le> length (takeWhile id (worker_listens h))"

definition take_commands :: "effect list \<Rightarrow> driver_handle \<Rightarrow> driver_handle" where
  "take_commands es h = h\<lparr>worker_listens := drop (length es) (worker_listens h),
     delivered := delivered h @ map command_of es\<rparr>"

lemma send_command_connected:
  "connected (Suc n) h \<Longrightarrow> send_command command h =
     (Inr (), h\<lparr>worker_listens := tl (worker_listens h), delivered := delivered h @ [command]\<rparr>)"
  by (cases "worker_listens h") (auto simp: connected_def send_command_def split: if_splits)

lemma connected_drop:
  assumes "k + n \<le> length (takeWhile id xs)"
  shows "n \<le> length (takeWhile id (drop k xs))"
  using assms
proof (induction k arbitrary: xs)
  case (Suc k)
  then show ?case by (cases xs) (auto split: if_splits)
qed simp

interpretation driven: accepting_sink driver_sink connected take_commands
proof unfold_locales
  fix n h e
  assume "connected (Suc n) h"
  then show "perform_effect driver_sink e h = (Inr (), take_commands [e] h)"
    by (cases e) (simp_all add: perform_effect_def driver_sink_def send_control_def request_stop_def
        send_command_connected take_commands_def drop_Suc)
next
  fix es :: "effect list" and n h
  assume "connected (length es + n) h"
  then show "connected n (take_commands es h)"
    by (simp add: connected_def take_commands_def connected_drop)
qed (simp_all add: take_commands_def add.commute)

text \<open>The application never takes the sender out of the handle.\<close>

lemma send_command_has: "send_command command h = (r, h') \<Longrightarrow> has_commands h' = has_commands h"
  by (auto simp: send_command_def Let_def split: list.splits if_splits)

lemma perform_effect_has:
  "perform_effect driver_sink e h = (r, h') \<Longrightarrow> has_commands h' = has_commands h"
  by (cases e)
    (auto simp: perform_effect_def driver_sink_def send_control_def request_stop_def dest: send_command_has
      split: prod.splits sum.splits)

lemma perform_effects_has:
  "perform_effects driver_sink es s h = (s', h') \<Longrightarrow> has_commands h' = has_commands h"
proof (induction es arbitrary: s h)
  case (Cons e es)
  obtain r h1 where "perform_effect driver_sink e h = (r, h1)" by fastforce
  with Cons perform_effect_has [OF this] show ?case by (cases r) (auto simp del: reduce.simps)
qed simp

lemma application_loop_has:
  "application_loop draw driver_sink source s t h = (out, h') \<Longrightarrow> has_commands h' = has_commands h"
proof (induction source arbitrary: s t h)
  case Nil
  then show ?case by (subst (asm) application_loop.simps) (auto split: sum.splits if_splits)
next
  case (Cons x source)
  from Cons.prems show ?case
    by (subst (asm) application_loop.simps)
      (auto simp: Let_def simp del: reduce.simps split: prod.splits sum.splits if_splits
        dest!: Cons.IH perform_effects_has)
qed

section \<open>Leaving the thread\<close>

definition left_behind :: "'w thread \<Rightarrow> driver_handle \<times> 'w driver_world \<Rightarrow> bool" where
  "left_behind thread left \<longleftrightarrow>
     (case left of (h, thread', _, q) \<Rightarrow>
        ended thread' \<and> receiver_closed q \<and> (ended thread \<or> producer_closed q) \<and> \<not> has_commands h \<and>
        (listening thread \<longrightarrow> last (delivered h) = StopWorker))"

lemma drop_locals_ends:
  assumes "has_commands h"
  shows "\<exists>left. drop_locals wire (thread, pending, q) h = Some left \<and> left_behind thread left"
proof -
  obtain r h1 where r: "send_command StopWorker (h\<lparr>worker_listens := [listening thread]\<rparr>) = (r, h1)" by fastforce
  let ?pending = "if is_ok r then pending @ [StopWorker] else pending"
  have h1: "listening thread \<longrightarrow> last (delivered h1) = StopWorker"
    using r assms by (auto simp: send_command_def split: if_splits)
  have "\<exists>thread' pending' q'. join_thread wire False (thread, ?pending, drop_stream q) = Some (thread', pending', q') \<and>
      ended thread' \<and> receiver_closed q' \<and> (ended thread \<or> producer_closed q')"
  proof (cases "ended thread")
    case True
    then show ?thesis by (subst join_thread.simps) (simp add: drop_stream_def)
  next
    case False
    with join_when_receiver_closed [of "(thread, ?pending, drop_stream q)" wire] show ?thesis
      by (auto simp: drop_stream_def)
  qed
  with r h1 show ?thesis
    by (auto simp: drop_locals_def drop_driver_def left_behind_def)
qed

lemma leave_cases:
  assumes "has_commands h" "leave wire (thread, pending, q) h result tty = (out, tty', left)"
  shows "out = TuiExit result \<and> tty' = tty \<and> (\<exists>l. left = Some l \<and> left_behind thread l)"
proof -
  obtain l where "drop_locals wire (thread, pending, q) h = Some l" "left_behind thread l"
    using drop_locals_ends [OF assms(1)] by blast
  with assms(2) have "out = TuiExit result" "tty' = tty" "left = Some l" by (simp_all add: leave_def)
  with \<open>left_behind thread l\<close> show ?thesis by blast
qed

text \<open>Every way out of \<open>run\<close> after the driver was started leaves through there.\<close>

lemma run_tui_leaves:
  assumes "run_tui wire started listens created draw ready initial writes modes (thread, pending, q) = (out, tty, left)"
  shows "(\<exists>e. started = Inl e \<and> out = TuiExit (Inl e) \<and> left = None) \<or> (\<exists>s. out = TuiWaits s) \<or>
    (\<exists>r l. out = TuiExit r \<and> left = Some l \<and> left_behind thread l)"
proof (cases started)
  case (Inl e)
  with assms show ?thesis
    by (simp add: run_tui_def spawn_driver_def engine_event_channel_def SEMANTIC_EVENT_CAPACITY_def)
next
  case (Inr u)
  let ?h = "\<lparr>has_commands = True, worker_listens = listens, delivered = []\<rparr>"
  have spawned: "\<exists>c. spawn_driver started listens = Inr (?h, c)"
    by (simp add: Inr spawn_driver_def engine_event_channel_def SEMANTIC_EVENT_CAPACITY_def)
  obtain result h2 where h2: "\<And>t. created = Inr t \<Longrightarrow>
      run_application draw driver_sink (source_events ready) t ?h = (result, h2)"
    by (cases created) fastforce+
  then have "created = Inr t \<Longrightarrow> has_commands h2" for t
    using application_loop_has unfolding run_application_def by fastforce
  with assms spawned h2 show ?thesis
    by (auto simp: run_tui_def split: sum.splits prod.splits app_outcome.splits dest!: leave_cases [rotated])
qed

section \<open>Properties\<close>

text \<open>C9: However the interactive program ends, by the user, by an error of the terminal or of the
  event source or because the terminal could not be set up, and wherever the driver's thread stands
  then, connecting, looking at its commands, reading, waiting to send into a channel that may be full,
  or reporting: it does not hang on the thread. A thread that still takes commands is sent a stop as
  the last one, the thread has ended when the program does, the channel is closed, and nothing can be
  sent afterwards. An exit without an error leaves the terminal as it was found.\<close>

theorem exit_ends_driver:
  assumes "run_tui wire started listens created draw ready clean_tty writes modes (thread, pending, q) = (out, tty, left)"
  shows "out \<noteq> TuiHangs \<and>
    (\<forall>r. out = TuiExit r \<longrightarrow>
       (case left of
          None \<Rightarrow> \<exists>e. started = Inl e \<and> r = Inl e
        | Some (h, thread', pending', q') \<Rightarrow>
            ended thread' \<and> receiver_closed q' \<and> (ended thread \<or> producer_closed q') \<and>
            (listening thread \<longrightarrow> last (delivered h) = StopWorker) \<and>
            fst (send_command command h) = Inl engine_driver_stopped) \<and>
       (r = Inr () \<longrightarrow> tty = clean_tty))"
proof -
  have "r = Inr () \<Longrightarrow> out = TuiExit r \<Longrightarrow> tty = clean_tty" for r
    using run_tui_clean assms by metis
  with run_tui_leaves [OF assms] show ?thesis
    by (auto simp: left_behind_def send_command_def)
qed

text \<open>The terminal cannot be set up while the thread waits for space in a full channel.\<close>

definition full_channel :: event_queue where
  "full_channel = \<lparr>events = replicate 16 (DriverExited (Inr ())), semantic_events = 16, semantic_capacity = 16,
     producer_closed = False, receiver_closed = False\<rparr>"

theorem exit_ends_driver_witness:
  "\<exists>h thread pending q. run_tui sample_wire (Inr ()) [] (Inl (IoError OtherKind ''no terminal'') :: io_error + unit)
      (\<lambda>s t. Inr t) [] clean_tty [] [] (SendingEvent \<lparr>event_sequence = 1, ev_request_id = 1, ev_body = None\<rparr>
         \<lparr>wk_session = sample_session, wk_ingress = [], wk_sent = []\<rparr>, [], full_channel)
      = (TuiExit (Inl (IoError OtherKind ''no terminal'')), clean_tty, Some (h, thread, pending, q)) \<and>
    ended thread \<and> last (delivered h) = StopWorker"
proof -
  let ?thread = "SendingEvent \<lparr>event_sequence = 1, ev_request_id = 1, ev_body = None\<rparr>
      \<lparr>wk_session = sample_session, wk_ingress = [], wk_sent = []\<rparr>"
  let ?error = "IoError OtherKind ''no terminal''"
  obtain out tty left where run: "run_tui sample_wire (Inr ()) [] (Inl ?error :: io_error + unit)
      (\<lambda>s t. Inr t) [] clean_tty [] [] (?thread, [], full_channel) = (out, tty, left)"
    by (rule prod_cases3)
  have "out = TuiHangs \<or> out = TuiExit (Inl ?error) \<and> tty = clean_tty"
    using run
    by (auto simp: run_tui_def spawn_driver_def engine_event_channel_def SEMANTIC_EVENT_CAPACITY_def
        leave_def enter_with_def enter_steps_def bindS_def change_guard_def
        execute_def switch_raw_def drop_guard_def restore_def undo_def clean_tty_def split: option.splits)
  with exit_ends_driver [OF run] run show ?thesis
    by (cases left) auto
qed

text \<open>C15: With a terminal that works and a driver's thread that takes every command sent to it before
  it reports its end, the interactive program is exactly a run of the reducer from its first state up to
  the driver's exit: it sends the driver exactly the reducer's effects, in order, and nothing else,
  since the thread has dropped its queue before it reported; it reads no event after the driver's exit,
  and leaves the terminal as it was found.\<close>

theorem program_runs_reducer:
  assumes "\<forall>e \<in> set es. \<forall>r. e \<noteq> DriverExited r"
    and "source_events ready = map Inr (es @ DriverExited r # later)"
  defines "effects \<equiv> fst (run reduce (es @ [DriverExited r]) default_app_state)"
  shows "run_tui wire (Inr ()) (replicate (length effects) True) (Inr t) (\<lambda>s t. Inr t) ready clean_tty [] []
      (Ended, [], q) =
    (TuiExit (Inr ()), clean_tty,
     Some (\<lparr>has_commands = False, worker_listens = [], delivered = map command_of effects\<rparr>,
       Ended, [], drop_stream q))"
proof -
  let ?h = "\<lparr>has_commands = True, worker_listens = replicate (length effects) True, delivered = []\<rparr>"
  have spawned: "\<exists>q. spawn_driver (Inr ()) (replicate (length effects) True) = Inr (?h, q)"
    by (simp add: spawn_driver_def engine_event_channel_def SEMANTIC_EVENT_CAPACITY_def)
  have "connected (length effects + 0) ?h"
    by (simp add: connected_def takeWhile_eq_all_conv [THEN iffD2])
  note application = driven.application_runs [OF assms(1) this [unfolded effects_def]]
  obtain g where g: "enter_with clean_tty [] [] = (Inr (), g)" "guard_writes g = []" "guard_modes g = []"
    by (simp add: enter_with_def enter_steps_def bindS_def change_guard_def execute_def switch_raw_def)
  obtain p k where k: "restore g = (p, k)" by fastforce
  have "p = Inr ()" using restore_spec [OF k] g by simp
  then have "guard_tty (drop_guard k) = clean_tty"
    using restore_clean [OF enter_with_covers [OF g(1)]] restore_spec [OF k] drop_unflagged k by simp
  moreover have "leave wire (Ended, [], q) (take_commands effects ?h) (Inr ()) tty =
      (TuiExit (Inr ()), tty, Some (\<lparr>has_commands = False, worker_listens = [], delivered = map command_of effects\<rparr>,
       Ended, [], drop_stream q))" for tty
    by (simp add: leave_def drop_locals_def drop_driver_def send_command_def take_commands_def join_thread.simps)
  ultimately show ?thesis
    using spawned g(1) k \<open>p = Inr ()\<close> application [of later t]
    by (auto simp: run_tui_def assms(2) effects_def)
qed

theorem program_runs_reducer_witness:
  "\<exists>h left. run_tui sample_wire (Inr ()) [True] (Inr ()) (\<lambda>s t. Inr t)
      [FromTerminal (Some (Inr (TermKey (KeyChar CHR ''q'') KeyPress))), FromEngine (Inr (DriverExited (Inr ()))),
       FromTerminal (Some (Inr TermResize))] clean_tty [] [] (Ended, [], ready_channel)
      = (TuiExit (Inr ()), clean_tty, Some (h, left)) \<and>
    delivered h = [ControlDriver \<lparr>cc_request_id = 2, cc_kind = CancelScan\<rparr>]"
proof -
  let ?ready = "[FromTerminal (Some (Inr (TermKey (KeyChar CHR ''q'') KeyPress))),
    FromEngine (Inr (DriverExited (Inr ()))), FromTerminal (Some (Inr TermResize))]"
  have ready: "source_events ?ready = map Inr ([Key (KeyChar CHR ''q'') KeyPress] @ DriverExited (Inr ()) # [Resize])"
    by (simp add: source_events.simps)
  have effects: "fst (run reduce ([Key (KeyChar CHR ''q'') KeyPress] @ [DriverExited (Inr ())]) default_app_state)
      = [SendControl \<lparr>cc_request_id = 2, cc_kind = CancelScan\<rparr>]"
    by (simp add: reducer_eval)
  from program_runs_reducer [OF _ ready, of sample_wire "()" ready_channel] show ?thesis
    unfolding effects by simp
qed

end
