(* ===== verification/Render.thy ===== *)
theory Render
  imports Reducer "HOL-Library.Monad_Syntax"
begin

text \<open>
  What the terminal shows for a state, \<open>diskplan-cli/src/tui/render.rs\<close>: the text of every line with
  its number formats, and which widget is drawn into which part of the frame, in order. Solving the
  constraints of a layout is the library's work (\<open>ratatui\<close>): \<open>split\<close> stands for
  \<open>Layout::default().direction(d).constraints(cs).split(area)\<close>. Drawing a widget is recorded, and
  an index outside of the rectangles that \<open>split\<close> returned is a panic, \<open>None\<close>.
\<close>

section \<open>Widgets\<close>

record rect =
  rect_x :: u16
  rect_y :: u16
  rect_width :: u16
  rect_height :: u16

datatype direction = Horizontal | Vertical

datatype layout_constraint = Length_of u16 | Min_of u16 | Percentage_of u16

datatype text_style = DefaultStyle | FgDarkGray | BoldModifier

datatype text_line =
    LineFrom detail
  | LineStyled string text_style
  | LineSpans "(string \<times> text_style) list"

datatype borders = BordersAll | BordersTop

record block =
  block_borders :: borders
  block_title :: "string option"

record text_paragraph =
  paragraph_lines :: "text_line list"
  paragraph_block :: "block option"
  wrap_trim :: "bool option"
  left_aligned :: bool

datatype widget = Paragraph text_paragraph | Clear

type_synonym drawing = "widget \<times> rect"
type_synonym layout_split = "direction \<Rightarrow> layout_constraint list \<Rightarrow> rect \<Rightarrow> rect list"

abbreviation line :: "string \<Rightarrow> text_line" where
  "line s \<equiv> LineFrom (Text s)"

text \<open>\<open>Paragraph::new\<close>, and \<open>Paragraph::new(body).block(..all borders, title..).wrap(trim)\<close>.\<close>

definition paragraph_new :: "text_line list \<Rightarrow> text_paragraph" where
  "paragraph_new ls =
     \<lparr>paragraph_lines = ls, paragraph_block = None, wrap_trim = None, left_aligned = False\<rparr>"

definition titled :: "string \<Rightarrow> text_line list \<Rightarrow> text_paragraph" where
  "titled t ls = (paragraph_new ls)
     \<lparr>paragraph_block := Some \<lparr>block_borders = BordersAll, block_title = Some t\<rparr>,
      wrap_trim := Some True\<rparr>"

definition section_at :: "rect list \<Rightarrow> nat \<Rightarrow> rect option" where
  "section_at rs i = (if i < length rs then Some (rs ! i) else None)"

section \<open>Number formats\<close>

text \<open>Division that rounds to the nearest integer, a tie to the even one: what a conversion to
  \<open>f64\<close> and the format \<open>{:.1}\<close> do.\<close>

definition div_half_even :: "nat \<Rightarrow> nat \<Rightarrow> nat" where
  "div_half_even n d =
     (let q = n div d; r = n mod d in
      if d < 2 * r \<or> (d = 2 * r \<and> odd q) then q + 1 else q)"

text \<open>The exponent of the last of the 53 bits of an integer's \<open>f64\<close>, and the \<open>f64\<close>, an integer too.\<close>

fun f64_exponent :: "nat \<Rightarrow> nat" where
  "f64_exponent n = (if n < 2 ^ 53 then 0 else Suc (f64_exponent (n div 2)))"

declare f64_exponent.simps [simp del]

definition as_f64 :: "nat \<Rightarrow> nat" where
  "as_f64 n = div_half_even n (2 ^ f64_exponent n) * 2 ^ f64_exponent n"

text \<open>\<open>format!("{:.1}", bytes as f64 / unit as f64)\<close>; the division by a power of two is exact.\<close>

definition tenths :: "nat \<Rightarrow> nat \<Rightarrow> nat" where
  "tenths bytes unit = div_half_even (10 * as_f64 bytes) unit"

definition show_tenths :: "nat \<Rightarrow> string" where
  "show_tenths t = show_nat (t div 10) @ ''.'' @ show_nat (t mod 10)"

definition kib :: nat where "kib = 1024"
definition mib :: nat where "mib = kib * 1024"
definition gib :: nat where "gib = mib * 1024"

definition format_bytes :: "u64 \<Rightarrow> string" where
  "format_bytes bytes =
     (if gib \<le> unat bytes then show_tenths (tenths (unat bytes) gib) @ '' GiB''
      else if mib \<le> unat bytes then show_tenths (tenths (unat bytes) mib) @ '' MiB''
      else if kib \<le> unat bytes then show_tenths (tenths (unat bytes) kib) @ '' KiB''
      else show_u64 bytes @ '' B'')"

text \<open>\<open>{:02}\<close>\<close>

definition show_padded_2 :: "nat \<Rightarrow> string" where
  "show_padded_2 n = replicate (2 - length (show_nat n)) (CHR ''0'') @ show_nat n"

definition format_duration :: "u64 \<Rightarrow> string" where
  "format_duration milliseconds =
     (let seconds = unat milliseconds div 1000 in
      show_nat (seconds div 60) @ '':'' @ show_padded_2 (seconds mod 60))"

text \<open>\<open>{:<n}\<close> and \<open>{:>n}\<close> count characters: the bytes that do not continue one.\<close>

definition char_count :: "string \<Rightarrow> nat" where
  "char_count s = length (filter (\<lambda>c. \<not> (128 \<le> (of_char c :: nat) \<and> (of_char c :: nat) < 192)) s)"

definition pad_right :: "nat \<Rightarrow> string \<Rightarrow> string" where
  "pad_right n s = s @ replicate (n - char_count s) (CHR '' '')"

definition pad_left :: "nat \<Rightarrow> string \<Rightarrow> string" where
  "pad_left n s = replicate (n - char_count s) (CHR '' '') @ s"

text \<open>The character U+2022 in UTF-8, between spaces.\<close>

definition bullet :: string where
  "bullet = '' '' @ [CHR 0xE2, CHR 0x80, CHR 0xA2] @ '' ''"

section \<open>The scan screen\<close>

definition scan_wide :: "app_state \<Rightarrow> text_line list" where
  "scan_wide s =
     (case progress s of
        None \<Rightarrow> [line (''Waiting for the first ScanProgress event'' @ ellipsis)]
      | Some p \<Rightarrow>
          [line (''Profile '' @ pad_right 14 (sp_profile p) @
             '' Elapsed '' @ pad_right 12 (format_duration (elapsed_millis p)) @
             '' Rate '' @ show_u64 (entries_per_second p) @ '' entries/s''),
           line (''Entries '' @ pad_right 14 (show_u64 (sp_entries p)) @
             '' Directories '' @ pad_right 10 (show_u64 (sp_directories p)) @
             '' Candidates '' @ show_u64 (sp_candidates p)),
           line (''Allocated observed '' @ pad_right 12 (format_bytes (allocated_bytes_observed p)) @
             '' Reclaim estimate '' @ format_bytes (reclaim_estimate_bytes p)),
           line (''Complete roots '' @ pad_right 9 (show_u64 (complete_roots p)) @
             '' Partial roots '' @ pad_right 9 (show_u64 (partial_roots p)) @
             '' Structural budget '' @ show_u64 (structural_budget p)),
           line (''Current root '' @ current_root p),
           line '''',
           LineStyled (''Completion percentage is intentionally unavailable: '' @
             ''the engine has not proved a denominator.'') FgDarkGray])"

definition scan_medium :: "app_state \<Rightarrow> text_line list" where
  "scan_medium s =
     (case progress s of
        None \<Rightarrow> [line (''Waiting for ScanProgress'' @ ellipsis)]
      | Some p \<Rightarrow>
          [line (sp_profile p @ ''  '' @ format_duration (elapsed_millis p) @ ''  '' @
             show_u64 (entries_per_second p) @ ''/s''),
           line (show_u64 (sp_entries p) @ '' entries  '' @ show_u64 (sp_directories p) @
             '' dirs  '' @ show_u64 (sp_candidates p) @ '' candidates''),
           line (''Observed '' @ format_bytes (allocated_bytes_observed p) @
             ''  Estimate '' @ format_bytes (reclaim_estimate_bytes p)),
           line (''Roots '' @ show_u64 (complete_roots p) @ '' complete / '' @
             show_u64 (partial_roots p) @ '' partial  Budget '' @ show_u64 (structural_budget p)),
           line (''Root '' @ current_root p),
           LineStyled ''No completion percentage'' FgDarkGray])"

definition scan_compact :: "app_state \<Rightarrow> text_line list" where
  "scan_compact s =
     (case progress s of
        None \<Rightarrow> [line (''Waiting for scan facts'' @ ellipsis)]
      | Some p \<Rightarrow>
          [line (sp_profile p @ bullet @ format_duration (elapsed_millis p)),
           line (show_u64 (sp_entries p) @ '' entries'' @ bullet @ show_u64 (entries_per_second p) @ ''/s''),
           line (show_u64 (sp_directories p) @ '' dirs'' @ bullet @ show_u64 (sp_candidates p) @
             '' candidates''),
           line (format_bytes (allocated_bytes_observed p) @ '' observed'' @ bullet @
             format_bytes (reclaim_estimate_bytes p) @ '' estimate''),
           line (''roots '' @ show_u64 (complete_roots p) @ ''/'' @ show_u64 (partial_roots p) @
             '' complete/partial''),
           line (current_root p)])"

section \<open>The plan screen\<close>

definition plan_row :: "string \<Rightarrow> string \<Rightarrow> string \<Rightarrow> string \<Rightarrow> string \<Rightarrow> string" where
  "plan_row title actions immediate shared status =
     pad_right 22 title @ '' '' @ pad_left 8 actions @ '' '' @ pad_left 14 immediate @ '' '' @
     pad_left 14 shared @ ''  '' @ status"

definition plan_wide :: "provisional_plan \<Rightarrow> text_line list" where
  "plan_wide plan =
     [line (''Plan '' @ plan_id plan @ ''  Actions '' @ show_u64 (plan_action_count plan) @
        ''  Immediate '' @ format_bytes (plan_immediate_reclaim_bytes plan) @
        ''  Shared unlock '' @ format_bytes (plan_conditional_reclaim_bytes plan)),
      line '''',
      LineStyled (plan_row ''Plan group'' ''Actions'' ''Immediate'' ''Shared unlock'' ''Status'')
        BoldModifier] @
     map (\<lambda>group. line (plan_row (pg_title group) (show_u64 (pg_action_count group))
            (format_bytes (pg_immediate_reclaim_bytes group))
            (format_bytes (pg_conditional_reclaim_bytes group)) (pg_status group)))
       (plan_groups plan)"

definition plan_medium :: "provisional_plan \<Rightarrow> text_line list" where
  "plan_medium plan =
     [line (plan_id plan @ bullet @ show_u64 (plan_action_count plan) @ '' actions''),
      line (''Immediate '' @ format_bytes (plan_immediate_reclaim_bytes plan) @ bullet @
        ''Shared unlock '' @ format_bytes (plan_conditional_reclaim_bytes plan)),
      line ''''] @
     concat (map (\<lambda>group.
       [LineStyled (pg_title group @ bullet @ show_u64 (pg_action_count group) @ '' actions'')
          BoldModifier,
        line (''  '' @ format_bytes (pg_immediate_reclaim_bytes group) @ '' immediate'' @ bullet @
          format_bytes (pg_conditional_reclaim_bytes group) @ '' shared'' @ bullet @ pg_status group)])
       (plan_groups plan))"

definition plan_compact :: "provisional_plan \<Rightarrow> text_line list" where
  "plan_compact plan =
     [line (show_u64 (plan_action_count plan) @ '' actions''),
      line (format_bytes (plan_immediate_reclaim_bytes plan) @ '' immediate''),
      line (format_bytes (plan_conditional_reclaim_bytes plan) @ '' shared unlock'')] @
     map (\<lambda>group. line (pg_title group @ bullet @ show_u64 (pg_action_count group) @ bullet @
            pg_status group))
       (plan_groups plan)"

section \<open>The parts of the frame\<close>

definition render_header :: "app_state \<Rightarrow> rect \<Rightarrow> string \<Rightarrow> drawing" where
  "render_header s area title =
     (Paragraph ((paragraph_new
        [LineSpans [('' diskplan '', BoldModifier),
                    (title @ '' '' @ bullet @ '' '' @ scan_state_debug (scan_state s), DefaultStyle)]])
        \<lparr>paragraph_block := Some \<lparr>block_borders = BordersAll, block_title = None\<rparr>\<rparr>), area)"

fun footer_keys :: "screen \<Rightarrow> string" where
  "footer_keys ScanScreen = ''q cancel  Space pause/resume  p provisional plan  ? or / help''"
| "footer_keys ProvisionalPlanScreen = ''q cancel  r resume + invalidate  ? help''"

definition render_footer :: "app_state \<Rightarrow> rect \<Rightarrow> drawing" where
  "render_footer s area =
     (Paragraph ((paragraph_new
        [line (footer_keys (screen s)),
         LineFrom (case banner s of Some b \<Rightarrow> b | None \<Rightarrow> Text ''Waiting for engine events'')])
        \<lparr>paragraph_block := Some \<lparr>block_borders = BordersTop, block_title = None\<rparr>\<rparr>), area)"

definition screen_constraints :: "layout_constraint list" where
  "screen_constraints = [Length_of 3, Min_of 3, Length_of 3]"

definition scan_body :: "app_state \<Rightarrow> rect \<Rightarrow> text_line list" where
  "scan_body s area =
     (if 100 \<le> rect_width area then scan_wide s
      else if 60 \<le> rect_width area then scan_medium s
      else scan_compact s)"

definition render_scan :: "layout_split \<Rightarrow> app_state \<Rightarrow> rect \<Rightarrow> drawing list option" where
  "render_scan split s area = do {
     let sections = split Vertical screen_constraints area;
     header_area \<leftarrow> section_at sections 0;
     body_area \<leftarrow> section_at sections 1;
     footer_area \<leftarrow> section_at sections 2;
     Some [render_header s header_area ''Read-only scan'',
           (Paragraph (titled '' Engine facts '' (scan_body s area)), body_area),
           render_footer s footer_area]
   }"

definition plan_body :: "app_state \<Rightarrow> rect \<Rightarrow> text_line list" where
  "plan_body s area =
     (case provisional_plan s of
        Some plan \<Rightarrow>
          (if 100 \<le> rect_width area then plan_wide plan
           else if 60 \<le> rect_width area then plan_medium plan
           else plan_compact plan)
      | None \<Rightarrow> [line (''Waiting for the engine projection'' @ ellipsis)])"

definition render_plan :: "layout_split \<Rightarrow> app_state \<Rightarrow> rect \<Rightarrow> drawing list option" where
  "render_plan split s area = do {
     let sections = split Vertical screen_constraints area;
     header_area \<leftarrow> section_at sections 0;
     body_area \<leftarrow> section_at sections 1;
     footer_area \<leftarrow> section_at sections 2;
     Some [render_header s header_area ''Provisional plan'',
           (Paragraph (titled '' Plan-first summary '' (plan_body s area)), body_area),
           render_footer s footer_area]
   }"

section \<open>The help popup\<close>

definition centered_constraints :: "u16 \<Rightarrow> layout_constraint list" where
  "centered_constraints percent =
     [Percentage_of ((100 - percent) div 2), Percentage_of percent,
      Percentage_of ((100 - percent) div 2)]"

definition centered_rect :: "layout_split \<Rightarrow> u16 \<Rightarrow> u16 \<Rightarrow> rect \<Rightarrow> rect option" where
  "centered_rect split percent_x percent_y area = do {
     let vertical = split Vertical (centered_constraints percent_y) area;
     row \<leftarrow> section_at vertical 1;
     section_at (split Horizontal (centered_constraints percent_x) row) 1
   }"

fun help_text :: "screen \<Rightarrow> text_line list" where
  "help_text ScanScreen =
     [line ''q      cancel once and wait for engine exit'',
      line ''Space  pause/resume after engine acknowledgement'',
      line ''p      pause and build a provisional plan'',
      line ''? /    close this contextual help'']"
| "help_text ProvisionalPlanScreen =
     [line ''q      cancel once and wait for engine exit'',
      line ''r      resume and invalidate this projection'',
      line ''?      close this contextual help'']"

definition render_help :: "layout_split \<Rightarrow> app_state \<Rightarrow> rect \<Rightarrow> drawing list option" where
  "render_help split s area =
     (if rect_width area < 18 \<or> rect_height area < 7 then Some []
      else do {
        popup \<leftarrow> centered_rect split 70 60 area;
        Some [(Clear, popup),
              (Paragraph ((titled '' Hotkeys '' (help_text (screen s)))\<lparr>left_aligned := True\<rparr>), popup)]
      })"

section \<open>The frame\<close>

definition render :: "layout_split \<Rightarrow> app_state \<Rightarrow> rect \<Rightarrow> drawing list option" where
  "render split s area =
     (if rect_width area \<le> 3 \<or> rect_height area \<le> 2
      then Some [(Paragraph (paragraph_new [line ''Diskplan'']), area)]
      else do {
        main \<leftarrow> (case screen s of
                   ScanScreen \<Rightarrow> render_scan split s area
                 | ProvisionalPlanScreen \<Rightarrow> render_plan split s area);
        popup \<leftarrow> (if help_visible s then render_help split s area else Some []);
        Some (main @ popup)
      })"

end
