(* ===== verification/Render_Laws.thy ===== *)
theory Render_Laws
  imports Render
begin

text \<open>
  What \<open>Render\<close> promises: a frame is drawn without a panic, inside its area, whatever the size of the
  terminal, given what the layout library documents; the byte counts it prints are the nearest ones
  of their unit; the footer names every key that does something.
\<close>

section \<open>Rounding\<close>

lemma div_half_even_exact: "0 < d \<Longrightarrow> div_half_even (q * d) d = q"
  by (simp add: div_half_even_def)

lemma div_half_even_mono:
  assumes "a \<le> b" "0 < d"
  shows "div_half_even a d \<le> div_half_even b d"
proof (cases "a div d = b div d")
  case True
  have "a mod d = a - b div d * d" "b mod d = b - b div d * d"
    using True by (simp_all add: minus_div_mult_eq_mod [symmetric])
  with assms(1) have "a mod d \<le> b mod d" by linarith
  with True show ?thesis
    by (auto simp: div_half_even_def Let_def)
next
  case False
  with assms have "a div d + 1 \<le> b div d"
    by (metis Suc_eq_plus1 Suc_leI div_le_mono le_neq_implies_less)
  then show ?thesis
    by (auto simp: div_half_even_def Let_def)
qed

text \<open>The multiple of \<open>u\<close> nearest to \<open>n\<close>; of two at the same distance the even one.\<close>

definition nearest_multiple :: "nat \<Rightarrow> nat \<Rightarrow> nat \<Rightarrow> bool" where
  "nearest_multiple u n m \<longleftrightarrow>
     u dvd m \<and> 2 * m \<le> 2 * n + u \<and> 2 * n \<le> 2 * m + u \<and>
     (2 * m = 2 * n + u \<or> 2 * n = 2 * m + u \<longrightarrow> even (m div u))"

lemma div_half_even_multiple:
  assumes "0 < u"
  shows "nearest_multiple u n (div_half_even n u * u)"
proof -
  define q r where "q = n div u" and "r = n mod u"
  have n: "n = q * u + r" and r: "r < u"
    using assms by (simp_all add: q_def r_def)
  have e: "div_half_even n u = (if u < 2 * r \<or> (u = 2 * r \<and> odd q) then q + 1 else q)"
    by (simp add: div_half_even_def q_def r_def Let_def)
  show ?thesis
    unfolding nearest_multiple_def e using n r assms by (auto simp: algebra_simps)
qed

lemma f64_exponent_small: "n < 2 ^ 53 \<Longrightarrow> f64_exponent n = 0"
  by (subst f64_exponent.simps) simp

lemma f64_exponent_le: "n < 2 ^ (53 + k) \<Longrightarrow> f64_exponent n \<le> k"
proof (induction k arbitrary: n)
  case (Suc k)
  then have "n < 2 ^ (53 + k) * 2" by (simp add: power_add)
  then have "n div 2 < 2 ^ (53 + k)" by (rule less_mult_imp_div_less)
  then have "f64_exponent (n div 2) \<le> k" by (rule Suc.IH)
  then show ?case by (subst f64_exponent.simps) simp
qed (simp add: f64_exponent_small)

lemma f64_exponent_bits:
  assumes "2 ^ 53 \<le> n"
  shows "2 ^ (52 + f64_exponent n) \<le> n \<and> n < 2 ^ (53 + f64_exponent n)"
  using assms
proof (induction n rule: f64_exponent.induct)
  case (1 n)
  have e: "f64_exponent n = Suc (f64_exponent (n div 2))"
    using 1(2) by (subst f64_exponent.simps) simp
  show ?case
  proof (cases "n div 2 < 2 ^ 53")
    case True
    then show ?thesis using 1(2) by (simp add: e f64_exponent_small)
  next
    case False
    with 1 have "2 ^ (52 + f64_exponent (n div 2)) \<le> n div 2" "n div 2 < 2 ^ (53 + f64_exponent (n div 2))"
      by simp_all
    then have "2 * 2 ^ (52 + f64_exponent (n div 2)) \<le> n" "n < 2 * 2 ^ (53 + f64_exponent (n div 2))"
      by linarith+
    then show ?thesis by (simp only: e add_Suc_right power_Suc simp_thms)
  qed
qed

lemma as_f64_exact: "n < 2 ^ 53 \<Longrightarrow> as_f64 n = n"
  using div_half_even_exact [of 1 n] by (simp add: as_f64_def f64_exponent_small)

section \<open>Byte counts and durations\<close>

lemmas units = kib_def mib_def gib_def

text \<open>No rounding goes below one unit.\<close>

lemma as_f64_ge:
  assumes "2 ^ k \<le> n" "k < 53"
  shows "2 ^ k \<le> as_f64 n"
proof (cases "n < 2 ^ 53")
  case True
  then show ?thesis using assms(1) by (simp add: as_f64_exact)
next
  case False
  have "2 ^ f64_exponent n * 2 ^ 52 \<le> n"
    using False
  proof (induction n rule: f64_exponent.induct)
    case (1 n)
    show ?case
    proof (cases "n div 2 < 2 ^ 53")
      case True
      then have "f64_exponent n = 1"
        using 1(2) by (subst f64_exponent.simps) (simp add: f64_exponent_small)
      with 1(2) show ?thesis by simp
    next
      case False
      from 1(1) [OF 1(2) False] have "2 * (2 ^ f64_exponent (n div 2) * 2 ^ 52) \<le> n"
        by linarith
      with 1(2) show ?thesis by (subst f64_exponent.simps) simp
    qed
  qed
  then have "2 ^ 52 \<le> div_half_even n (2 ^ f64_exponent n)"
    using div_half_even_mono [of "2 ^ 52 * 2 ^ f64_exponent n" n "2 ^ f64_exponent n"]
      div_half_even_exact [of "2 ^ f64_exponent n" "2 ^ 52"]
    by (simp add: mult.commute)
  moreover have "(2::nat) ^ k \<le> 2 ^ 52"
    using assms(2) by (intro power_increasing) simp_all
  ultimately have "2 ^ k * 1 \<le> as_f64 n"
    unfolding as_f64_def by (intro mult_le_mono) simp_all
  then show ?thesis by simp
qed

lemma tenths_ge_10:
  assumes "2 ^ k \<le> n" "k < 53"
  shows "10 \<le> tenths n (2 ^ k)"
  using div_half_even_mono [of "10 * 2 ^ k" "10 * as_f64 n" "2 ^ k"] as_f64_ge [OF assms]
    div_half_even_exact [of "2 ^ k" 10]
  by (simp add: tenths_def)

lemma format_bytes_unit:
  assumes "1024 \<le> unat b"
  obtains k name where "(k, name) \<in> {(10, '' KiB''), (20, '' MiB''), (30, '' GiB'')}"
    "2 ^ k \<le> unat b" "k \<noteq> 30 \<longrightarrow> unat b < 1024 * 2 ^ k"
    "format_bytes b = show_tenths (tenths (unat b) (2 ^ k)) @ name"
proof -
  consider "gib \<le> unat b" | "mib \<le> unat b" "unat b < gib" | "unat b < mib" by linarith
  then show thesis
  proof cases
    case 1
    then show thesis by (intro that [of 30 "'' GiB''"]) (simp_all add: format_bytes_def units)
  next
    case 2
    then show thesis by (intro that [of 20 "'' MiB''"]) (simp_all add: format_bytes_def units)
  next
    case 3
    then show thesis using assms
      by (intro that [of 10 "'' KiB''"]) (simp_all add: format_bytes_def units)
  qed
qed

lemma digit_0: "digit 0 = CHR ''0''"
  by (simp add: digit_def char_of_def bit_0)

lemma show_padded_2:
  assumes "n < 100"
  shows "show_padded_2 n = [digit (n div 10), digit (n mod 10)]"
proof -
  have "n div 10 < 10" using assms by simp
  then show ?thesis
    by (cases "n < 10")
      (simp_all add: show_padded_2_def show_nat.simps [of n] show_nat.simps [of "n div 10"] digit_0)
qed

lemma format_duration_exact:
  "\<exists>minutes seconds. format_duration ms = show_nat minutes @ '':'' @ [digit (seconds div 10), digit (seconds mod 10)]
     \<and> seconds < 60 \<and> minutes * 60 + seconds = unat ms div 1000"
  by (rule exI [of _ "unat ms div 1000 div 60"], rule exI [of _ "unat ms div 1000 mod 60"])
    (simp add: format_duration_def Let_def show_padded_2)

text \<open>Numbers of the repository's own snapshots; \<open>1.25\<close> is a tie and goes to the even digit.\<close>

lemmas number_evals = format_bytes_def units tenths_def as_f64_exact div_half_even_def show_tenths_def
  show_nat.simps digit_def char_of_def bit_0 Let_def

lemma snapshot_numbers:
  "format_bytes 1342177280 = ''1.2 GiB''" "format_bytes 1073741824 = ''1.0 GiB''"
  "format_bytes 268435456 = ''256.0 MiB''" "format_bytes 0 = ''0 B''"
  by (simp_all add: number_evals)

lemma snapshot_row:
  "plan_row ''Ready'' (show_nat 8) (format_bytes 1073741824) (format_bytes 0) ''ready''
     = ''Ready                         8        1.0 GiB            0 B  ready''"
  by (simp only: snapshot_numbers) code_simp

section \<open>Layouts\<close>

text \<open>A rectangle of cells whose edges are in range, a rectangle inside another, and two that share
  no cell.\<close>

definition rect_ok :: "rect \<Rightarrow> bool" where
  "rect_ok r \<longleftrightarrow> unat (rect_x r) + unat (rect_width r) < 2 ^ 16 \<and>
     unat (rect_y r) + unat (rect_height r) < 2 ^ 16"

definition inside :: "rect \<Rightarrow> rect \<Rightarrow> bool" where
  "inside r area \<longleftrightarrow>
     rect_x area \<le> rect_x r \<and>
     unat (rect_x r) + unat (rect_width r) \<le> unat (rect_x area) + unat (rect_width area) \<and>
     rect_y area \<le> rect_y r \<and>
     unat (rect_y r) + unat (rect_height r) \<le> unat (rect_y area) + unat (rect_height area)"

definition apart :: "rect \<Rightarrow> rect \<Rightarrow> bool" where
  "apart r q \<longleftrightarrow>
     unat (rect_x r) + unat (rect_width r) \<le> unat (rect_x q) \<or>
     unat (rect_x q) + unat (rect_width q) \<le> unat (rect_x r) \<or>
     unat (rect_y r) + unat (rect_height r) \<le> unat (rect_y q) \<or>
     unat (rect_y q) + unat (rect_height q) \<le> unat (rect_y r)"

text \<open>What the layout library documents of \<open>split\<close>: one rectangle for each constraint, inside the
  area, none overlapping another.\<close>

definition layout_laws :: "layout_split \<Rightarrow> bool" where
  "layout_laws split \<longleftrightarrow>
     (\<forall>d cs area. rect_ok area \<longrightarrow>
        length (split d cs area) = length cs \<and>
        (\<forall>r \<in> set (split d cs area). inside r area) \<and>
        sorted_wrt apart (split d cs area))"

lemma inside_refl: "inside r r"
  by (simp add: inside_def)

lemma inside_trans: "inside r q \<Longrightarrow> inside q a \<Longrightarrow> inside r a"
  unfolding inside_def by (meson order_trans)

lemma inside_ok: "inside r a \<Longrightarrow> rect_ok a \<Longrightarrow> rect_ok r"
  unfolding inside_def rect_ok_def by linarith

lemma split_three:
  assumes "layout_laws split" "rect_ok area"
  obtains a b c where "split d [x, y, z] area = [a, b, c]"
    "inside a area" "inside b area" "inside c area" "apart a b" "apart a c" "apart b c"
proof -
  have "length (split d [x, y, z] area) = 3" "\<forall>r \<in> set (split d [x, y, z] area). inside r area"
    "sorted_wrt apart (split d [x, y, z] area)"
    using assms by (simp_all add: layout_laws_def)
  then show thesis
    using that by (auto simp: length_Suc_conv numeral_3_eq_3)
qed

lemma section_at_three [simp]:
  "section_at [a, b, c] 0 = Some a" "section_at [a, b, c] (Suc 0) = Some b"
  "section_at [a, b, c] 2 = Some c"
  by (simp_all add: section_at_def)

lemma centered_rect_inside:
  assumes "layout_laws split" "rect_ok area"
  obtains r where "centered_rect split px py area = Some r" "inside r area"
proof -
  obtain a b c where rows: "split Vertical (centered_constraints py) area = [a, b, c]" "inside b area"
    using split_three [OF assms] unfolding centered_constraints_def by metis
  obtain d e f where "split Horizontal (centered_constraints px) b = [d, e, f]" "inside e b"
    using split_three [OF assms(1) inside_ok [OF rows(2) assms(2)]]
    unfolding centered_constraints_def by metis
  with rows show thesis
    by (intro that [of e]) (auto simp: centered_rect_def intro: inside_trans)
qed

section \<open>The frame\<close>

text \<open>The three parts of a screen, and the popup over them.\<close>

definition screen_drawn :: "rect \<Rightarrow> drawing list \<Rightarrow> bool" where
  "screen_drawn area ds \<longleftrightarrow>
     (\<forall>d \<in> set ds. inside (snd d) area) \<and> sorted_wrt (\<lambda>d e. apart (snd d) (snd e)) ds"

definition popup_drawn :: "rect \<Rightarrow> drawing list \<Rightarrow> bool" where
  "popup_drawn area ds \<longleftrightarrow>
     ds = [] \<or> (\<exists>p r. ds = [(Clear, r), (Paragraph p, r)] \<and> inside r area)"

lemma screen_drawn_three:
  assumes "inside a area" "inside b area" "inside c area" "apart a b" "apart a c" "apart b c"
  shows "screen_drawn area [(u, a), (v, b), (w, c)]"
  using assms by (simp add: screen_drawn_def)

lemma render_scan_drawn:
  assumes "layout_laws split" "rect_ok area"
  obtains ds where "render_scan split s area = Some ds" "screen_drawn area ds"
proof -
  obtain a b c where "split Vertical screen_constraints area = [a, b, c]"
    "inside a area" "inside b area" "inside c area" "apart a b" "apart a c" "apart b c"
    using split_three [OF assms] unfolding screen_constraints_def by metis
  then show thesis
    by (intro that) (simp add: render_scan_def render_header_def render_footer_def,
      simp add: screen_drawn_three)
qed

lemma render_plan_drawn:
  assumes "layout_laws split" "rect_ok area"
  obtains ds where "render_plan split s area = Some ds" "screen_drawn area ds"
proof -
  obtain a b c where "split Vertical screen_constraints area = [a, b, c]"
    "inside a area" "inside b area" "inside c area" "apart a b" "apart a c" "apart b c"
    using split_three [OF assms] unfolding screen_constraints_def by metis
  then show thesis
    by (intro that) (simp add: render_plan_def render_header_def render_footer_def,
      simp add: screen_drawn_three)
qed

lemma render_help_drawn:
  assumes "layout_laws split" "rect_ok area"
  obtains ds where "render_help split s area = Some ds" "popup_drawn area ds"
proof -
  obtain r where "centered_rect split 70 60 area = Some r" "inside r area"
    using centered_rect_inside [OF assms] by metis
  then show thesis
    by (cases "rect_width area < 18 \<or> rect_height area < 7")
      (auto intro!: that simp: render_help_def popup_drawn_def)
qed

text \<open>A layout that gives each constraint what it asks for, as long as there is room: a model of the
  laws.\<close>

fun wanted :: "nat \<Rightarrow> layout_constraint \<Rightarrow> nat" where
  "wanted extent (Length_of n) = unat n"
| "wanted extent (Min_of n) = unat n"
| "wanted extent (Percentage_of p) = unat p * extent div 100"

fun stack_rows :: "nat \<Rightarrow> layout_constraint list \<Rightarrow> nat \<Rightarrow> nat \<Rightarrow> (nat \<times> nat) list" where
  "stack_rows extent [] pos room = []"
| "stack_rows extent (c # cs) pos room =
     (let n = min (wanted extent c) room in (pos, n) # stack_rows extent cs (pos + n) (room - n))"

fun stacked :: layout_split where
  "stacked Vertical cs area =
     map (\<lambda>(p, n). area\<lparr>rect_y := of_nat p, rect_height := of_nat n\<rparr>)
       (stack_rows (unat (rect_height area)) cs (unat (rect_y area)) (unat (rect_height area)))"
| "stacked Horizontal cs area =
     map (\<lambda>(p, n). area\<lparr>rect_x := of_nat p, rect_width := of_nat n\<rparr>)
       (stack_rows (unat (rect_width area)) cs (unat (rect_x area)) (unat (rect_width area)))"

lemma length_stack_rows [simp]: "length (stack_rows t cs p room) = length cs"
  by (induction cs arbitrary: p room) (simp_all add: Let_def)

lemma stack_rows_bounds:
  "(q, n) \<in> set (stack_rows t cs p room) \<Longrightarrow> p \<le> q \<and> q + n \<le> p + room"
proof (induction cs arbitrary: p room)
  case (Cons c cs)
  then consider "q = p" "n = min (wanted t c) room"
    | "(q, n) \<in> set (stack_rows t cs (p + min (wanted t c) room) (room - min (wanted t c) room))"
    by (auto simp: Let_def)
  then show ?case
  proof cases
    case 2
    from Cons.IH [OF this] show ?thesis by linarith
  qed simp
qed simp

lemma stack_rows_apart:
  "sorted_wrt (\<lambda>a b. fst a + snd a \<le> fst b) (stack_rows t cs p room)"
  by (induction cs arbitrary: p room) (auto simp: Let_def dest: stack_rows_bounds)

lemma unat_u16_of_nat: "n < 2 ^ 16 \<Longrightarrow> unat (of_nat n :: u16) = n"
  by (simp add: unat_of_nat)

lemma stacked_row:
  assumes "rect_ok area" "(p, n) \<in> set (stack_rows t cs (unat (rect_y area)) (unat (rect_height area)))"
  shows "unat (of_nat p :: u16) = p" "unat (of_nat n :: u16) = n"
    "unat (rect_y area) \<le> p" "p + n \<le> unat (rect_y area) + unat (rect_height area)"
  using assms(1) stack_rows_bounds [OF assms(2)] by (simp_all add: rect_ok_def unat_u16_of_nat)

lemma stacked_column:
  assumes "rect_ok area" "(p, n) \<in> set (stack_rows t cs (unat (rect_x area)) (unat (rect_width area)))"
  shows "unat (of_nat p :: u16) = p" "unat (of_nat n :: u16) = n"
    "unat (rect_x area) \<le> p" "p + n \<le> unat (rect_x area) + unat (rect_width area)"
  using assms(1) stack_rows_bounds [OF assms(2)] by (simp_all add: rect_ok_def unat_u16_of_nat)

lemma stacked_laws: "layout_laws stacked"
proof -
  have "length (stacked d cs area) = length cs \<and> (\<forall>r \<in> set (stacked d cs area). inside r area) \<and>
      sorted_wrt apart (stacked d cs area)" if ok: "rect_ok area" for d cs area
  proof (cases d)
    case Vertical
    let ?rows = "stack_rows (unat (rect_height area)) cs (unat (rect_y area)) (unat (rect_height area))"
    have "sorted_wrt apart (stacked Vertical cs area)"
      unfolding stacked.simps sorted_wrt_map
      by (rule sorted_wrt_mono_rel [OF _ stack_rows_apart])
        (auto simp: apart_def stacked_row [OF ok])
    then show ?thesis
      using stacked_row [OF ok] Vertical by (auto simp: inside_def word_le_nat_alt)
  next
    case Horizontal
    have "sorted_wrt apart (stacked Horizontal cs area)"
      unfolding stacked.simps sorted_wrt_map
      by (rule sorted_wrt_mono_rel [OF _ stack_rows_apart])
        (auto simp: apart_def stacked_column [OF ok])
    then show ?thesis
      using stacked_column [OF ok] Horizontal by (auto simp: inside_def word_le_nat_alt)
  qed
  then show ?thesis by (simp add: layout_laws_def)
qed

section \<open>The keys the footer names\<close>

text \<open>The words of a footer that name a key: single characters, and the space bar.\<close>

fun split_words :: "string \<Rightarrow> string list" where
  "split_words [] = [[]]"
| "split_words (c # cs) =
     (case split_words cs of
        [] \<Rightarrow> [[c]]
      | w # ws \<Rightarrow> if c = CHR '' '' then [] # w # ws else (c # w) # ws)"

definition named_keys :: "string \<Rightarrow> char set" where
  "named_keys s =
     {c. [c] \<in> set (split_words s)} \<union> (if ''Space'' \<in> set (split_words s) then {CHR '' ''} else {})"

lemma named_keys_footer:
  "named_keys (footer_keys ScanScreen) = {CHR ''q'', CHR '' '', CHR ''p'', CHR ''?'', CHR ''/''}"
  "named_keys (footer_keys ProvisionalPlanScreen) = {CHR ''q'', CHR ''r'', CHR ''+'', CHR ''?''}"
  by (auto simp: named_keys_def)

section \<open>Properties\<close>

text \<open>C16: Drawing never panics: for every state and every size of the terminal \<open>render\<close> returns its
  drawings, given the documented laws of the layout library. Every drawing lies inside the frame; the
  header, the body and the footer do not overlap; over them comes at most one popup, whose rectangle
  is cleared before its text is drawn, and only while the help is visible.\<close>

theorem render_stays_in_frame:
  assumes "layout_laws split" "rect_ok area"
  shows "\<exists>main popup. render split s area = Some (main @ popup) \<and>
           screen_drawn area main \<and> popup_drawn area popup \<and> (popup \<noteq> [] \<longrightarrow> help_visible s)"
proof (cases "rect_width area \<le> 3 \<or> rect_height area \<le> 2")
  case True
  then show ?thesis
    by (intro exI [of _ "[(Paragraph (paragraph_new [line ''Diskplan'']), area)]"] exI [of _ "[]"])
      (simp add: render_def screen_drawn_def popup_drawn_def inside_refl)
next
  case False
  obtain scan where "render_scan split s area = Some scan" "screen_drawn area scan"
    using render_scan_drawn [OF assms] .
  moreover obtain plan where "render_plan split s area = Some plan" "screen_drawn area plan"
    using render_plan_drawn [OF assms] .
  ultimately obtain main where main: "(case screen s of ScanScreen \<Rightarrow> render_scan split s area
      | ProvisionalPlanScreen \<Rightarrow> render_plan split s area) = Some main" "screen_drawn area main"
    by (cases "screen s") auto
  obtain popup where "render_help split s area = Some popup" "popup_drawn area popup"
    using render_help_drawn [OF assms] .
  with main False show ?thesis
    by (intro exI [of _ main] exI [of _ "if help_visible s then popup else []"])
      (simp add: render_def popup_drawn_def)
qed

theorem render_stays_in_frame_witness:
  "let s = default_app_state\<lparr>help_visible := True\<rparr>;
       area = \<lparr>rect_x = 0, rect_y = 0, rect_width = 80, rect_height = 24\<rparr> in
   \<exists>main popup. render stacked s area = Some (main @ popup) \<and>
     screen_drawn area main \<and> popup_drawn area popup \<and> (popup \<noteq> [] \<longrightarrow> help_visible s)"
  unfolding Let_def
  by (rule render_stays_in_frame [OF stacked_laws]) (simp add: rect_ok_def)

text \<open>The double nearest to a count: the count itself below 2 to the 53rd, and from there on the
  nearest integer of 53 significant bits.\<close>

definition nearest_double :: "nat \<Rightarrow> nat \<Rightarrow> bool" where
  "nearest_double n d \<longleftrightarrow>
     (if n < 2 ^ 53 then d = n
      else \<exists>e. 2 ^ (52 + e) \<le> n \<and> n < 2 ^ (53 + e) \<and> nearest_multiple (2 ^ e) n d)"

lemma as_f64_nearest_double: "nearest_double n (as_f64 n)"
proof (cases "n < 2 ^ 53")
  case True
  then show ?thesis by (simp add: nearest_double_def as_f64_exact)
next
  case False
  have "nearest_multiple (2 ^ f64_exponent n) n (as_f64 n)"
    unfolding as_f64_def by (rule div_half_even_multiple) simp
  with False f64_exponent_bits [of n] show ?thesis by (auto simp: nearest_double_def)
qed

text \<open>C35: A byte count below 1024 is printed exactly, with the unit \<open>B\<close>. Every other one is printed
  with the largest of the units KiB, MiB and GiB it reaches and one decimal: at least \<open>1.0\<close>, and the
  tenth of the unit nearest to the double nearest to the count, ties going to the even digit. Below
  2 to the 53rd that double is the count itself.\<close>

theorem format_bytes_nearest:
  "if unat b < 1024 then format_bytes b = show_nat (unat b) @ '' B''
   else \<exists>k name t d. (k, name) \<in> {(10, '' KiB''), (20, '' MiB''), (30, '' GiB'')} \<and>
     2 ^ k \<le> unat b \<and> (k = 30 \<or> unat b < 2 ^ (k + 10)) \<and>
     format_bytes b = show_nat (t div 10) @ ''.'' @ show_nat (t mod 10) @ name \<and> 10 \<le> t \<and>
     nearest_double (unat b) d \<and> nearest_multiple (2 ^ k) (10 * d) (t * 2 ^ k)"
proof (cases "unat b < 1024")
  case True
  then show ?thesis by (simp add: format_bytes_def units)
next
  case False
  then have "1024 \<le> unat b" by simp
  then obtain k name where kn: "(k, name) \<in> {(10, '' KiB''), (20, '' MiB''), (30, '' GiB'')}"
    and unit: "2 ^ k \<le> unat b" "k \<noteq> 30 \<longrightarrow> unat b < 1024 * 2 ^ k"
    and shown: "format_bytes b = show_tenths (tenths (unat b) (2 ^ k)) @ name"
    by (rule format_bytes_unit)
  have "10 \<le> tenths (unat b) (2 ^ k)"
    using kn by (intro tenths_ge_10 [OF unit(1)]) auto
  moreover have "nearest_multiple (2 ^ k) (10 * as_f64 (unat b)) (tenths (unat b) (2 ^ k) * 2 ^ k)"
    unfolding tenths_def by (rule div_half_even_multiple) simp
  moreover have "k = 30 \<or> unat b < 2 ^ (k + 10)"
    using unit(2) by (auto simp: power_add mult.commute)
  moreover have "format_bytes b = show_nat (tenths (unat b) (2 ^ k) div 10) @ ''.'' @
      show_nat (tenths (unat b) (2 ^ k) mod 10) @ name"
    using shown by (simp add: show_tenths_def)
  ultimately show ?thesis
    using False kn unit(1) as_f64_nearest_double [of "unat b"] by (simp only: if_False) blast
qed

theorem format_bytes_nearest_witness: "format_bytes 1023 = ''1023 B''"
  using format_bytes_nearest [of 1023] by (simp add: number_evals)

text \<open>C34: Every key that does something is named in the footer of the screen, in every state, with one
  exception: on the scan screen \<open>r\<close> is not named, and while the scan is paused it does exactly what the
  space bar does.\<close>

theorem footer_names_every_key:
  assumes "reduce_key (KeyChar c) kind s \<noteq> ([], s)"
  shows "c \<in> named_keys (footer_keys (screen s)) \<or>
         c = CHR ''r'' \<and> screen s = ScanScreen \<and> scan_state s = Paused \<and>
           reduce_key (KeyChar c) kind s = reduce_key (KeyChar (CHR '' '')) kind s"
  using assms
  by (cases "screen s") (auto simp: reduce_key_def named_keys_footer simp del: footer_keys.simps split: if_splits)

theorem footer_names_every_key_witness:
  "let s = default_app_state\<lparr>scan_state := Paused, pending_controls := []\<rparr> in
   CHR ''r'' \<notin> named_keys (footer_keys (screen s)) \<and>
   reduce_key (KeyChar (CHR ''r'')) KeyPress s = reduce_key (KeyChar (CHR '' '')) KeyPress s"
proof -
  let ?s = "default_app_state\<lparr>scan_state := Paused, pending_controls := []\<rparr>"
  have "reduce_key (KeyChar (CHR ''r'')) KeyPress ?s \<noteq> ([], ?s)"
    by (simp add: reduce_key_def default_app_state_def request_once_def has_pending_def
        try_next_control_def checked_add_def Let_def)
  from footer_names_every_key [OF this] have "CHR ''r'' \<notin> named_keys (footer_keys (screen ?s)) \<longrightarrow>
      reduce_key (KeyChar (CHR ''r'')) KeyPress ?s = reduce_key (KeyChar (CHR '' '')) KeyPress ?s"
    by blast
  moreover have "CHR ''r'' \<notin> named_keys (footer_keys (screen ?s))"
    by (simp add: named_keys_footer default_app_state_def del: footer_keys.simps)
  ultimately show ?thesis by (simp add: Let_def)
qed

end
