(* ===== verification/Action_Logic.thy ===== *)
theory Action_Logic
  imports Prelude
begin

text \<open>
  Reasoning about stateful code that may fail. \<open>wp m Q E s\<close> says how the action \<open>m\<close> ends when it
  starts in \<open>s\<close>: in a value and a state with \<open>Q\<close>, or in an error and a state with \<open>E\<close>. Actions are total
  functions, so one of the two happens. The evaluation rules take an action apart, calls of proved
  actions are replaced by their rules in \<open>wp_rules\<close>.
\<close>

named_theorems wp_rules "how the actions of the model end"
named_theorems wp_simps "evaluation of wp on the combinators"

definition wp :: "('s, 'e, 'a) action \<Rightarrow> ('a \<Rightarrow> 's \<Rightarrow> bool) \<Rightarrow> ('e \<Rightarrow> 's \<Rightarrow> bool) \<Rightarrow> 's \<Rightarrow> bool" where
  "wp m Q E s = (case m s of (Inr x, s') \<Rightarrow> Q x s' | (Inl e, s') \<Rightarrow> E e s')"

section \<open>Combinators\<close>

lemma wp_return [wp_simps]: "wp (returnS x) Q E s = Q x s"
  by (simp add: wp_def)

lemma wp_fail [wp_simps]: "wp (failS e) Q E s = E e s"
  by (simp add: wp_def)

lemma wp_bind [wp_simps]: "wp (bindS m k) Q E s = wp m (\<lambda>x. wp (k x) Q E) E s"
  by (auto simp: wp_def bindS_def split: prod.splits sum.splits)

lemma wp_map_err [wp_simps]: "wp (map_errS f m) Q E s = wp m Q (\<lambda>e. E (f e)) s"
  by (auto simp: wp_def map_errS_def split: prod.splits sum.splits)

lemma wp_ignore [wp_simps]: "wp (ignoreS m) Q E s = wp m (\<lambda>_. Q ()) (\<lambda>_. Q ()) s"
  by (auto simp: wp_def ignoreS_def split: prod.splits sum.splits)

text \<open>\<open>if c { return Err(e) }\<close>.\<close>

definition rejectS :: "bool \<Rightarrow> 'e \<Rightarrow> ('s, 'e, unit) action" where
  "rejectS c e = (if c then failS e else returnS ())"

lemma wp_reject [wp_simps]: "wp (rejectS c e) Q E s \<longleftrightarrow> (if c then E e s else Q () s)"
  by (simp add: rejectS_def wp_simps)

text \<open>A pure \<open>Result\<close> and \<open>Option::ok_or\<close>.\<close>

definition liftS :: "'e + 'a \<Rightarrow> ('s, 'e, 'a) action" where
  "liftS r s = (r, s)"

lemma wp_lift [wp_simps]:
  "wp (liftS r) Q E s \<longleftrightarrow> (case r of Inl e \<Rightarrow> E e s | Inr x \<Rightarrow> Q x s)"
  by (simp add: wp_def liftS_def split: sum.splits)

definition ok_orS :: "'a option \<Rightarrow> 'e \<Rightarrow> ('s, 'e, 'a) action" where
  "ok_orS a e = (case a of None \<Rightarrow> failS e | Some x \<Rightarrow> returnS x)"

lemma wp_ok_or [wp_simps]:
  "wp (ok_orS a e) Q E s \<longleftrightarrow> (case a of None \<Rightarrow> E e s | Some x \<Rightarrow> Q x s)"
  by (simp add: ok_orS_def wp_simps split: option.splits)

text \<open>The outcome as a value, and code that runs in every case.\<close>

definition attemptS :: "('s, 'e, 'a) action \<Rightarrow> ('s, 'f, 'e + 'a) action" where
  "attemptS m s = (case m s of (r, s') \<Rightarrow> (Inr r, s'))"

lemma wp_attempt [wp_simps]:
  "wp (attemptS m) Q E s = wp m (\<lambda>x. Q (Inr x)) (\<lambda>e. Q (Inl e)) s"
  by (simp add: wp_def attemptS_def split: prod.splits sum.splits)

definition finallyS :: "('s, 'e, 'a) action \<Rightarrow> ('s, 'e, unit) action \<Rightarrow> ('s, 'e, 'a) action" where
  "finallyS m f = bindS (attemptS m) (\<lambda>r. bindS (ignoreS f) (\<lambda>_. liftS r))"

lemma wp_finally [wp_simps]:
  "wp (finallyS m f) Q E s =
     wp m (\<lambda>x. wp f (\<lambda>_. Q x) (\<lambda>_. Q x)) (\<lambda>e. wp f (\<lambda>_. E e) (\<lambda>_. E e)) s"
  by (auto simp: wp_def finallyS_def bindS_def attemptS_def liftS_def split: prod.splits sum.splits)

section \<open>Structural rules\<close>

lemma wp_mono:
  assumes "wp m Q E s" "\<And>x s'. Q x s' \<Longrightarrow> Q' x s'" "\<And>e s'. E e s' \<Longrightarrow> E' e s'"
  shows "wp m Q' E' s"
  using assms by (auto simp: wp_def split: prod.splits sum.splits)

lemma wp_conj:
  assumes "wp m Q E s" "wp m Q' E' s"
  shows "wp m (\<lambda>x s'. Q x s' \<and> Q' x s') (\<lambda>e s'. E e s' \<and> E' e s') s"
  using assms by (auto simp: wp_def split: prod.splits sum.splits)

lemma wp_True [simp]: "wp m (\<lambda>_ _. True) (\<lambda>_ _. True) s"
  by (auto simp: wp_def split: prod.splits sum.splits)

lemma wp_snd: "wp m (\<lambda>_. P) (\<lambda>_. P) s \<longleftrightarrow> P (snd (m s))"
  by (auto simp: wp_def split: prod.splits sum.splits)

lemma wpI:
  assumes "\<And>x s'. m s = (Inr x, s') \<Longrightarrow> Q x s'" "\<And>e s'. m s = (Inl e, s') \<Longrightarrow> E e s'"
  shows "wp m Q E s"
  using assms by (auto simp: wp_def split: prod.splits sum.splits)

lemma wp_InrD: "wp m Q E s \<Longrightarrow> m s = (Inr x, s') \<Longrightarrow> Q x s'"
  by (simp add: wp_def)

lemma wp_InlD: "wp m Q E s \<Longrightarrow> m s = (Inl e, s') \<Longrightarrow> E e s'"
  by (simp add: wp_def)

text \<open>The evaluation rules read backwards, so that \<open>intro wp_rules\<close> walks through a body.\<close>

lemma wp_returnI [wp_rules]: "Q x s \<Longrightarrow> wp (returnS x) Q E s"
  by (simp add: wp_simps)

lemma wp_failI [wp_rules]: "E e s \<Longrightarrow> wp (failS e) Q E s"
  by (simp add: wp_simps)

lemma wp_bindI [wp_rules]: "wp m (\<lambda>x. wp (g x) Q E) E s \<Longrightarrow> wp (bindS m g) Q E s"
  by (simp add: wp_simps)

lemma wp_map_errI [wp_rules]: "wp m Q (\<lambda>e. E (f e)) s \<Longrightarrow> wp (map_errS f m) Q E s"
  by (simp add: wp_simps)

lemma wp_ignoreI [wp_rules]: "wp m (\<lambda>_. Q ()) (\<lambda>_. Q ()) s \<Longrightarrow> wp (ignoreS m) Q E s"
  by (simp add: wp_simps)

lemma wp_rejectI [wp_rules]: "(c \<Longrightarrow> E e s) \<Longrightarrow> (\<not> c \<Longrightarrow> Q () s) \<Longrightarrow> wp (rejectS c e) Q E s"
  by (simp add: wp_simps)

lemma wp_attemptI [wp_rules]:
  "wp m (\<lambda>x. Q (Inr x)) (\<lambda>e. Q (Inl e)) s \<Longrightarrow> wp (attemptS m) Q E s"
  by (simp add: wp_simps)

lemma wp_liftI [wp_rules]:
  "(\<And>e. r = Inl e \<Longrightarrow> E e s) \<Longrightarrow> (\<And>x. r = Inr x \<Longrightarrow> Q x s) \<Longrightarrow> wp (liftS r) Q E s"
  by (simp add: wp_simps split: sum.splits)

lemma wp_ok_orI [wp_rules]:
  "(z = None \<Longrightarrow> E e s) \<Longrightarrow> (\<And>v. z = Some v \<Longrightarrow> Q v s) \<Longrightarrow> wp (ok_orS z e) Q E s"
  by (simp add: wp_simps split: option.splits)

lemma wp_case_prodI [wp_rules]:
  "wp (f a b) Q E s \<Longrightarrow> wp (case (a, b) of (x, y) \<Rightarrow> f x y) Q E s"
  by simp

lemma wp_case_InlI [wp_rules]:
  "wp (g e) Q E s \<Longrightarrow> wp (case Inl e of Inl x \<Rightarrow> g x | Inr y \<Rightarrow> h y) Q E s"
  by simp

lemma wp_case_InrI [wp_rules]:
  "wp (h y) Q E s \<Longrightarrow> wp (case Inr y of Inl x \<Rightarrow> g x | Inr y \<Rightarrow> h y) Q E s"
  by simp

lemma wp_ifI [wp_rules]:
  "(c \<Longrightarrow> wp m Q E s) \<Longrightarrow> (\<not> c \<Longrightarrow> wp n Q E s) \<Longrightarrow> wp (if c then m else n) Q E s"
  by simp

lemma wp_case_optionI [wp_rules]:
  "(z = None \<Longrightarrow> wp m Q E s) \<Longrightarrow> (\<And>v. z = Some v \<Longrightarrow> wp (g v) Q E s) \<Longrightarrow>
     wp (case z of None \<Rightarrow> m | Some v \<Rightarrow> g v) Q E s"
  by (cases z) simp_all

section \<open>Methods\<close>

text \<open>A \<open>&mut self\<close> method works on its object and the rest of the program's state.\<close>

definition with_self :: "('t \<Rightarrow> ('t \<times> 's, 'e, 'a) action) \<Rightarrow> ('t \<times> 's, 'e, 'a) action" where
  "with_self f = (\<lambda>(t, s). f t (t, s))"

definition modify_self :: "('t \<Rightarrow> 't) \<Rightarrow> ('t \<times> 's, 'e, unit) action" where
  "modify_self g = (\<lambda>(t, s). (Inr (), (g t, s)))"

text \<open>A call that does not touch the object.\<close>

definition outside :: "('s, 'e, 'a) action \<Rightarrow> ('t \<times> 's, 'e, 'a) action" where
  "outside m = (\<lambda>(t, s). case m s of (r, s') \<Rightarrow> (r, (t, s')))"

lemma wp_with_self [wp_simps]: "wp (with_self f) Q E (t, s) = wp (f t) Q E (t, s)"
  by (simp add: wp_def with_self_def)

lemma wp_modify_self [wp_simps]: "wp (modify_self g) Q E (t, s) = Q () (g t, s)"
  by (simp add: wp_def modify_self_def)

lemma wp_outside [wp_simps]:
  "wp (outside m) Q E (t, s) = wp m (\<lambda>x s'. Q x (t, s')) (\<lambda>e s'. E e (t, s')) s"
  by (simp add: wp_def outside_def split: prod.splits sum.splits)

lemma wp_with_selfI [wp_rules]: "wp (f t) Q E (t, s) \<Longrightarrow> wp (with_self f) Q E (t, s)"
  by (simp add: wp_simps)

lemma wp_modify_selfI [wp_rules]: "Q () (g t, s) \<Longrightarrow> wp (modify_self g) Q E (t, s)"
  by (simp add: wp_simps)

lemma wp_outsideI [wp_rules]:
  "wp m (\<lambda>x s'. Q x (t, s')) (\<lambda>e s'. E e (t, s')) s \<Longrightarrow> wp (outside m) Q E (t, s)"
  by (simp add: wp_simps)

text \<open>A method call on the object at an index of a vector.\<close>

definition at_index :: "nat \<Rightarrow> ('t \<times> 's, 'e, 'a) action \<Rightarrow> ('t list \<times> 's, 'e, 'a) action" where
  "at_index i m = (\<lambda>(ts, s). case m (ts ! i, s) of (r, (t, s')) \<Rightarrow> (r, (ts[i := t], s')))"

lemma wp_at_index [wp_simps]:
  "wp (at_index i m) Q E (ts, s) =
     wp m (\<lambda>x (t, s'). Q x (ts[i := t], s')) (\<lambda>e (t, s'). E e (ts[i := t], s')) (ts ! i, s)"
  by (auto simp: wp_def at_index_def split: prod.splits sum.splits)

lemma wp_at_indexI [wp_rules]:
  assumes "wp m (\<lambda>x (t, s'). Q x (ts[i := t], s')) (\<lambda>e (t, s'). E e (ts[i := t], s')) (ts ! i, s)"
  shows "wp (at_index i m) Q E (ts, s)"
  using assms by (simp add: wp_simps)

text \<open>Running every action of a list, collecting the errors.\<close>

fun collectS :: "('s, 'e, unit) action list \<Rightarrow> ('s, 'e, 'e list) action" where
  "collectS [] = returnS []"
| "collectS (m # ms) =
     bindS (attemptS m) (\<lambda>r.
     bindS (collectS ms) (\<lambda>es.
       returnS (case r of Inl e \<Rightarrow> e # es | Inr _ \<Rightarrow> es)))"

text \<open>Running every action of a list up to the first error.\<close>

fun sequenceS :: "('s, 'e, unit) action list \<Rightarrow> ('s, 'e, unit) action" where
  "sequenceS [] = returnS ()"
| "sequenceS (m # ms) = bindS m (\<lambda>_. sequenceS ms)"

text \<open>Where a list of actions leads when each of them succeeds.\<close>

fun run_all :: "('s, 'e, unit) action list \<Rightarrow> 's \<Rightarrow> 's option" where
  "run_all [] s = Some s"
| "run_all (m # ms) s = (case m s of (Inr _, s') \<Rightarrow> run_all ms s' | (Inl _, _) \<Rightarrow> None)"

lemma run_all_append:
  "run_all (ms @ ns) s = (case run_all ms s of None \<Rightarrow> None | Some s' \<Rightarrow> run_all ns s')"
  by (induction ms arbitrary: s) (auto split: prod.splits sum.splits)

lemma collectS_never_fails: "\<exists>es s'. collectS ms s = (Inr es, s')"
proof (induction ms arbitrary: s)
  case (Cons m ms)
  obtain r s1 where "m s = (r, s1)" by fastforce
  moreover obtain es s2 where "collectS ms s1 = (Inr es, s2)"
    using Cons.IH [of s1] by metis
  ultimately show ?case
    by (simp add: bindS_def attemptS_def split: sum.splits)
qed simp

lemma collectS_no_errors: "collectS ms s = (Inr [], s') \<longleftrightarrow> run_all ms s = Some s'"
proof (induction ms arbitrary: s)
  case (Cons m ms)
  obtain r s1 where m: "m s = (r, s1)" by fastforce
  obtain es s2 where c: "collectS ms s1 = (Inr es, s2)"
    using collectS_never_fails [of ms s1] by metis
  show ?case
    using m c Cons.IH [of s1] by (cases r) (auto simp: bindS_def attemptS_def)
qed simp

text \<open>When no error was collected every action has done its work.\<close>

lemma wp_collectI:
  assumes "\<And>s'. run_all ms s = Some s' \<Longrightarrow> Q [] s'" "\<And>es s'. es \<noteq> [] \<Longrightarrow> Q es s'"
  shows "wp (collectS ms) Q E s"
proof -
  obtain es s' where c: "collectS ms s = (Inr es, s')"
    using collectS_never_fails by metis
  show ?thesis
    using assms c collectS_no_errors [of ms s s'] by (cases es) (auto simp: wp_def)
qed

lemma run_all_indices:
  assumes "run_all (map f js) s = Some s'" "I D s"
    and "\<And>j D s. j \<in> set js \<Longrightarrow> I D s \<Longrightarrow> wp (f j) (\<lambda>_ s'. I (insert j D) s') (\<lambda>_ _. True) s"
  shows "I (set js \<union> D) s'"
  using assms
proof (induction js arbitrary: s D)
  case (Cons j js)
  then obtain s1 where s1: "f j s = (Inr (), s1)" and rest: "run_all (map f js) s1 = Some s'"
    by (auto split: prod.splits sum.splits)
  have "I (insert j D) s1"
    using Cons.prems(2) Cons.prems(3) [of j D s] s1 by (auto dest: wp_InrD)
  from Cons.IH [OF rest this] Cons.prems(3) show ?case
    by simp
qed simp

text \<open>An invariant of every action of a sequence, and one that counts them.\<close>

lemma wp_collect_invariant:
  assumes "I s" and "\<And>m s. m \<in> set ms \<Longrightarrow> I s \<Longrightarrow> wp m (\<lambda>_. I) (\<lambda>_. I) s"
    and "\<And>es s'. I s' \<Longrightarrow> Q es s'"
  shows "wp (collectS ms) Q E s"
proof -
  have "I (snd (collectS ms s))"
    using assms(1,2)
  proof (induction ms arbitrary: s)
    case (Cons m ms)
    obtain r s1 where m: "m s = (r, s1)" by fastforce
    with Cons.prems have "I s1"
      by (fastforce simp: wp_def split: sum.splits)
    moreover obtain es s2 where "collectS ms s1 = (Inr es, s2)"
      using collectS_never_fails by metis
    ultimately show ?case
      using Cons.IH [of s1] Cons.prems(2) m by (simp add: bindS_def attemptS_def split: sum.splits)
  qed simp
  with assms(3) collectS_never_fails [of ms s] show ?thesis
    by (auto simp: wp_def)
qed

lemma wp_sequence_indices:
  assumes "I D s"
    and "\<And>j D s. j \<in> set js \<Longrightarrow> I D s \<Longrightarrow> wp (f j) (\<lambda>_ s'. I (insert j D) s') E s"
    and "\<And>s'. I (set js \<union> D) s' \<Longrightarrow> Q () s'"
  shows "wp (sequenceS (map f js)) Q E s"
  using assms
proof (induction js arbitrary: s D)
  case Nil
  then show ?case by (simp add: wp_def)
next
  case (Cons j js)
  have "wp (f j) (\<lambda>_ s'. I (insert j D) s') E s"
    using Cons.prems(1,2) by simp
  then have "wp (f j) (\<lambda>_. wp (sequenceS (map f js)) Q E) E s"
  proof (rule wp_mono)
    fix x s' assume "I (insert j D) s'"
    then show "wp (sequenceS (map f js)) Q E s'"
      by (rule Cons.IH) (use Cons.prems(2,3) in auto)
  qed
  then show ?case
    by (simp add: wp_bind)
qed

end
