(* ===== verification/Paths.thy ===== *)
theory Paths
  imports Prelude
begin

text \<open>
  \<open>std::path\<close> on Unix, as far as the publisher of generated sources uses it. A path is its bytes;
  two paths are equal when their components are, so doubled and trailing separators and inner \<open>.\<close>
  components do not count.
\<close>

section \<open>Components\<close>

datatype path_component = RootDir | CurDir | ParentDir | Normal string

fun split_separators :: "string \<Rightarrow> string list" where
  "split_separators [] = [[]]"
| "split_separators (c # cs) =
     (if c = CHR ''/'' then [] # split_separators cs
      else (case split_separators cs of
              [] \<Rightarrow> [[c]]
            | piece # pieces \<Rightarrow> (c # piece) # pieces))"

text \<open>Empty pieces and \<open>.\<close> vanish inside a path.\<close>

fun inner_components :: "string list \<Rightarrow> path_component list" where
  "inner_components [] = []"
| "inner_components (piece # pieces) =
     (if piece = [] \<or> piece = ''.'' then inner_components pieces
      else if piece = ''..'' then ParentDir # inner_components pieces
      else Normal piece # inner_components pieces)"

definition is_absolute :: "string \<Rightarrow> bool" where
  "is_absolute p \<longleftrightarrow> (case p of [] \<Rightarrow> False | c # _ \<Rightarrow> c = CHR ''/'')"

text \<open>\<open>Path::components\<close>: only a leading \<open>.\<close> of a relative path is kept.\<close>

definition path_components :: "string \<Rightarrow> path_component list" where
  "path_components p =
     (let pieces = split_separators p in
      if is_absolute p then RootDir # inner_components pieces
      else if hd pieces = ''.'' then CurDir # inner_components pieces
      else inner_components pieces)"

definition same_path :: "string \<Rightarrow> string \<Rightarrow> bool" where
  "same_path p q \<longleftrightarrow> path_components p = path_components q"

lemma same_path_refl [simp]: "same_path p p"
  by (simp add: same_path_def)

lemma split_separators_nonempty [simp]: "split_separators p \<noteq> []"
  by (cases p) (auto split: list.splits)

lemma split_separators_append:
  "split_separators (p @ CHR ''/'' # q) = split_separators p @ split_separators q"
proof (induction p)
  case (Cons c p)
  then show ?case
    by (cases "split_separators p") auto
qed simp

lemma inner_components_append [simp]:
  "inner_components (ps @ qs) = inner_components ps @ inner_components qs"
  by (induction ps) auto

lemma hd_split_absolute: "is_absolute p \<Longrightarrow> hd (split_separators p) = []"
  by (cases p) (auto simp: is_absolute_def)

text \<open>A file name: what a single directory entry can be called.\<close>

definition entry_name :: "string \<Rightarrow> bool" where
  "entry_name n \<longleftrightarrow> n \<noteq> [] \<and> n \<noteq> ''.'' \<and> n \<noteq> ''..'' \<and> CHR ''/'' \<notin> set n"

lemma split_separators_plain:
  "CHR ''/'' \<notin> set n \<Longrightarrow> split_separators n = [n]"
  by (induction n) auto

lemma inner_components_entry [simp]:
  "entry_name n \<Longrightarrow> inner_components (split_separators n) = [Normal n]"
  by (simp add: entry_name_def split_separators_plain)

lemma split_piece_plain: "piece \<in> set (split_separators p) \<Longrightarrow> CHR ''/'' \<notin> set piece"
proof (induction p arbitrary: piece)
  case (Cons c p)
  then show ?case
    by (cases "split_separators p") (auto split: if_splits)
qed simp

lemma inner_component_entry:
  "Normal n \<in> set (inner_components ps) \<Longrightarrow>
     n \<in> set ps \<and> n \<noteq> [] \<and> n \<noteq> ''.'' \<and> n \<noteq> ''..''"
  by (induction ps) (auto split: if_splits)

lemma path_component_entry:
  assumes "Normal n \<in> set (path_components p)"
  shows "entry_name n"
proof -
  have "Normal n \<in> set (inner_components (split_separators p))"
    using assms by (auto simp: path_components_def Let_def split: if_splits)
  then show ?thesis
    by (auto simp: entry_name_def dest!: inner_component_entry dest: split_piece_plain)
qed

section \<open>Building paths\<close>

text \<open>\<open>PathBuf::push\<close> of a relative path.\<close>

definition path_push :: "string \<Rightarrow> string \<Rightarrow> string" where
  "path_push p q = (if p = [] \<or> last p = CHR ''/'' then p @ q else p @ CHR ''/'' # q)"

lemma is_absolute_push [simp]: "is_absolute p \<Longrightarrow> is_absolute (path_push p q)"
  by (cases p) (auto simp: is_absolute_def path_push_def)

lemma path_components_push:
  assumes "is_absolute p"
  shows "path_components (path_push p q) = path_components p @ inner_components (split_separators q)"
proof (cases "last p = CHR ''/''")
  case True
  have "p \<noteq> []" using assms by (auto simp: is_absolute_def)
  with True obtain r where r: "p = r @ [CHR ''/'']"
    by (metis append_butlast_last_id)
  then have "path_push p q = r @ CHR ''/'' # q" "p = r @ CHR ''/'' # []"
    by (simp_all add: path_push_def)
  then show ?thesis
    using assms is_absolute_push [OF assms, of q]
    by (simp add: path_components_def split_separators_append)
next
  case False
  then have "path_push p q = p @ CHR ''/'' # q"
    using assms by (auto simp: path_push_def is_absolute_def)
  then show ?thesis
    using assms is_absolute_push [OF assms, of q]
    by (simp add: path_components_def split_separators_append)
qed

corollary path_components_push_entry [simp]:
  "is_absolute p \<Longrightarrow> entry_name n \<Longrightarrow> path_components (path_push p n) = path_components p @ [Normal n]"
  by (simp add: path_components_push)

section \<open>Taking paths apart\<close>

text \<open>\<open>Path::strip_prefix\<close>, as the components that are left.\<close>

fun strip_components :: "path_component list \<Rightarrow> path_component list \<Rightarrow> path_component list option" where
  "strip_components [] ps = Some ps"
| "strip_components (b # bs) (p # ps) = (if b = p then strip_components bs ps else None)"
| "strip_components (b # bs) [] = None"

lemma strip_components_iff [simp]: "strip_components bs ps = Some rs \<longleftrightarrow> ps = bs @ rs"
  by (induction bs ps rule: strip_components.induct) auto

definition strip_prefix :: "string \<Rightarrow> string \<Rightarrow> path_component list option" where
  "strip_prefix p base = strip_components (path_components base) (path_components p)"

lemma strip_prefix_iff:
  "strip_prefix p base = Some rs \<longleftrightarrow> path_components p = path_components base @ rs"
  by (simp add: strip_prefix_def)

text \<open>\<open>Path::parent\<close> of what \<open>strip_prefix\<close> leaves; nothing is left of an empty path.\<close>

definition parent_components :: "path_component list \<Rightarrow> path_component list option" where
  "parent_components cs = (if cs = [] \<or> last cs = RootDir then None else Some (butlast cs))"

text \<open>\<open>Path::file_name\<close>.\<close>

definition file_name :: "string \<Rightarrow> string option" where
  "file_name p =
     (case rev (path_components p) of
        Normal n # _ \<Rightarrow> Some n
      | _ \<Rightarrow> None)"

lemma file_name_iff:
  "file_name p = Some n \<longleftrightarrow> path_components p \<noteq> [] \<and> last (path_components p) = Normal n"
proof (cases "path_components p" rule: rev_cases)
  case (snoc cs c)
  then show ?thesis by (cases c) (simp_all add: file_name_def)
qed (simp add: file_name_def)

text \<open>The relative path of a list of components.\<close>

fun component_text :: "path_component \<Rightarrow> string" where
  "component_text RootDir = ''/''"
| "component_text CurDir = ''.''"
| "component_text ParentDir = ''..''"
| "component_text (Normal n) = n"

fun relative_path :: "path_component list \<Rightarrow> string" where
  "relative_path [] = []"
| "relative_path [c] = component_text c"
| "relative_path (c # cs) = component_text c @ CHR ''/'' # relative_path cs"

lemma inner_components_relative:
  "list_all (\<lambda>c. \<exists>n. c = Normal n \<and> entry_name n) cs \<Longrightarrow>
     inner_components (split_separators (relative_path cs)) = cs"
  by (induction cs rule: relative_path.induct) (auto simp: split_separators_append)

lemma path_components_join:
  "is_absolute p \<Longrightarrow> list_all (\<lambda>c. \<exists>n. c = Normal n \<and> entry_name n) cs \<Longrightarrow>
     path_components (path_push p (relative_path cs)) = path_components p @ cs"
  by (simp add: path_components_push inner_components_relative)

end
