(* ===== verification/File_System.thy ===== *)
theory File_System
  imports Action_Logic Paths
begin

text \<open>
  The operating system as the publisher of generated sources sees it. The calls of libc and
  \<open>std::fs::File\<close> it makes are the fields of a record and so a parameter of every definition that uses
  them. What their documentation promises is the locale \<open>file_system\<close>: a call that returns has done what
  it says, a call that fails has changed nothing (a failed write: nothing but the file written to). Which
  calls fail, and when, is left to the parameter, so every pattern of failures is covered, and with it
  the machine stopping: a system that stops is one whose remaining calls all fail.
\<close>

section \<open>Identities, access state, metadata\<close>

text \<open>\<open>std::io::Error\<close> of a call: the number the kernel gave, if it gave one.\<close>

datatype os_error = Raw_os_error i32 | Custom_error

definition ENOENT :: i32 where
  "ENOENT = 2"

record identity =
  device :: i32
  inode :: u64

record access_state =
  access_mode :: u16
  access_owner :: u32
  access_group :: u32
  access_flags :: u32
  extended_acl :: bytes

text \<open>\<open>struct stat\<close>, the fields that are read.\<close>

record metadata =
  st_dev :: i32
  st_ino :: u64
  st_mode :: u16
  st_uid :: u32
  st_gid :: u32
  st_flags :: u32

definition S_IFMT :: u16 where "S_IFMT = 0xF000"
definition S_IFREG :: u16 where "S_IFREG = 0x8000"
definition S_IFDIR :: u16 where "S_IFDIR = 0x4000"

definition metadata_identity :: "metadata \<Rightarrow> identity" where
  "metadata_identity m = \<lparr>device = st_dev m, inode = st_ino m\<rparr>"

section \<open>Calls\<close>

datatype open_flag = O_RDONLY | O_RDWR | O_CREAT | O_EXCL | O_DIRECTORY | O_NOFOLLOW

text \<open>
  \<open>'w\<close> is the world outside the program, \<open>'h\<close> an open file. The calls are those of \<open>libc\<close> and of
  \<open>std::fs\<close>; \<open>sys_read_to_end\<close> reads from the current offset to the end, \<open>sys_rewind\<close> seeks to the start,
  \<open>sys_fgetattrlist\<close> returns what was written to the buffer, of the given size, that held zeros before.
\<close>

record ('w, 'h) kernel =
  process_id :: u32
  geteuid :: u32
  sys_canonicalize :: "string \<Rightarrow> ('w, os_error, string) action"
  sys_open :: "string \<Rightarrow> open_flag list \<Rightarrow> ('w, os_error, 'h) action"
  sys_openat :: "'h \<Rightarrow> string \<Rightarrow> open_flag list \<Rightarrow> u16 \<Rightarrow> ('w, os_error, 'h) action"
  sys_getpath :: "'h \<Rightarrow> ('w, os_error, string) action"
  sys_flock :: "'h \<Rightarrow> bool \<Rightarrow> ('w, os_error, unit) action"
  sys_fstat :: "'h \<Rightarrow> ('w, os_error, metadata) action"
  sys_fstatat :: "'h \<Rightarrow> string \<Rightarrow> ('w, os_error, metadata) action"
  sys_fgetattrlist :: "'h \<Rightarrow> nat \<Rightarrow> ('w, os_error, bytes) action"
  sys_rewind :: "'h \<Rightarrow> ('w, os_error, unit) action"
  sys_read_to_end :: "'h \<Rightarrow> ('w, os_error, bytes) action"
  sys_write_all :: "'h \<Rightarrow> bytes \<Rightarrow> ('w, os_error, unit) action"
  sys_fchmod :: "'h \<Rightarrow> u16 \<Rightarrow> ('w, os_error, unit) action"
  sys_fsync :: "'h \<Rightarrow> ('w, os_error, unit) action"
  sys_dup :: "'h \<Rightarrow> ('w, os_error, 'h) action"
  sys_renameatx_np :: "'h \<Rightarrow> string \<Rightarrow> string \<Rightarrow> u32 \<Rightarrow> ('w, os_error, unit) action"
  sys_unlinkat :: "'h \<Rightarrow> string \<Rightarrow> ('w, os_error, unit) action"

definition RENAME_SWAP :: u32 where
  "RENAME_SWAP = 2"

definition RENAME_EXCL :: u32 where
  "RENAME_EXCL = 4"

lemma rename_flags_differ [simp]: "RENAME_SWAP \<noteq> RENAME_EXCL" "RENAME_EXCL \<noteq> RENAME_SWAP"
  by (simp_all add: RENAME_SWAP_def RENAME_EXCL_def)

section \<open>What a disk holds\<close>

text \<open>
  An object of the disk has an identity; a directory gives names to identities. The same object can have
  several names, and an open file stays bound to its object when names change.
\<close>

record node =
  node_mode :: u16
  node_owner :: u32
  node_group :: u32
  node_flags :: u32
  node_acl :: bytes
  node_bytes :: bytes

type_synonym slot = "identity \<times> string"

record disk =
  entries :: "slot \<Rightarrow> identity option"
  nodes :: "identity \<Rightarrow> node"
  location :: "identity \<Rightarrow> string"

definition node_access :: "node \<Rightarrow> access_state" where
  "node_access n =
     \<lparr>access_mode = and (node_mode n) 0xFFF, access_owner = node_owner n,
      access_group = node_group n, access_flags = node_flags n, extended_acl = node_acl n\<rparr>"

definition node_metadata :: "identity \<Rightarrow> node \<Rightarrow> metadata" where
  "node_metadata i n =
     \<lparr>st_dev = device i, st_ino = inode i, st_mode = node_mode n, st_uid = node_owner n,
      st_gid = node_group n, st_flags = node_flags n\<rparr>"

definition regular :: "node \<Rightarrow> bool" where
  "regular n \<longleftrightarrow> and (node_mode n) S_IFMT = S_IFREG"

definition is_directory :: "node \<Rightarrow> bool" where
  "is_directory n \<longleftrightarrow> and (node_mode n) S_IFMT = S_IFDIR"

definition linked :: "disk \<Rightarrow> identity \<Rightarrow> bool" where
  "linked d i \<longleftrightarrow> (\<exists>s. entries d s = Some i)"

lemma linkedI: "entries d s = Some i \<Longrightarrow> linked d i"
  unfolding linked_def by blast

lemma metadata_identity_node [simp]: "metadata_identity (node_metadata i n) = i"
  by (simp add: metadata_identity_def node_metadata_def)

lemma node_metadata_simps [simp]:
  "st_mode (node_metadata i n) = node_mode n" "st_uid (node_metadata i n) = node_owner n"
  "st_gid (node_metadata i n) = node_group n" "st_flags (node_metadata i n) = node_flags n"
  by (simp_all add: node_metadata_def)

text \<open>\<open>write\<close> at an offset, and \<open>fchmod\<close>, which keeps the type bits.\<close>

definition overwrite :: "nat \<Rightarrow> bytes \<Rightarrow> bytes \<Rightarrow> bytes" where
  "overwrite off new old =
     take off old @ replicate (off - length old) 0 @ new @ drop (off + length new) old"

definition change_mode :: "u16 \<Rightarrow> node \<Rightarrow> node" where
  "change_mode m n = n\<lparr>node_mode := or (and (node_mode n) S_IFMT) (and m 0xFFF)\<rparr>"

definition put_node :: "identity \<Rightarrow> node \<Rightarrow> disk \<Rightarrow> disk" where
  "put_node i n d = d\<lparr>nodes := (nodes d)(i := n)\<rparr>"

text \<open>The layout of an answer of \<open>fgetattrlist\<close> for the extended security attribute: its length, an
  offset from the reference itself and a length, then the data and padding.\<close>

definition le_bytes32 :: "nat \<Rightarrow> bytes" where
  "le_bytes32 n = rev (be_bytes 4 n)"

definition attr_reply :: "bytes \<Rightarrow> bytes \<Rightarrow> bytes" where
  "attr_reply acl pad =
     le_bytes32 (12 + length acl + length pad) @ le_bytes32 8 @ le_bytes32 (length acl) @ acl @ pad"

section \<open>What the calls promise\<close>

text \<open>
  \<open>disk w\<close> is what the disk holds in the world \<open>w\<close>, \<open>refers h\<close> the object an open file is bound to,
  \<open>offset w h\<close> its position, \<open>lookup d p\<close> what a path names for this process.
\<close>

locale file_system =
  fixes k :: "('w, 'h) kernel"
    and disk :: "'w \<Rightarrow> disk"
    and refers :: "'h \<Rightarrow> identity"
    and offset :: "'w \<Rightarrow> 'h \<Rightarrow> nat"
    and lookup :: "disk \<Rightarrow> string \<Rightarrow> identity option"
  assumes canonicalize_disk: "disk (snd (sys_canonicalize k p w)) = disk w"
    and canonicalize_ok: "sys_canonicalize k p w = (Inr q, w') \<Longrightarrow>
          is_absolute q \<and> lookup (disk w) q = lookup (disk w) p"
    and open_disk: "disk (snd (sys_open k p fl w)) = disk w"
    and open_ok: "sys_open k p fl w = (Inr h, w') \<Longrightarrow>
          lookup (disk w) p = Some (refers h) \<and> offset w' h = 0"
    and openat_disk: "O_CREAT \<notin> set fl \<Longrightarrow> disk (snd (sys_openat k dh n fl m w)) = disk w"
    and openat_ok: "O_CREAT \<notin> set fl \<Longrightarrow> sys_openat k dh n fl m w = (Inr h, w') \<Longrightarrow>
          entries (disk w) (refers dh, n) = Some (refers h) \<and> offset w' h = 0"
    and create_failed: "sys_openat k dh n fl m w = (Inl e, w') \<Longrightarrow> disk w' = disk w"
    and create_ok: "O_CREAT \<in> set fl \<Longrightarrow> O_EXCL \<in> set fl \<Longrightarrow> sys_openat k dh n fl m w = (Inr h, w') \<Longrightarrow>
          entries (disk w) (refers dh, n) = None \<and> \<not> linked (disk w) (refers h) \<and> offset w' h = 0 \<and>
          (\<exists>nd. regular nd \<and> node_bytes nd = [] \<and>
             disk w' = put_node (refers h) nd
               ((disk w)\<lparr>entries := (entries (disk w))((refers dh, n) \<mapsto> refers h)\<rparr>))"
    and getpath_disk: "disk (snd (sys_getpath k h w)) = disk w"
    and getpath_ok: "sys_getpath k h w = (Inr p, w') \<Longrightarrow> p = location (disk w) (refers h)"
    and flock_disk: "disk (snd (sys_flock k h lock w)) = disk w"
    and fstat_disk: "disk (snd (sys_fstat k h w)) = disk w"
    and fstat_offset: "offset (snd (sys_fstat k h w)) g = offset w g"
    and fstat_ok: "sys_fstat k h w = (Inr s, w') \<Longrightarrow>
          s = node_metadata (refers h) (nodes (disk w) (refers h))"
    and fstatat_disk: "disk (snd (sys_fstatat k dh n w)) = disk w"
    and fstatat_ok: "sys_fstatat k dh n w = (Inr s, w') \<Longrightarrow>
          (\<exists>i. entries (disk w) (refers dh, n) = Some i \<and> s = node_metadata i (nodes (disk w) i))"
    and fstatat_missing: "sys_fstatat k dh n w = (Inl (Raw_os_error ENOENT), w') \<Longrightarrow>
          entries (disk w) (refers dh, n) = None"
    and fgetattrlist_disk: "disk (snd (sys_fgetattrlist k h cap w)) = disk w"
    and fgetattrlist_ok: "sys_fgetattrlist k h cap w = (Inr bs, w') \<Longrightarrow>
          length bs \<le> cap \<and> (\<exists>pad. bs = attr_reply (node_acl (nodes (disk w) (refers h))) pad)"
    and rewind_disk: "disk (snd (sys_rewind k h w)) = disk w"
    and rewind_ok: "sys_rewind k h w = (Inr u, w') \<Longrightarrow> offset w' h = 0"
    and read_disk: "disk (snd (sys_read_to_end k h w)) = disk w"
    and read_ok: "sys_read_to_end k h w = (Inr bs, w') \<Longrightarrow>
          bs = drop (offset w h) (node_bytes (nodes (disk w) (refers h)))"
    and write_failed: "sys_write_all k h bs w = (Inl e, w') \<Longrightarrow>
          (\<exists>bs'. disk w' = put_node (refers h) ((nodes (disk w) (refers h))\<lparr>node_bytes := bs'\<rparr>) (disk w))"
    and write_ok: "sys_write_all k h bs w = (Inr u, w') \<Longrightarrow>
          disk w' = put_node (refers h)
            ((nodes (disk w) (refers h))\<lparr>node_bytes :=
               overwrite (offset w h) bs (node_bytes (nodes (disk w) (refers h)))\<rparr>) (disk w)"
    and fchmod_failed: "sys_fchmod k h m w = (Inl e, w') \<Longrightarrow> disk w' = disk w"
    and fchmod_ok: "sys_fchmod k h m w = (Inr u, w') \<Longrightarrow>
          disk w' = put_node (refers h) (change_mode m (nodes (disk w) (refers h))) (disk w)"
    and fsync_disk: "disk (snd (sys_fsync k h w)) = disk w"
    and dup_disk: "disk (snd (sys_dup k h w)) = disk w"
    and dup_ok: "sys_dup k h w = (Inr g, w') \<Longrightarrow> refers g = refers h"
    and rename_failed: "sys_renameatx_np k dh a b flags w = (Inl e, w') \<Longrightarrow> disk w' = disk w"
    and swap_ok: "sys_renameatx_np k dh a b RENAME_SWAP w = (Inr u, w') \<Longrightarrow>
          entries (disk w) (refers dh, a) \<noteq> None \<and> entries (disk w) (refers dh, b) \<noteq> None \<and>
          disk w' = (disk w)\<lparr>entries := (entries (disk w))
            ((refers dh, a) := entries (disk w) (refers dh, b),
             (refers dh, b) := entries (disk w) (refers dh, a))\<rparr>"
    and excl_ok: "sys_renameatx_np k dh a b RENAME_EXCL w = (Inr u, w') \<Longrightarrow>
          entries (disk w) (refers dh, a) \<noteq> None \<and> entries (disk w) (refers dh, b) = None \<and>
          disk w' = (disk w)\<lparr>entries := (entries (disk w))
            ((refers dh, a) := None, (refers dh, b) := entries (disk w) (refers dh, a))\<rparr>"
    and unlink_failed: "sys_unlinkat k dh n w = (Inl e, w') \<Longrightarrow> disk w' = disk w"
    and unlink_ok: "sys_unlinkat k dh n w = (Inr u, w') \<Longrightarrow>
          disk w' = (disk w)\<lparr>entries := (entries (disk w))((refers dh, n) := None)\<rparr>"

end
