(* ===== verification/Seals.thy ===== *)
theory Seals
  imports File_System
begin

text \<open>
  Held files and their seals, \<open>tools/generated-source-publish/src/main.rs\<close>: an open file with the
  identity, access state and bytes it had when it was sealed, the validation of a name against a
  seal, and the calls on single names (slots) of a directory.
\<close>

section \<open>The program's state and its errors\<close>

record 'w prog =
  world :: 'w
  stage_counter :: u64
  quarantine_counter :: u64

definition call :: "('w, os_error, 'a) action \<Rightarrow> ('w prog, os_error, 'a) action" where
  "call c p = (case c (world p) of (r, w) \<Rightarrow> (r, p\<lparr>world := w\<rparr>))"

text \<open>
  Errors are strings made by \<open>format!\<close>; here the pieces that are formatted, in order. A nested error
  is kept whole between the text before and after it.
\<close>

datatype piece =
    Text string
  | Shown string
  | Os os_error
  | DebugIdentity identity
  | DebugSlot "identity option"
  | DebugAccess access_state
  | Number nat
  | Mode u16

datatype publish_error =
    Message "piece list"
  | Around "piece list" publish_error "piece list"
  | Joined publish_error string "publish_error list"

definition at_path :: "string \<Rightarrow> string \<Rightarrow> publish_error" where
  "at_path what path = Message [Text what, Shown path]"

definition os_at :: "string \<Rightarrow> string \<Rightarrow> os_error \<Rightarrow> publish_error" where
  "os_at what path e = Message [Text what, Shown path, Text '': '', Os e]"

definition identity_differs :: "string \<Rightarrow> string \<Rightarrow> identity \<Rightarrow> identity \<Rightarrow> publish_error" where
  "identity_differs what path expected found =
     Message [Text what, Shown path, Text '': expected '', DebugIdentity expected,
              Text '', found '', DebugIdentity found]"

definition access_differs :: "string \<Rightarrow> string \<Rightarrow> access_state \<Rightarrow> access_state \<Rightarrow> publish_error" where
  "access_differs what path expected found =
     Message [Text what, Shown path, Text '': expected '', DebugAccess expected,
              Text '', found '', DebugAccess found]"

section \<open>The extended access control list of an open file\<close>

text \<open>The buffer held zeros before the call; \<open>written\<close> is what the call put at its start.\<close>

definition buffer_byte :: "bytes \<Rightarrow> nat \<Rightarrow> u8" where
  "buffer_byte written i = (if i < length written then written ! i else 0)"

definition buffer_slice :: "bytes \<Rightarrow> nat \<Rightarrow> nat \<Rightarrow> bytes" where
  "buffer_slice written a b = map (buffer_byte written) [a..<b]"

definition read_u32 :: "bytes \<Rightarrow> nat \<Rightarrow> u32" where
  "read_u32 written at = word_from_be (rev (buffer_slice written at (at + 4)))"

definition ACL_BUFFER :: nat where
  "ACL_BUFFER = 64 * 1024"

definition parse_acl_reply :: "string \<Rightarrow> bytes \<Rightarrow> publish_error + bytes" where
  "parse_acl_reply path written =
     (let returned_length = unat (read_u32 written 0);
          attr_dataoffset = sint (read_u32 written 4);
          attr_length = read_u32 written 8 in
      if returned_length < 4 + 8 \<or> returned_length > ACL_BUFFER then
        Inl (Message [Text ''extended ACL descriptor response had an invalid length for '',
                      Shown path, Text '': '', Number returned_length])
      else
        let data_start = 4 + attr_dataoffset in
        if data_start < - (2 ^ 63) \<or> 2 ^ 63 \<le> data_start then
          Inl (at_path ''extended ACL descriptor response overflowed for '' path)
        else if data_start < 0 then
          Inl (at_path ''extended ACL descriptor response had a negative data offset for '' path)
        else
          let data_start = (of_int data_start :: usize) in
          case checked_add data_start (ucast attr_length) of
            None \<Rightarrow> Inl (at_path ''extended ACL descriptor response overflowed for '' path)
          | Some data_end \<Rightarrow>
              if unat data_start < 4 + 8 \<or> unat data_end > returned_length then
                Inl (at_path ''extended ACL descriptor response was out of bounds for '' path)
              else Inr (buffer_slice written (unat data_start) (unat data_end)))"

definition capture_extended_acl ::
    "('w, 'h) kernel \<Rightarrow> 'h \<Rightarrow> string \<Rightarrow> ('w prog, publish_error, bytes) action" where
  "capture_extended_acl k h path =
     bindS (map_errS
       (os_at ''failed to capture extended ACL through the open descriptor for '' path)
       (call (sys_fgetattrlist k h ACL_BUFFER))) (\<lambda>written.
     liftS (parse_acl_reply path written))"

section \<open>Inspecting an open file\<close>

definition inspect_open_object ::
    "('w, 'h) kernel \<Rightarrow> 'h \<Rightarrow> string \<Rightarrow> ('w prog, publish_error, identity \<times> u16 \<times> access_state) action" where
  "inspect_open_object k h path =
     bindS (map_errS (os_at ''failed to inspect open file '' path) (call (sys_fstat k h))) (\<lambda>m.
     bindS (capture_extended_acl k h path) (\<lambda>acl.
     returnS (metadata_identity m, and (st_mode m) S_IFMT,
       \<lparr>access_mode = and (st_mode m) 0xFFF, access_owner = st_uid m, access_group = st_gid m,
        access_flags = st_flags m, extended_acl = acl\<rparr>)))"

definition inspect_open_regular_file ::
    "('w, 'h) kernel \<Rightarrow> 'h \<Rightarrow> string \<Rightarrow> ('w prog, publish_error, identity \<times> access_state) action" where
  "inspect_open_regular_file k h path =
     bindS (inspect_open_object k h path) (\<lambda>(i, file_type, access).
     bindS (rejectS (file_type \<noteq> S_IFREG) (at_path ''opened file is not regular: '' path)) (\<lambda>_.
     returnS (i, access)))"

definition inspect_open_regular_identity ::
    "('w, 'h) kernel \<Rightarrow> 'h \<Rightarrow> string \<Rightarrow> ('w prog, publish_error, identity) action" where
  "inspect_open_regular_identity k h path =
     bindS (map_errS (os_at ''failed to capture provisional stage identity at '' path)
       (call (sys_fstat k h))) (\<lambda>m.
     bindS (rejectS (and (st_mode m) S_IFMT \<noteq> S_IFREG)
       (at_path ''newly created stage is not regular at '' path)) (\<lambda>_.
     returnS (metadata_identity m)))"

definition read_open_file ::
    "('w, 'h) kernel \<Rightarrow> 'h \<Rightarrow> string \<Rightarrow> ('w prog, publish_error, bytes) action" where
  "read_open_file k h path =
     bindS (map_errS (os_at ''failed to rewind open file '' path) (call (sys_rewind k h))) (\<lambda>_.
     map_errS (os_at ''failed to read open file '' path) (call (sys_read_to_end k h)))"

section \<open>Names of a directory\<close>

definition path_component_cstring :: "string \<Rightarrow> publish_error + string" where
  "path_component_cstring component =
     (if CHR 0x00 \<in> set component then Inl (Message [Text ''path contains an interior NUL byte''])
      else Inr component)"

definition slot_display_path :: "string \<Rightarrow> string \<Rightarrow> string" where
  "slot_display_path dir n = path_push dir n"

definition open_existing_slot ::
    "('w, 'h) kernel \<Rightarrow> 'h \<Rightarrow> string \<Rightarrow> string \<Rightarrow> string \<Rightarrow> ('w prog, publish_error, 'h) action" where
  "open_existing_slot k dh n path role =
     map_errS (\<lambda>e.
       if e = Raw_os_error ENOENT then Message [Text role, Text '' is missing at '', Shown path]
       else Message [Text role, Text '' is unreadable or failed inspection at '', Shown path,
                     Text '': '', Os e])
     (call (sys_openat k dh n [O_RDONLY, O_NOFOLLOW] 0))"

definition slot_identity ::
    "('w, 'h) kernel \<Rightarrow> 'h \<Rightarrow> string \<Rightarrow> string \<Rightarrow> ('w prog, publish_error, identity option) action" where
  "slot_identity k dh n path =
     bindS (attemptS (call (sys_fstatat k dh n))) (\<lambda>r.
     case r of
       Inl e \<Rightarrow>
         if e = Raw_os_error ENOENT then returnS None
         else failS (os_at ''failed to inspect destination pathname slot '' path e)
     | Inr m \<Rightarrow>
         if and (st_mode m) S_IFMT \<noteq> S_IFREG then
           failS (at_path ''destination pathname slot is not a regular file: '' path)
         else returnS (Some (metadata_identity m)))"

definition ensure_slot_missing ::
    "('w, 'h) kernel \<Rightarrow> 'h \<Rightarrow> string \<Rightarrow> string \<Rightarrow> string \<Rightarrow> ('w prog, publish_error, unit) action" where
  "ensure_slot_missing k dh n path role =
     bindS (slot_identity k dh n path) (\<lambda>occupant.
     case occupant of
       None \<Rightarrow> returnS ()
     | Some i \<Rightarrow> failS (Message [Text role, Text '' pathname is occupied at '', Shown path,
                                Text '' by '', DebugIdentity i]))"

definition read_regular_slot ::
    "('w, 'h) kernel \<Rightarrow> 'h \<Rightarrow> string \<Rightarrow> string \<Rightarrow> ('w prog, publish_error, bytes) action" where
  "read_regular_slot k dh n path =
     bindS (slot_identity k dh n path) (\<lambda>occupant.
     bindS (ok_orS occupant (at_path ''tracked generated source is missing: '' path)) (\<lambda>_.
     bindS (map_errS (os_at ''failed to open tracked generated source '' path)
       (call (sys_openat k dh n [O_RDONLY, O_NOFOLLOW] 0))) (\<lambda>h.
     bindS (map_errS (os_at ''failed to inspect open destination '' path) (call (sys_fstat k h))) (\<lambda>m.
     bindS (rejectS (and (st_mode m) S_IFMT \<noteq> S_IFREG)
       (at_path ''opened destination is not a regular file: '' path)) (\<lambda>_.
     map_errS (os_at ''failed to read tracked generated source '' path)
       (call (sys_read_to_end k h)))))))"

definition open_new_stage ::
    "('w, 'h) kernel \<Rightarrow> 'h \<Rightarrow> string \<Rightarrow> ('w prog, os_error, 'h) action" where
  "open_new_stage k dh n = call (sys_openat k dh n [O_RDWR, O_CREAT, O_EXCL, O_NOFOLLOW] 0x180)"

definition rename_slot ::
    "('w, 'h) kernel \<Rightarrow> 'h \<Rightarrow> string \<Rightarrow> string \<Rightarrow> u32 \<Rightarrow> ('w prog, os_error, unit) action" where
  "rename_slot k dh a b flags = call (sys_renameatx_np k dh a b flags)"

definition unlink_slot :: "('w, 'h) kernel \<Rightarrow> 'h \<Rightarrow> string \<Rightarrow> ('w prog, os_error, unit) action" where
  "unlink_slot k dh n = call (sys_unlinkat k dh n)"

text \<open>Names no other run of the program makes: the process and a counter are part of them.\<close>

definition stage_suffix :: "u32 \<Rightarrow> u64 \<Rightarrow> string" where
  "stage_suffix pid counter =
     ''.diskplan-stage.'' @ show_nat (unat pid) @ ''.'' @ show_nat (unat counter)"

definition quarantine_suffix :: "u32 \<Rightarrow> u64 \<Rightarrow> string" where
  "quarantine_suffix pid counter =
     ''.diskplan-quarantine.'' @ show_nat (unat pid) @ ''.'' @ show_nat (unat counter)"

definition create_stage_name ::
    "('w, 'h) kernel \<Rightarrow> string \<Rightarrow> ('w prog, publish_error, string) action" where
  "create_stage_name k n p =
     (let bytes = n @ stage_suffix (process_id k) (stage_counter p) in
      (if CHR 0x00 \<in> set bytes then Inl (Message [Text ''stage name contains an interior NUL byte''])
       else Inr bytes,
       p\<lparr>stage_counter := stage_counter p + 1\<rparr>))"

definition create_quarantine_name ::
    "('w, 'h) kernel \<Rightarrow> string \<Rightarrow> ('w prog, publish_error, string) action" where
  "create_quarantine_name k n p =
     (let bytes = n @ quarantine_suffix (process_id k) (quarantine_counter p) in
      (if CHR 0x00 \<in> set bytes then
         Inl (Message [Text ''quarantine name contains an interior NUL byte''])
       else Inr bytes,
       p\<lparr>quarantine_counter := quarantine_counter p + 1\<rparr>))"

section \<open>Seals\<close>

record 'h file_seal =
  seal_handle :: 'h
  seal_identity :: identity
  seal_access :: access_state
  seal_bytes :: bytes

text \<open>\<open>FileSeal::capture\<close> looks twice and gives up when the two looks differ.\<close>

definition capture :: "('w, 'h) kernel \<Rightarrow> 'h \<Rightarrow> string \<Rightarrow> ('w prog, publish_error, 'h file_seal) action" where
  "capture k h path =
     bindS (inspect_open_regular_file k h path) (\<lambda>(i, access).
     bindS (read_open_file k h path) (\<lambda>bytes.
     bindS (inspect_open_regular_file k h path) (\<lambda>(verified_i, verified_access).
     bindS (rejectS (verified_i \<noteq> i)
       (identity_differs ''open file identity changed while sealing '' path i verified_i)) (\<lambda>_.
     bindS (rejectS (verified_access \<noteq> access)
       (access_differs ''open file access state changed while sealing '' path access verified_access)) (\<lambda>_.
     bindS (read_open_file k h path) (\<lambda>verified_bytes.
     bindS (rejectS (verified_bytes \<noteq> bytes)
       (at_path ''open file content changed while sealing '' path)) (\<lambda>_.
     returnS \<lparr>seal_handle = h, seal_identity = i, seal_access = access, seal_bytes = bytes\<rparr>)))))))"

definition validate_handle ::
    "('w, 'h) kernel \<Rightarrow> 'h file_seal \<Rightarrow> string \<Rightarrow> string \<Rightarrow> ('w prog, publish_error, unit) action" where
  "validate_handle k seal path role =
     bindS (inspect_open_regular_file k (seal_handle seal) path) (\<lambda>(i, access).
     bindS (rejectS (i \<noteq> seal_identity seal)
       (identity_differs (role @ '' sealed handle identity mismatched at '') path (seal_identity seal) i)) (\<lambda>_.
     bindS (rejectS (access \<noteq> seal_access seal)
       (access_differs (role @ '' sealed handle access state mismatched at '') path (seal_access seal) access)) (\<lambda>_.
     bindS (map_errS (\<lambda>e. Message [Text ''failed to duplicate sealed handle for '', Text role,
                                  Text '' at '', Shown path, Text '': '', Os e])
       (call (sys_dup k (seal_handle seal)))) (\<lambda>h.
     bindS (read_open_file k h path) (\<lambda>bytes.
     rejectS (bytes \<noteq> seal_bytes seal)
       (Message [Text role, Text '' sealed content mismatched at '', Shown path]))))))"

definition validate_slot ::
    "('w, 'h) kernel \<Rightarrow> 'h file_seal \<Rightarrow> 'h \<Rightarrow> string \<Rightarrow> string \<Rightarrow> string \<Rightarrow>
       ('w prog, publish_error, unit) action" where
  "validate_slot k seal dh n path role =
     bindS (validate_handle k seal path role) (\<lambda>_.
     bindS (open_existing_slot k dh n path role) (\<lambda>opened.
     bindS (inspect_open_regular_file k opened path) (\<lambda>(i, access).
     bindS (rejectS (i \<noteq> seal_identity seal)
       (identity_differs (role @ '' pathname identity mismatched at '') path (seal_identity seal) i)) (\<lambda>_.
     bindS (rejectS (access \<noteq> seal_access seal)
       (access_differs (role @ '' access state mismatched at '') path (seal_access seal) access)) (\<lambda>_.
     bindS (read_open_file k opened path) (\<lambda>bytes.
     bindS (rejectS (bytes \<noteq> seal_bytes seal)
       (Message [Text role, Text '' content mismatched at '', Shown path])) (\<lambda>_.
     bindS (slot_identity k dh n path) (\<lambda>pathname_identity.
     rejectS (pathname_identity \<noteq> Some (seal_identity seal))
       (Message [Text role, Text '' pathname changed during inspection at '', Shown path,
                 Text '': expected '', DebugIdentity (seal_identity seal),
                 Text '', found '', DebugSlot pathname_identity])))))))))"

definition open_source_no_follow ::
    "('w, 'h) kernel \<Rightarrow> string \<Rightarrow> ('w prog, publish_error, 'h) action" where
  "open_source_no_follow k source =
     (if CHR 0x00 \<in> set source then
        failS (at_path ''generated source path contains an interior NUL: '' source)
      else
        map_errS (os_at ''generated source is unavailable, unreadable, or a symlink at '' source)
          (call (sys_open k source [O_RDONLY, O_NOFOLLOW])))"

definition read_sealed_source ::
    "('w, 'h) kernel \<Rightarrow> string \<Rightarrow> ('w prog, publish_error, bytes) action" where
  "read_sealed_source k source =
     bindS (open_source_no_follow k source) (\<lambda>h.
     map_errS (\<lambda>e. Around [Text ''failed to seal generated source '', Shown source, Text '': ''] e [])
       (bindS (capture k h source) (\<lambda>seal. returnS (seal_bytes seal))))"

definition open_optional_sealed_slot ::
    "('w, 'h) kernel \<Rightarrow> 'h \<Rightarrow> string \<Rightarrow> string \<Rightarrow> ('w prog, publish_error, 'h file_seal option) action" where
  "open_optional_sealed_slot k dh n path =
     bindS (slot_identity k dh n path) (\<lambda>occupant.
     case occupant of
       None \<Rightarrow> returnS None
     | Some expected_identity \<Rightarrow>
         bindS (open_existing_slot k dh n path ''previous destination'') (\<lambda>h.
         bindS (capture k h path) (\<lambda>seal.
         bindS (rejectS (seal_identity seal \<noteq> expected_identity)
           (identity_differs ''previous destination pathname identity changed while opening '' path
              expected_identity (seal_identity seal))) (\<lambda>_.
         bindS (validate_slot k seal dh n path ''previous destination'') (\<lambda>_.
         returnS (Some seal))))))"

end
