(* ===== verification/Leases.thy ===== *)
theory Leases
  imports Seals
begin

text \<open>
  The exclusive namespace of \<open>tools/generated-source-publish/src/main.rs\<close>: the destination is inside the
  repository, every directory from its root down is opened without following links, is owned by this
  user, denies others writing, has no access control list, and is still what it was on every look.
\<close>

section \<open>Data\<close>

record 'h directory_seal =
  dir_handle :: 'h
  dir_path :: string
  name_from_parent :: "string option"
  dir_identity :: identity
  dir_access :: access_state

record 'h repository_lease =
  requested_path :: string
  root :: "'h directory_seal"

record 'h directory_lease =
  repository :: "'h repository_lease"
  descendants :: "'h directory_seal list"

section \<open>Destinations\<close>

fun all_normal :: "path_component list \<Rightarrow> bool" where
  "all_normal [] = True"
| "all_normal (Normal _ # cs) = all_normal cs"
| "all_normal (_ # cs) = False"

text \<open>The loop that pushes the components of the parent.\<close>

fun push_components :: "string \<Rightarrow> string \<Rightarrow> path_component list \<Rightarrow> publish_error + string" where
  "push_components destination current [] = Inr current"
| "push_components destination current (c # cs) =
     (case c of
        Normal component \<Rightarrow> push_components destination (path_push current component) cs
      | _ \<Rightarrow> Inl (at_path ''invalid destination component: '' destination))"

definition validate_destination :: "string \<Rightarrow> string \<Rightarrow> publish_error + string" where
  "validate_destination repo_root destination =
     (if \<not> is_absolute repo_root then Inl (at_path ''repository root is not absolute: '' repo_root)
      else if \<not> is_absolute destination then Inl (at_path ''destination is not absolute: '' destination)
      else case strip_prefix destination repo_root of
        None \<Rightarrow> Inl (Message [Text ''destination is outside repository root '', Shown repo_root,
                             Text '': '', Shown destination])
      | Some relative \<Rightarrow>
          if \<not> all_normal relative then
            Inl (at_path ''destination contains a non-normal path component: '' destination)
          else (case parent_components relative of
            None \<Rightarrow> Inl (at_path ''destination has no parent inside repository: '' destination)
          | Some parent_relative \<Rightarrow> push_components destination repo_root parent_relative))"

definition destination_parent :: "'h repository_lease \<Rightarrow> string \<Rightarrow> publish_error + string" where
  "destination_parent lease destination =
     bindR (validate_destination (requested_path lease) destination) (\<lambda>requested_parent.
     case strip_prefix requested_parent (requested_path lease) of
       None \<Rightarrow> Inl (Message [Text ''destination parent is outside requested repository root '',
                            Shown (requested_path lease), Text '': '', Shown requested_parent])
     | Some relative \<Rightarrow> Inr (path_push (dir_path (root lease)) (relative_path relative)))"

section \<open>Open directories\<close>

definition open_directory_path ::
    "('w, 'h) kernel \<Rightarrow> string \<Rightarrow> ('w prog, publish_error, 'h) action" where
  "open_directory_path k path =
     (if CHR 0x00 \<in> set path then
        failS (at_path ''directory path contains an interior NUL byte: '' path)
      else
        map_errS (os_at ''failed to descriptor-open directory without following symlinks at '' path)
          (call (sys_open k path [O_RDONLY, O_DIRECTORY, O_NOFOLLOW])))"

definition open_directory_at ::
    "('w, 'h) kernel \<Rightarrow> 'h \<Rightarrow> string \<Rightarrow> string \<Rightarrow> ('w prog, publish_error, 'h) action" where
  "open_directory_at k parent n path =
     map_errS (os_at ''failed to descriptor-open destination directory component without following symlinks at '' path)
       (call (sys_openat k parent n [O_RDONLY, O_DIRECTORY, O_NOFOLLOW] 0))"

definition inspect_open_directory ::
    "('w, 'h) kernel \<Rightarrow> 'h \<Rightarrow> string \<Rightarrow> ('w prog, publish_error, identity \<times> access_state) action" where
  "inspect_open_directory k h path =
     bindS (inspect_open_object k h path) (\<lambda>(i, file_type, access).
     bindS (rejectS (file_type \<noteq> S_IFDIR)
       (at_path ''opened destination directory is not a directory: '' path)) (\<lambda>_.
     returnS (i, access)))"

definition enforce_trusted_directory_policy ::
    "u32 \<Rightarrow> string \<Rightarrow> access_state \<Rightarrow> publish_error + unit" where
  "enforce_trusted_directory_policy effective_user path access =
     (if access_owner access \<noteq> effective_user then
        Inl (Message [Text ''destination directory is not owned by the effective user at '', Shown path,
                      Text '': expected uid '', Number (unat effective_user),
                      Text '', found '', Number (unat (access_owner access))])
      else if and (access_mode access) 0x12 \<noteq> 0 then
        Inl (Message [Text ''destination directory permits group or other writes at '', Shown path,
                      Text '': mode '', Mode (access_mode access)])
      else if extended_acl access \<noteq> [] then
        Inl (at_path ''destination directory has an extended ACL and is not a trusted-exclusive namespace: '' path)
      else Inr ())"

text \<open>Where the kernel says the open directory is now, with a buffer of \<open>PATH_MAX\<close>.\<close>

definition validate_open_directory ::
    "('w, 'h) kernel \<Rightarrow> 'h \<Rightarrow> string \<Rightarrow> ('w prog, publish_error, unit) action" where
  "validate_open_directory k h expected =
     bindS (map_errS (os_at ''failed to resolve open destination directory '' expected)
       (call (sys_getpath k h))) (\<lambda>actual.
     rejectS (\<not> same_path actual expected)
       (Message [Text ''destination directory identity changed; expected '', Shown expected,
                 Text '', opened '', Shown actual]))"

definition validate_directory_seal ::
    "('w, 'h) kernel \<Rightarrow> 'h directory_seal \<Rightarrow> string \<Rightarrow> ('w prog, publish_error, unit) action" where
  "validate_directory_seal k seal role =
     bindS (inspect_open_directory k (dir_handle seal) (dir_path seal)) (\<lambda>(i, access).
     bindS (rejectS (i \<noteq> dir_identity seal)
       (identity_differs (role @ '' descriptor identity changed at '') (dir_path seal) (dir_identity seal) i)) (\<lambda>_.
     bindS (rejectS (access \<noteq> dir_access seal)
       (access_differs (role @ '' descriptor access policy changed at '') (dir_path seal) (dir_access seal) access)) (\<lambda>_.
     bindS (liftS (enforce_trusted_directory_policy (geteuid k) (dir_path seal) access)) (\<lambda>_.
     validate_open_directory k (dir_handle seal) (dir_path seal)))))"

section \<open>The repository\<close>

definition validate_root ::
    "('w, 'h) kernel \<Rightarrow> 'h repository_lease \<Rightarrow> ('w prog, publish_error, unit) action" where
  "validate_root k lease =
     bindS (validate_directory_seal k (root lease) ''repository root'') (\<lambda>_.
     validate_open_directory k (dir_handle (root lease)) (dir_path (root lease)))"

text \<open>\<open>Drop\<close> unlocks and ignores the answer.\<close>

definition drop_repository ::
    "('w, 'h) kernel \<Rightarrow> 'h repository_lease \<Rightarrow> ('w prog, publish_error, unit) action" where
  "drop_repository k lease = ignoreS (call (sys_flock k (dir_handle (root lease)) False))"

definition acquire_repository ::
    "('w, 'h) kernel \<Rightarrow> string \<Rightarrow> ('w prog, publish_error, 'h repository_lease) action" where
  "acquire_repository k path =
     bindS (map_errS (os_at ''failed to canonicalize repository root '' path)
       (call (sys_canonicalize k path))) (\<lambda>canonical_path.
     bindS (open_directory_path k canonical_path) (\<lambda>h.
     bindS (validate_open_directory k h canonical_path) (\<lambda>_.
     bindS (inspect_open_directory k h canonical_path) (\<lambda>(i, access).
     bindS (liftS (enforce_trusted_directory_policy (geteuid k) canonical_path access)) (\<lambda>_.
     bindS (map_errS (os_at ''repository namespace is not cooperatively exclusive at '' canonical_path)
       (call (sys_flock k h True))) (\<lambda>_.
     let lease =
       \<lparr>requested_path = path,
        root = \<lparr>dir_handle = h, dir_path = canonical_path, name_from_parent = None,
                dir_identity = i, dir_access = access\<rparr>\<rparr> in
     bindS (attemptS (validate_root k lease)) (\<lambda>valid.
     case valid of
       Inl e \<Rightarrow> bindS (drop_repository k lease) (\<lambda>_. failS e)
     | Inr _ \<Rightarrow> returnS lease)))))))"

section \<open>Directories\<close>

definition final_seal :: "'h directory_lease \<Rightarrow> 'h directory_seal" where
  "final_seal lease =
     (case rev (descendants lease) of [] \<Rightarrow> root (repository lease) | seal # _ \<Rightarrow> seal)"

abbreviation lease_fd :: "'h directory_lease \<Rightarrow> 'h" where
  "lease_fd lease \<equiv> dir_handle (final_seal lease)"

abbreviation lease_path :: "'h directory_lease \<Rightarrow> string" where
  "lease_path lease \<equiv> dir_path (final_seal lease)"

text \<open>\<open>for component in relative.components()\<close>.\<close>

fun open_descendants ::
    "('w, 'h) kernel \<Rightarrow> string \<Rightarrow> 'h \<Rightarrow> string \<Rightarrow> path_component list \<Rightarrow>
       ('w prog, publish_error, 'h directory_seal list) action" where
  "open_descendants k path parent current [] = returnS []"
| "open_descendants k path parent current (c # cs) =
     (case c of
        Normal component \<Rightarrow>
          bindS (liftS (path_component_cstring component)) (\<lambda>n.
          let current = path_push current component in
          bindS (open_directory_at k parent n current) (\<lambda>h.
          bindS (validate_open_directory k h current) (\<lambda>_.
          bindS (inspect_open_directory k h current) (\<lambda>(i, access).
          bindS (liftS (enforce_trusted_directory_policy (geteuid k) current access)) (\<lambda>_.
          bindS (open_descendants k path h current cs) (\<lambda>seals.
          returnS (\<lparr>dir_handle = h, dir_path = current, name_from_parent = Some n,
                    dir_identity = i, dir_access = access\<rparr> # seals)))))))
      | _ \<Rightarrow> failS (at_path ''destination parent contains a non-normal component: '' path))"

text \<open>\<open>for descendant in &self.descendants\<close>, each opened again by its name in the one before.\<close>

fun validate_descendants ::
    "('w, 'h) kernel \<Rightarrow> 'h directory_seal \<Rightarrow> 'h directory_seal list \<Rightarrow>
       ('w prog, publish_error, unit) action" where
  "validate_descendants k parent [] = returnS ()"
| "validate_descendants k parent (descendant # rest) =
     bindS (validate_directory_seal k descendant ''destination ancestor'') (\<lambda>_.
     bindS (ok_orS (name_from_parent descendant)
       (Message [Text ''internal error: destination ancestor lacks its parent-relative name''])) (\<lambda>n.
     bindS (map_errS
       (\<lambda>e. Around [Text ''destination directory chain is missing or unreadable at '',
                    Shown (dir_path descendant), Text '': ''] e [])
       (open_directory_at k (dir_handle parent) n (dir_path descendant))) (\<lambda>reopened.
     bindS (inspect_open_directory k reopened (dir_path descendant)) (\<lambda>(i, access).
     bindS (rejectS (i \<noteq> dir_identity descendant)
       (identity_differs ''destination directory chain identity mismatched at ''
          (dir_path descendant) (dir_identity descendant) i)) (\<lambda>_.
     bindS (rejectS (access \<noteq> dir_access descendant)
       (access_differs ''destination directory chain access policy mismatched at ''
          (dir_path descendant) (dir_access descendant) access)) (\<lambda>_.
     validate_descendants k descendant rest))))))"

definition validate_exclusive_namespace ::
    "('w, 'h) kernel \<Rightarrow> 'h directory_lease \<Rightarrow> ('w prog, publish_error, unit) action" where
  "validate_exclusive_namespace k lease =
     bindS (validate_root k (repository lease)) (\<lambda>_.
     validate_descendants k (root (repository lease)) (descendants lease))"

definition acquire_directory ::
    "('w, 'h) kernel \<Rightarrow> 'h repository_lease \<Rightarrow> string \<Rightarrow>
       ('w prog, publish_error, 'h directory_lease) action" where
  "acquire_directory k repo path =
     bindS (validate_root k repo) (\<lambda>_.
     bindS (ok_orS (strip_prefix path (dir_path (root repo)))
       (Message [Text ''destination parent is outside repository root '', Shown (dir_path (root repo)),
                 Text '': '', Shown path])) (\<lambda>relative.
     bindS (open_descendants k path (dir_handle (root repo)) (dir_path (root repo)) relative) (\<lambda>seals.
     let lease = \<lparr>repository = repo, descendants = seals\<rparr> in
     bindS (validate_exclusive_namespace k lease) (\<lambda>_.
     returnS lease))))"

definition sync_directory ::
    "('w, 'h) kernel \<Rightarrow> 'h directory_lease \<Rightarrow> ('w prog, os_error, unit) action" where
  "sync_directory k lease = call (sys_fsync k (lease_fd lease))"

end
