(* ===== verification/Publisher.thy ===== *)
theory Publisher
  imports Leases
begin

text \<open>
  The publisher of generated sources, \<open>tools/generated-source-publish/src/main.rs\<close>: one target per
  destination file with its life from preparation over staging and publication to the end or the
  rollback, and the run over all targets.
\<close>

section \<open>Targets\<close>

record 'h provisional =
  prov_handle :: 'h
  prov_identity :: "identity option"

record 'h target =
  directory :: "'h directory_lease"
  display_path :: string
  target_name :: string
  source_bytes :: bytes
  stage_name :: "string option"
  provisional_stage :: "'h provisional option"
  staged :: "'h file_seal option"
  previous :: "'h file_seal option"
  published :: bool

type_synonym ('w, 'h, 'a) target_action = "('h target \<times> 'w prog, publish_error, 'a) action"

abbreviation target_fd :: "'h target \<Rightarrow> 'h" where
  "target_fd t \<equiv> lease_fd (directory t)"

definition prepare_with_directory ::
    "('w, 'h) kernel \<Rightarrow> string \<Rightarrow> string \<Rightarrow> 'h directory_lease \<Rightarrow>
       ('w prog, publish_error, 'h target) action" where
  "prepare_with_directory k source destination dir =
     bindS (validate_exclusive_namespace k dir) (\<lambda>_.
     bindS (read_sealed_source k source) (\<lambda>bytes.
     bindS (ok_orS (file_name destination) (at_path ''destination has no file name: '' destination)) (\<lambda>file.
     bindS (liftS (path_component_cstring file)) (\<lambda>n.
     bindS (open_optional_sealed_slot k (lease_fd dir) n destination) (\<lambda>prev.
     returnS \<lparr>directory = dir, display_path = destination, target_name = n, source_bytes = bytes,
              stage_name = None, provisional_stage = None, staged = None, previous = prev,
              published = False\<rparr>)))))"

definition verify :: "('w, 'h) kernel \<Rightarrow> 'h target \<Rightarrow> ('w prog, publish_error, unit) action" where
  "verify k t =
     bindS (validate_exclusive_namespace k (directory t)) (\<lambda>_.
     bindS (read_regular_slot k (target_fd t) (target_name t) (display_path t)) (\<lambda>bytes.
     rejectS (bytes \<noteq> source_bytes t)
       (at_path ''generated source differs from tracked destination: '' (display_path t))))"

section \<open>Taking a file away\<close>

text \<open>The occupant is moved to a name nobody uses, compared with the held seal there, and only then
  unlinked.\<close>

definition quarantine_and_delete_sealed_slot ::
    "('w, 'h) kernel \<Rightarrow> 'h directory_lease \<Rightarrow> string \<Rightarrow> string \<Rightarrow> string \<Rightarrow> 'h file_seal \<Rightarrow>
       ('w prog, publish_error, unit) action" where
  "quarantine_and_delete_sealed_slot k dir n path role seal =
     bindS (validate_exclusive_namespace k dir) (\<lambda>_.
     bindS (create_quarantine_name k n) (\<lambda>quarantine_name.
     let quarantine_path = slot_display_path (lease_path dir) quarantine_name in
     bindS (map_errS (\<lambda>e. Message [Text ''failed to move '', Text role,
                Text '' into a unique quarantine slot at '', Shown path, Text '': '', Os e,
                Text ''; no file was deleted; recovery path remains: '', Shown path])
       (rename_slot k (lease_fd dir) n quarantine_name RENAME_EXCL)) (\<lambda>_.
     bindS (map_errS (\<lambda>e. Around [Text ''quarantined '', Text role,
                Text '' did not match its held descriptor seal: ''] e
                [Text ''; no file was deleted; recovery path: '', Shown quarantine_path])
       (validate_slot k seal (lease_fd dir) quarantine_name quarantine_path (''quarantined '' @ role))) (\<lambda>_.
     bindS (map_errS (\<lambda>e. Around [Text ''exclusive namespace validation failed after quarantining '',
                Text role, Text '': ''] e
                [Text ''; no file was deleted; recovery path: '', Shown quarantine_path])
       (validate_exclusive_namespace k dir)) (\<lambda>_.
     map_errS (\<lambda>e. Message [Text ''failed to unlink validated quarantined '', Text role, Text '': '',
                Os e, Text ''; recovery path: '', Shown quarantine_path])
       (unlink_slot k (lease_fd dir) quarantine_name))))))"

section \<open>Staging\<close>

definition no_provisional :: publish_error where
  "no_provisional = Message [Text ''internal error: provisional stage disappeared'']"

text \<open>The stage is created beside the destination, written, made durable, read back and sealed. From
  its creation on the target knows its name and holds it open.\<close>

definition create_stage :: "('w, 'h) kernel \<Rightarrow> ('w, 'h, string) target_action" where
  "create_stage k = with_self (\<lambda>t.
     bindS (outside (validate_exclusive_namespace k (directory t))) (\<lambda>_.
     bindS (outside (create_stage_name k (target_name t))) (\<lambda>n.
     bindS (map_errS (os_at ''failed to create same-directory stage for '' (display_path t))
       (outside (open_new_stage k (target_fd t) n))) (\<lambda>h.
     bindS (modify_self (\<lambda>t. t\<lparr>stage_name := Some n,
       provisional_stage := Some \<lparr>prov_handle = h, prov_identity = None\<rparr>\<rparr>)) (\<lambda>_.
     bindS (outside (inspect_open_regular_identity k h (display_path t))) (\<lambda>i.
     bindS (modify_self (\<lambda>t. t\<lparr>provisional_stage := Some \<lparr>prov_handle = h, prov_identity = Some i\<rparr>\<rparr>)) (\<lambda>_.
     returnS n)))))))"

definition write_stage :: "('w, 'h) kernel \<Rightarrow> ('w, 'h, unit) target_action" where
  "write_stage k = with_self (\<lambda>t.
     bindS (ok_orS (provisional_stage t) no_provisional) (\<lambda>provisional.
     let h = prov_handle provisional; path = display_path t in
     bindS (map_errS (os_at ''failed to write and fsync stage for '' path)
       (outside (bindS (call (sys_write_all k h (source_bytes t))) (\<lambda>_. call (sys_fsync k h))))) (\<lambda>_.
     bindS (map_errS (os_at ''failed to set and fsync stage permissions for '' path)
       (outside (bindS (call (sys_fchmod k h 0x1A4)) (\<lambda>_. call (sys_fsync k h))))) (\<lambda>_.
     bindS (map_errS (os_at ''failed to rewind stage for '' path) (outside (call (sys_rewind k h)))) (\<lambda>_.
     bindS (map_errS (os_at ''failed to verify stage for '' path)
       (outside (call (sys_read_to_end k h)))) (\<lambda>verified.
     bindS (rejectS (verified \<noteq> source_bytes t)
       (at_path ''staged bytes failed verification for '' path)) (\<lambda>_.
     map_errS (os_at ''failed to fsync destination directory '' path)
       (outside (sync_directory k (directory t))))))))))"

definition seal_stage :: "('w, 'h) kernel \<Rightarrow> string \<Rightarrow> ('w, 'h, unit) target_action" where
  "seal_stage k n = with_self (\<lambda>t.
     bindS (ok_orS (provisional_stage t) no_provisional) (\<lambda>provisional.
     let path = display_path t in
     bindS (map_errS (os_at ''failed to duplicate provisional stage handle for '' path)
       (outside (call (sys_dup k (prov_handle provisional))))) (\<lambda>h.
     bindS (outside (capture k h path)) (\<lambda>seal.
     bindS (rejectS (case prov_identity provisional of None \<Rightarrow> False | Some i \<Rightarrow> seal_identity seal \<noteq> i)
       (Message [Text ''staged file identity changed before sealing '', Shown path,
                 Text '': expected '', DebugSlot (prov_identity provisional),
                 Text '', found '', DebugIdentity (seal_identity seal)])) (\<lambda>_.
     bindS (outside (validate_slot k seal (target_fd t) n path ''staged generated source'')) (\<lambda>_.
     modify_self (\<lambda>t. t\<lparr>provisional_stage := None, staged := Some seal\<rparr>)))))))"

definition stage :: "('w, 'h) kernel \<Rightarrow> ('w, 'h, unit) target_action" where
  "stage k =
     bindS (create_stage k) (\<lambda>n.
     bindS (write_stage k) (\<lambda>_.
     seal_stage k n))"

section \<open>Rolling back\<close>

definition not_published :: publish_error where
  "not_published = Message [Text ''internal error: target was not published'']"

text \<open>The two arms of the match on the previous destination. Restoring exchanges the names back, looks at
  both files and removes the rolled-back one.\<close>

definition remove_rolled_back ::
    "('w, 'h) kernel \<Rightarrow> 'h target \<Rightarrow> 'h file_seal \<Rightarrow> 'h file_seal \<Rightarrow> string \<Rightarrow> ('w prog, publish_error, unit) action" where
  "remove_rolled_back k t seal prev sn =
     (let fd = target_fd t; n = target_name t; path = display_path t in
      bindS (validate_slot k prev fd n path ''restored destination'') (\<lambda>_.
      bindS (validate_slot k seal fd sn path ''rolled-back generated source'') (\<lambda>_.
      map_errS (\<lambda>e. Around [Text ''restored '', Shown path,
                        Text '' but failed to remove rollback stage: ''] e [])
        (quarantine_and_delete_sealed_slot k (directory t) sn path
           ''rolled-back generated source'' seal))))"

definition restore_previous ::
    "('w, 'h) kernel \<Rightarrow> 'h target \<Rightarrow> 'h file_seal \<Rightarrow> 'h file_seal \<Rightarrow> string \<Rightarrow> ('w prog, publish_error, unit) action" where
  "restore_previous k t seal prev sn =
     (let fd = target_fd t; n = target_name t; path = display_path t in
      bindS (validate_slot k prev fd sn path ''rollback backup'') (\<lambda>_.
      bindS (map_errS (os_at ''failed to restore '' path) (rename_slot k fd sn n RENAME_SWAP)) (\<lambda>_.
      remove_rolled_back k t seal prev sn)))"

definition remove_published ::
    "('w, 'h) kernel \<Rightarrow> 'h target \<Rightarrow> 'h file_seal \<Rightarrow> ('w prog, publish_error, unit) action" where
  "remove_published k t seal =
     map_errS (\<lambda>e. Around [Text ''failed to remove newly published destination '',
                       Shown (display_path t), Text '': ''] e [])
       (quarantine_and_delete_sealed_slot k (directory t) (target_name t) (display_path t)
          ''newly published destination'' seal)"

definition rollback :: "('w, 'h) kernel \<Rightarrow> ('w, 'h, unit) target_action" where
  "rollback k = with_self (\<lambda>t.
     bindS (outside (validate_exclusive_namespace k (directory t))) (\<lambda>_.
     bindS (rejectS (\<not> published t) not_published) (\<lambda>_.
     bindS (ok_orS (staged t)
       (Message [Text ''internal error: published target has no file seal''])) (\<lambda>seal.
     bindS (outside (validate_slot k seal (target_fd t) (target_name t) (display_path t)
              ''published generated source'')) (\<lambda>_.
     bindS
       (case previous t of
          Some prev \<Rightarrow>
            bindS (ok_orS (stage_name t)
              (Message [Text ''internal error: previous destination has no rollback slot''])) (\<lambda>sn.
            outside (restore_previous k t seal prev sn))
        | None \<Rightarrow> outside (remove_published k t seal)) (\<lambda>_.
     bindS (map_errS (os_at ''failed to fsync rollback directory for '' (display_path t))
       (outside (sync_directory k (directory t)))) (\<lambda>_.
     modify_self (\<lambda>t. t\<lparr>stage_name := None, staged := None, published := False\<rparr>))))))))"

section \<open>Publishing\<close>

text \<open>The checks before the exchange, the exchange, and what follows it.\<close>

definition before_publish :: "('w, 'h) kernel \<Rightarrow> ('w, 'h, string \<times> 'h file_seal) target_action" where
  "before_publish k = with_self (\<lambda>t.
     let fd = target_fd t; n = target_name t; path = display_path t in
     bindS (outside (validate_exclusive_namespace k (directory t))) (\<lambda>_.
     bindS (ok_orS (stage_name t) (Message [Text ''internal error: target was not staged''])) (\<lambda>sn.
     bindS (ok_orS (staged t) (Message [Text ''internal error: target has no staged-file seal''])) (\<lambda>seal.
     bindS (outside (validate_slot k seal fd sn path ''staged generated source'')) (\<lambda>_.
     bindS
       (case previous t of
          Some prev \<Rightarrow> outside (validate_slot k prev fd n path ''previous destination'')
        | None \<Rightarrow> outside (ensure_slot_missing k fd n path ''new destination'')) (\<lambda>_.
     returnS (sn, seal)))))))"

definition exchange :: "('w, 'h) kernel \<Rightarrow> string \<Rightarrow> 'h file_seal \<Rightarrow> ('w, 'h, unit) target_action" where
  "exchange k sn seal = with_self (\<lambda>t.
     let fd = target_fd t; n = target_name t; path = display_path t;
         flags = (if previous t \<noteq> None then RENAME_SWAP else RENAME_EXCL) in
     bindS (map_errS (os_at ''atomic publish failed for '' path)
       (outside (rename_slot k fd sn n flags))) (\<lambda>_.
     bindS (modify_self (\<lambda>t. t\<lparr>published := True\<rparr>)) (\<lambda>_.
     bindS (outside (validate_slot k seal fd n path ''published generated source'')) (\<lambda>_.
     case previous t of
       Some prev \<Rightarrow> outside (validate_slot k prev fd sn path ''rollback backup'')
     | None \<Rightarrow> returnS ()))))"

definition after_publish :: "('w, 'h) kernel \<Rightarrow> ('w, 'h, unit) target_action" where
  "after_publish k = with_self (\<lambda>t.
     bindS (attemptS (outside
       (bindS (map_errS (os_at ''failed to fsync published directory for '' (display_path t))
          (sync_directory k (directory t))) (\<lambda>_.
        verify k t)))) (\<lambda>post_publish.
     case post_publish of
       Inr _ \<Rightarrow> returnS ()
     | Inl error \<Rightarrow>
         bindS (attemptS (rollback k)) (\<lambda>undone.
         case undone of
           Inr _ \<Rightarrow> failS (Around [] error [Text ''; this destination was rolled back''])
         | Inl rollback_error \<Rightarrow>
             failS (Joined error ''; this destination rollback was incomplete: '' [rollback_error]))))"

definition publish :: "('w, 'h) kernel \<Rightarrow> ('w, 'h, unit) target_action" where
  "publish k =
     bindS (before_publish k) (\<lambda>(sn, seal).
     bindS (exchange k sn seal) (\<lambda>_.
     after_publish k))"

section \<open>Finishing and discarding\<close>

definition finish :: "('w, 'h) kernel \<Rightarrow> ('w, 'h, unit) target_action" where
  "finish k = with_self (\<lambda>t.
     let fd = target_fd t; n = target_name t; path = display_path t in
     bindS (outside (validate_exclusive_namespace k (directory t))) (\<lambda>_.
     bindS (rejectS (\<not> published t) not_published) (\<lambda>_.
     bindS (ok_orS (staged t)
       (Message [Text ''internal error: published target has no file seal''])) (\<lambda>seal.
     bindS (outside (validate_slot k seal fd n path ''published generated source'')) (\<lambda>_.
     bindS
       (case (previous t, stage_name t) of
          (Some prev, Some sn) \<Rightarrow>
            map_errS (\<lambda>e. Around [Text ''failed to remove previous generated source backup for '',
                              Shown path, Text '': ''] e [])
              (outside (quarantine_and_delete_sealed_slot k (directory t) sn path
                 ''rollback backup'' prev))
        | _ \<Rightarrow> returnS ()) (\<lambda>_.
     bindS (map_errS (os_at ''failed to fsync completed destination directory for '' path)
       (outside (sync_directory k (directory t)))) (\<lambda>_.
     modify_self (\<lambda>t. t\<lparr>stage_name := None, staged := None, previous := None,
                      published := False\<rparr>))))))))"

text \<open>The seal of a stage that failed before it was sealed.\<close>

definition cleanup_seal :: "('w, 'h) kernel \<Rightarrow> string \<Rightarrow> ('w, 'h, 'h file_seal) target_action" where
  "cleanup_seal k sn = with_self (\<lambda>t.
     let path = display_path t; recovery = slot_display_path (lease_path (directory t)) sn in
     case staged t of
       Some seal \<Rightarrow> returnS seal
     | None \<Rightarrow>
         (case provisional_stage t of
            Some provisional \<Rightarrow>
              bindS (map_errS (\<lambda>e. Message [Text ''failed to duplicate provisional stage handle for cleanup at '',
                         Shown path, Text '': '', Os e, Text ''; recovery path: '', Shown recovery])
                (outside (call (sys_dup k (prov_handle provisional))))) (\<lambda>h.
              bindS (map_errS (\<lambda>e. Around [Text ''failed to seal provisional stage for cleanup at '',
                         Shown path, Text '': ''] e [Text ''; recovery path: '', Shown recovery])
                (outside (capture k h path))) (\<lambda>seal.
              bindS (rejectS
                (case prov_identity provisional of None \<Rightarrow> False | Some i \<Rightarrow> seal_identity seal \<noteq> i)
                (Message [Text ''provisional stage identity changed before cleanup at '', Shown path,
                          Text ''; recovery path: '', Shown recovery])) (\<lambda>_.
              returnS seal)))
          | None \<Rightarrow>
              failS (Message [Text ''stage exists without a held descriptor seal at '', Shown path,
                              Text ''; recovery path: '', Shown recovery])))"

definition remove_stage :: "('w, 'h) kernel \<Rightarrow> string \<Rightarrow> ('w, 'h, unit) target_action" where
  "remove_stage k sn = with_self (\<lambda>t.
     bindS (cleanup_seal k sn) (\<lambda>seal.
     bindS (outside (quarantine_and_delete_sealed_slot k (directory t) sn (display_path t)
              ''staged generated source'' seal)) (\<lambda>_.
     bindS (map_errS (os_at ''failed to fsync discarded stage directory for '' (display_path t))
       (outside (sync_directory k (directory t)))) (\<lambda>_.
     modify_self (\<lambda>t. t\<lparr>stage_name := None, provisional_stage := None, staged := None\<rparr>)))))"

definition discard_stage :: "('w, 'h) kernel \<Rightarrow> ('w, 'h, unit) target_action" where
  "discard_stage k = with_self (\<lambda>t.
     bindS (outside (validate_exclusive_namespace k (directory t))) (\<lambda>_.
     case (published t, stage_name t) of
       (False, Some sn) \<Rightarrow> remove_stage k sn
     | _ \<Rightarrow> returnS ()))"

section \<open>The run\<close>

definition usage_message :: publish_error where
  "usage_message = Message [Text ''usage: generated-source-publish <verify|publish> <repo-root> <source> <destination> [<source> <destination> ...]'']"

fun chunk_pairs :: "string list \<Rightarrow> (string \<times> string) list" where
  "chunk_pairs (a # b # rest) = (a, b) # chunk_pairs rest"
| "chunk_pairs _ = []"

definition parse_pairs :: "string list \<Rightarrow> publish_error + string \<times> (string \<times> string) list" where
  "parse_pairs arguments =
     (if length arguments < 3 \<or> (length arguments - 1) mod 2 \<noteq> 0 then Inl usage_message
      else Inr (hd arguments, chunk_pairs (tl arguments)))"

text \<open>The directory lease for a parent, shared by the targets in it.\<close>

definition lease_for ::
    "('w, 'h) kernel \<Rightarrow> 'h repository_lease \<Rightarrow> (string \<times> 'h directory_lease) list \<Rightarrow> string \<Rightarrow>
       ('w prog, publish_error, 'h directory_lease \<times> (string \<times> 'h directory_lease) list) action" where
  "lease_for k repo directories parent =
     (case find (\<lambda>(existing, _). same_path existing parent) directories of
        Some (_, dir) \<Rightarrow> returnS (dir, directories)
      | None \<Rightarrow>
          bindS (acquire_directory k repo parent) (\<lambda>dir.
          returnS (dir, directories @ [(parent, dir)])))"

fun prepare_targets ::
    "('w, 'h) kernel \<Rightarrow> 'h repository_lease \<Rightarrow> (string \<times> string) list \<Rightarrow> 'h target list \<Rightarrow>
       (string \<times> 'h directory_lease) list \<Rightarrow> ('w prog, publish_error, 'h target list) action" where
  "prepare_targets k repo [] targets directories = returnS targets"
| "prepare_targets k repo ((source, destination) # pairs) targets directories =
     bindS (rejectS (\<exists>t\<in>set targets. same_path (display_path t) destination)
       (at_path ''duplicate destination: '' destination)) (\<lambda>_.
     bindS (liftS (destination_parent repo destination)) (\<lambda>parent.
     bindS (lease_for k repo directories parent) (\<lambda>(dir, directories).
     bindS (prepare_with_directory k source destination dir) (\<lambda>t.
     prepare_targets k repo pairs (targets @ [t]) directories))))"

type_synonym ('w, 'h, 'a) batch = "('h target list \<times> 'w prog, publish_error, 'a) action"

definition stage_failed :: "('w, 'h) kernel \<Rightarrow> publish_error \<Rightarrow> ('w, 'h, unit) batch" where
  "stage_failed k error = with_self (\<lambda>ts.
     bindS (collectS (map (\<lambda>j. at_index j (discard_stage k)) [0..<length ts])) (\<lambda>cleanup_errors.
     failS (if cleanup_errors = [] then error
            else Joined error ''; staged-file cleanup was incomplete: '' cleanup_errors)))"

fun stage_targets :: "('w, 'h) kernel \<Rightarrow> nat list \<Rightarrow> ('w, 'h, unit) batch" where
  "stage_targets k [] = returnS ()"
| "stage_targets k (i # is) =
     bindS (attemptS (at_index i (stage k))) (\<lambda>r.
     case r of
       Inl error \<Rightarrow> stage_failed k error
     | Inr _ \<Rightarrow> stage_targets k is)"

text \<open>What a failed publication at \<open>index\<close> undoes: its own exchange, the earlier targets in reverse
  order, then the stages that are left.\<close>

definition undo_actions :: "('w, 'h) kernel \<Rightarrow> nat \<Rightarrow> 'h target list \<Rightarrow> ('w, 'h, unit) batch list" where
  "undo_actions k index ts =
     (if published (ts ! index) then [at_index index (rollback k)] else []) @
     map (\<lambda>j. at_index j (rollback k)) (rev [0..<index]) @
     map (\<lambda>j. at_index j (discard_stage k)) [index..<length ts]"

definition publish_failed :: "('w, 'h) kernel \<Rightarrow> nat \<Rightarrow> publish_error \<Rightarrow> ('w, 'h, unit) batch" where
  "publish_failed k index error = with_self (\<lambda>ts.
     bindS (collectS (undo_actions k index ts)) (\<lambda>rollback_errors.
     failS (if rollback_errors = [] then
              Around [] error [Text ''; previously published files were rolled back'']
            else Joined error ''; rollback was incomplete: '' rollback_errors)))"

fun publish_targets :: "('w, 'h) kernel \<Rightarrow> nat list \<Rightarrow> ('w, 'h, unit) batch" where
  "publish_targets k [] = returnS ()"
| "publish_targets k (i # is) =
     bindS (attemptS (at_index i (publish k))) (\<lambda>r.
     case r of
       Inl error \<Rightarrow> publish_failed k i error
     | Inr _ \<Rightarrow> publish_targets k is)"

definition publish_all :: "('w, 'h) kernel \<Rightarrow> ('w, 'h, unit) batch" where
  "publish_all k = with_self (\<lambda>ts.
     bindS (stage_targets k [0..<length ts]) (\<lambda>_.
     bindS (publish_targets k [0..<length ts]) (\<lambda>_.
     sequenceS (map (\<lambda>j. at_index j (finish k)) [0..<length ts]))))"

definition verify_all :: "('w, 'h) kernel \<Rightarrow> 'h target list \<Rightarrow> ('w prog, publish_error, unit) action" where
  "verify_all k ts = sequenceS (map (verify k) ts)"

text \<open>The targets live as long as the command runs.\<close>

definition with_targets :: "'h target list \<Rightarrow> ('w, 'h, 'a) batch \<Rightarrow> ('w prog, publish_error, 'a) action" where
  "with_targets ts m p = (case m (ts, p) of (r, (_, p')) \<Rightarrow> (r, p'))"

definition run_command ::
    "('w, 'h) kernel \<Rightarrow> string \<Rightarrow> 'h target list \<Rightarrow> ('w prog, publish_error, unit) action" where
  "run_command k command targets =
     (if command = ''verify'' then verify_all k targets
      else if command = ''publish'' then with_targets targets (publish_all k)
      else failS (Message [Text ''unsupported command: '', Text command]))"

definition run_publisher :: "('w, 'h) kernel \<Rightarrow> string list \<Rightarrow> ('w prog, publish_error, unit) action" where
  "run_publisher k arguments =
     (case arguments of
        [] \<Rightarrow> failS (Message [Text ''missing command''])
      | command # remainder \<Rightarrow>
          bindS (liftS (parse_pairs remainder)) (\<lambda>(repo_root, pairs).
          bindS (acquire_repository k repo_root) (\<lambda>repo.
          finallyS
            (bindS (prepare_targets k repo pairs [] []) (run_command k command))
            (drop_repository k repo))))"

text \<open>\<open>main\<close>: what goes to standard error and the exit code.\<close>

definition publisher_main ::
    "('w, 'h) kernel \<Rightarrow> string list \<Rightarrow> 'w prog \<Rightarrow> publish_error option \<times> i32 \<times> 'w prog" where
  "publisher_main k arguments p =
     (case run_publisher k arguments p of
        (Inl error, p') \<Rightarrow> (Some (Around [Text ''generated-source-publish: ''] error []), 1, p')
      | (Inr _, p') \<Rightarrow> (None, 0, p'))"

end
