(* ===== verification/Seals_Laws.thy ===== *)
theory Seals_Laws
  imports Seals
begin

text \<open>
  What the held files and slots guarantee on any file system: looking changes nothing, a capture tells
  the truth, and a validated slot names exactly the object of the seal, with the sealed access state
  and bytes.
\<close>

section \<open>Nothing but the world's clockwork moves\<close>

definition unchanged :: "('w \<Rightarrow> disk) \<Rightarrow> 'w prog \<Rightarrow> 'w prog \<Rightarrow> bool" where
  "unchanged dsk p p' \<longleftrightarrow>
     dsk (world p') = dsk (world p) \<and> stage_counter p' = stage_counter p \<and>
     quarantine_counter p' = quarantine_counter p"

lemma unchangedD:
  assumes "unchanged dsk p p'"
  shows "dsk (world p') = dsk (world p)" "stage_counter p' = stage_counter p"
    "quarantine_counter p' = quarantine_counter p"
  using assms by (simp_all add: unchanged_def)

lemma unchanged_refl [simp]: "unchanged dsk p p"
  by (simp add: unchanged_def)

lemma unchanged_trans: "unchanged dsk p q \<Longrightarrow> unchanged dsk q r \<Longrightarrow> unchanged dsk p r"
  by (simp add: unchanged_def)

lemma wp_call:
  "wp (call c) Q E p \<longleftrightarrow>
     wp c (\<lambda>x w. Q x (p\<lparr>world := w\<rparr>)) (\<lambda>e w. E e (p\<lparr>world := w\<rparr>)) (world p)"
  by (simp add: wp_def call_def split: prod.splits sum.splits)

text \<open>A call that leaves the disk alone.\<close>

lemma wp_quiet_call:
  assumes "dsk (snd (c (world p))) = dsk (world p)"
    and "\<And>x w. c (world p) = (Inr x, w) \<Longrightarrow> unchanged dsk p (p\<lparr>world := w\<rparr>) \<Longrightarrow> Q x (p\<lparr>world := w\<rparr>)"
    and "\<And>e p'. unchanged dsk p p' \<Longrightarrow> E e p'"
  shows "wp (call c) Q E p"
proof -
  obtain r w where r: "c (world p) = (r, w)" by fastforce
  with assms(1) have u: "unchanged dsk p (p\<lparr>world := w\<rparr>)"
    by (simp add: unchanged_def)
  show ?thesis
    using assms(2,3) u r by (cases r) (auto simp: wp_def call_def)
qed

section \<open>The answer of \<open>fgetattrlist\<close>\<close>

lemma le_u32: "n < 2 ^ 32 \<Longrightarrow> word_from_be (rev (le_bytes32 n)) = (of_nat n :: u32)"
  by (simp add: le_bytes32_def word_from_be_def from_be_be_bytes del: be_bytes_numeral)

lemma length_le_bytes32 [simp]: "length (le_bytes32 n) = 4"
  by (simp add: le_bytes32_def del: be_bytes_numeral)

lemma buffer_slice_inside:
  assumes "b \<le> length written" "a \<le> b"
  shows "buffer_slice written a b = take (b - a) (drop a written)"
  using assms by (intro nth_equalityI) (auto simp: buffer_slice_def buffer_byte_def)

lemma length_attr_reply [simp]: "length (attr_reply acl pad) = 12 + length acl + length pad"
  by (simp add: attr_reply_def)

lemma read_u32_at:
  assumes "written = xs @ le_bytes32 n @ ys" "at = length xs" "n < 2 ^ 32"
  shows "read_u32 written at = of_nat n"
proof -
  have "buffer_slice written at (at + 4) = le_bytes32 n"
    using assms(1,2) by (subst buffer_slice_inside) auto
  then show ?thesis
    using assms(3) by (simp add: read_u32_def le_u32)
qed

lemma unat_ucast_u32 [simp]: "unat (ucast (w :: u32) :: usize) = unat w"
  using unat_less_2p [of w] by (simp add: unsigned_ucast_eq take_bit_nat_eq_self_iff)

text \<open>The parser reads back the list from every answer that fits the buffer.\<close>

lemma parse_attr_reply:
  assumes "12 + length acl + length pad \<le> ACL_BUFFER"
  shows "parse_acl_reply path (attr_reply acl pad) = Inr acl"
proof -
  let ?r = "attr_reply acl pad"
  have small: "12 + length acl + length pad \<le> 65536"
    using assms by (simp add: ACL_BUFFER_def)
  have u0: "read_u32 ?r 0 = of_nat (12 + length acl + length pad)"
    by (rule read_u32_at [where xs = "[]"]) (use small in \<open>auto simp: attr_reply_def\<close>)
  have u4: "read_u32 ?r 4 = of_nat 8"
    by (rule read_u32_at [where xs = "le_bytes32 (12 + length acl + length pad)"])
      (auto simp: attr_reply_def)
  have u8: "read_u32 ?r 8 = of_nat (length acl)"
    by (rule read_u32_at [where xs = "le_bytes32 (12 + length acl + length pad) @ le_bytes32 8"])
      (use small in \<open>auto simp: attr_reply_def\<close>)
  have len: "unat (of_nat (12 + length acl + length pad) :: u32) = 12 + length acl + length pad"
    "unat (of_nat (length acl) :: u32) = length acl"
    using small by (simp_all only: unat_of_nat) (simp_all del: of_nat_add)
  have off: "sint (of_nat 8 :: u32) = 8"
    by simp
  have total: "checked_add (12 :: usize) (ucast (of_nat (length acl) :: u32)) =
      Some (12 + ucast (of_nat (length acl) :: u32))"
    using small len(2) by (simp add: checked_add_def unat_ucast_u32)
  have sum: "unat (12 + ucast (of_nat (length acl) :: u32) :: usize) = 12 + length acl"
    using checked_add_SomeD [OF total] small len(2) by (simp add: unat_ucast_u32)
  have "buffer_slice ?r 12 (12 + length acl) = acl"
    by (subst buffer_slice_inside) (simp_all, simp add: attr_reply_def)
  then show ?thesis
    using small total sum
    by (simp add: parse_acl_reply_def u0 u4 u8 len(1) off ACL_BUFFER_def Let_def del: of_nat_add)
qed

section \<open>Seals\<close>

text \<open>An object is as the seal says; the held handle is bound to the sealed object.\<close>

definition matches :: "disk \<Rightarrow> 'h file_seal \<Rightarrow> bool" where
  "matches d seal \<longleftrightarrow>
     regular (nodes d (seal_identity seal)) \<and>
     node_access (nodes d (seal_identity seal)) = seal_access seal \<and>
     node_bytes (nodes d (seal_identity seal)) = seal_bytes seal"

definition holds :: "('h \<Rightarrow> identity) \<Rightarrow> 'h file_seal \<Rightarrow> bool" where
  "holds rf seal \<longleftrightarrow> rf (seal_handle seal) = seal_identity seal"

lemma matches_cong: "nodes d' (seal_identity seal) = nodes d (seal_identity seal) \<Longrightarrow> matches d' seal = matches d seal"
  by (simp add: matches_def)

context file_system
begin

abbreviation same :: "'w prog \<Rightarrow> 'w prog \<Rightarrow> bool" where
  "same \<equiv> unchanged disk"

section \<open>Single calls\<close>

lemma fstat_wp [wp_rules]:
  assumes "\<And>p'. same p p' \<Longrightarrow> (\<And>g. offset (world p') g = offset (world p) g) \<Longrightarrow>
      Q (node_metadata (refers h) (nodes (disk (world p)) (refers h))) p'"
    and "\<And>e p'. same p p' \<Longrightarrow> E e p'"
  shows "wp (call (sys_fstat k h)) Q E p"
proof (rule wp_quiet_call [where dsk = disk])
  fix x w
  assume c: "sys_fstat k h (world p) = (Inr x, w)" and u: "same p (p\<lparr>world := w\<rparr>)"
  have "offset w g = offset (world p) g" for g
    using fstat_offset [of h "world p" g] c by simp
  with assms(1) [OF u] fstat_ok [OF c] show "Q x (p\<lparr>world := w\<rparr>)"
    by simp
qed (use fstat_disk assms(2) in auto)

lemma fstatat_wp [wp_rules]:
  assumes "\<And>i p'. same p p' \<Longrightarrow> entries (disk (world p)) (refers dh, n) = Some i \<Longrightarrow>
      Q (node_metadata i (nodes (disk (world p)) i)) p'"
    and "\<And>e p'. same p p' \<Longrightarrow>
      (e = Raw_os_error ENOENT \<Longrightarrow> entries (disk (world p)) (refers dh, n) = None) \<Longrightarrow> E e p'"
  shows "wp (call (sys_fstatat k dh n)) Q E p"
proof -
  have u: "same p (p\<lparr>world := w\<rparr>)" if "sys_fstatat k dh n (world p) = (r, w)" for r w
    using fstatat_disk [of dh n "world p"] that by (simp add: unchanged_def)
  show ?thesis
    unfolding wp_call
  proof (rule wpI)
    fix x w assume c: "sys_fstatat k dh n (world p) = (Inr x, w)"
    from fstatat_ok [OF this] u [OF c] assms(1) show "Q x (p\<lparr>world := w\<rparr>)" by blast
  next
    fix e w assume c: "sys_fstatat k dh n (world p) = (Inl e, w)"
    show "E e (p\<lparr>world := w\<rparr>)"
      by (rule assms(2) [OF u [OF c]]) (use c fstatat_missing in blast)
  qed
qed

lemma fgetattrlist_wp [wp_rules]:
  assumes "\<And>pad p'. same p p' \<Longrightarrow>
      12 + length (node_acl (nodes (disk (world p)) (refers h))) + length pad \<le> cap \<Longrightarrow>
      Q (attr_reply (node_acl (nodes (disk (world p)) (refers h))) pad) p'"
    and "\<And>e p'. same p p' \<Longrightarrow> E e p'"
  shows "wp (call (sys_fgetattrlist k h cap)) Q E p"
  by (rule wp_quiet_call [where dsk = disk])
    (use fgetattrlist_disk assms in \<open>auto dest!: fgetattrlist_ok\<close>)

lemma rewind_wp [wp_rules]:
  assumes "\<And>p'. same p p' \<Longrightarrow> offset (world p') h = 0 \<Longrightarrow> Q () p'" and "\<And>e p'. same p p' \<Longrightarrow> E e p'"
  shows "wp (call (sys_rewind k h)) Q E p"
  by (rule wp_quiet_call [where dsk = disk]) (use rewind_disk assms in \<open>auto dest!: rewind_ok\<close>)

lemma read_wp [wp_rules]:
  assumes "\<And>p'. same p p' \<Longrightarrow>
      Q (drop (offset (world p) h) (node_bytes (nodes (disk (world p)) (refers h)))) p'"
    and "\<And>e p'. same p p' \<Longrightarrow> E e p'"
  shows "wp (call (sys_read_to_end k h)) Q E p"
  by (rule wp_quiet_call [where dsk = disk]) (use read_disk assms in \<open>auto dest!: read_ok\<close>)

lemma dup_wp [wp_rules]:
  assumes "\<And>g p'. same p p' \<Longrightarrow> refers g = refers h \<Longrightarrow> Q g p'" and "\<And>e p'. same p p' \<Longrightarrow> E e p'"
  shows "wp (call (sys_dup k h)) Q E p"
  by (rule wp_quiet_call [where dsk = disk]) (use dup_disk assms in \<open>auto dest!: dup_ok\<close>)

lemma openat_wp [wp_rules]:
  assumes "\<And>h p'. same p p' \<Longrightarrow> entries (disk (world p)) (refers dh, n) = Some (refers h) \<Longrightarrow>
      offset (world p') h = 0 \<Longrightarrow> Q h p'"
    and "\<And>e p'. same p p' \<Longrightarrow> E e p'" and "O_CREAT \<notin> set fl"
  shows "wp (call (sys_openat k dh n fl m)) Q E p"
  by (rule wp_quiet_call [where dsk = disk])
    (use openat_disk [OF assms(3)] assms(1,2) in \<open>auto dest!: openat_ok [OF assms(3)]\<close>)

lemma open_wp [wp_rules]:
  assumes "\<And>h p'. same p p' \<Longrightarrow> lookup (disk (world p)) path = Some (refers h) \<Longrightarrow> Q h p'"
    and "\<And>e p'. same p p' \<Longrightarrow> E e p'"
  shows "wp (call (sys_open k path fl)) Q E p"
  by (rule wp_quiet_call [where dsk = disk]) (use open_disk assms in \<open>auto dest!: open_ok\<close>)

lemma getpath_wp [wp_rules]:
  assumes "\<And>p'. same p p' \<Longrightarrow> Q (location (disk (world p)) (refers h)) p'"
    and "\<And>e p'. same p p' \<Longrightarrow> E e p'"
  shows "wp (call (sys_getpath k h)) Q E p"
  by (rule wp_quiet_call [where dsk = disk]) (use getpath_disk assms in \<open>auto dest!: getpath_ok\<close>)

lemma quiet_wps [wp_rules]:
  "(\<And>x p'. same p p' \<Longrightarrow> Q1 x p') \<Longrightarrow> (\<And>e p'. same p p' \<Longrightarrow> E1 e p') \<Longrightarrow>
     wp (call (sys_fsync k h)) Q1 E1 p"
  "(\<And>x p'. same p p' \<Longrightarrow> Q1 x p') \<Longrightarrow> (\<And>e p'. same p p' \<Longrightarrow> E1 e p') \<Longrightarrow>
     wp (call (sys_flock k h ex)) Q1 E1 p"
  by (rule wp_quiet_call [where dsk = disk]; simp add: fsync_disk flock_disk)+

lemma canonicalize_wp [wp_rules]:
  assumes "\<And>q p'. same p p' \<Longrightarrow> is_absolute q \<Longrightarrow>
      lookup (disk (world p)) q = lookup (disk (world p)) path \<Longrightarrow> Q q p'"
    and "\<And>e p'. same p p' \<Longrightarrow> E e p'"
  shows "wp (call (sys_canonicalize k path)) Q E p"
  by (rule wp_quiet_call [where dsk = disk])
    (use canonicalize_disk assms in \<open>auto dest!: canonicalize_ok\<close>)

section \<open>Looking at files\<close>

lemma capture_extended_acl_wp [wp_rules]:
  assumes "\<And>p'. same p p' \<Longrightarrow> Q (node_acl (nodes (disk (world p)) (refers h))) p'"
    and "\<And>e p'. same p p' \<Longrightarrow> E e p'"
  shows "wp (capture_extended_acl k h path) Q E p"
  unfolding capture_extended_acl_def
  by (intro wp_rules) (auto simp: parse_attr_reply assms)

lemma inspect_open_object_wp [wp_rules]:
  assumes "\<And>p'. same p p' \<Longrightarrow>
      Q (refers h, and (node_mode (nodes (disk (world p)) (refers h))) S_IFMT,
         node_access (nodes (disk (world p)) (refers h))) p'"
    and "\<And>e p'. same p p' \<Longrightarrow> E e p'"
  shows "wp (inspect_open_object k h path) Q E p"
  unfolding inspect_open_object_def
  apply (intro wp_rules)
  subgoal using assms(1) by (auto simp: unchanged_def node_access_def)
  by (auto intro: assms(2) unchanged_trans)

lemma inspect_open_regular_file_wp [wp_rules]:
  assumes "\<And>p'. same p p' \<Longrightarrow> regular (nodes (disk (world p)) (refers h)) \<Longrightarrow>
      Q (refers h, node_access (nodes (disk (world p)) (refers h))) p'"
    and "\<And>e p'. same p p' \<Longrightarrow> E e p'"
  shows "wp (inspect_open_regular_file k h path) Q E p"
  unfolding inspect_open_regular_file_def
  by (intro wp_rules) (auto simp: regular_def intro: assms)

lemma inspect_open_regular_identity_wp [wp_rules]:
  assumes "\<And>p'. same p p' \<Longrightarrow> (\<And>g. offset (world p') g = offset (world p) g) \<Longrightarrow>
      regular (nodes (disk (world p)) (refers h)) \<Longrightarrow> Q (refers h) p'"
    and "\<And>e p'. same p p' \<Longrightarrow> E e p'"
  shows "wp (inspect_open_regular_identity k h path) Q E p"
  unfolding inspect_open_regular_identity_def
  by (intro wp_rules) (auto simp: regular_def intro: assms)

lemma read_open_file_wp [wp_rules]:
  assumes "\<And>p'. same p p' \<Longrightarrow> Q (node_bytes (nodes (disk (world p)) (refers h))) p'"
    and "\<And>e p'. same p p' \<Longrightarrow> E e p'"
  shows "wp (read_open_file k h path) Q E p"
  unfolding read_open_file_def
  apply (intro wp_rules)
  subgoal using assms(1) by (auto simp: unchanged_def)
  by (auto intro: assms(2) unchanged_trans)

section \<open>Slots\<close>

lemma slot_identity_wp [wp_rules]:
  assumes "\<And>p'. same p p' \<Longrightarrow> entries (disk (world p)) (refers dh, n) = None \<Longrightarrow> Q None p'"
    and "\<And>i p'. same p p' \<Longrightarrow> entries (disk (world p)) (refers dh, n) = Some i \<Longrightarrow>
      regular (nodes (disk (world p)) i) \<Longrightarrow> Q (Some i) p'"
    and "\<And>e p'. same p p' \<Longrightarrow> E e p'"
  shows "wp (slot_identity k dh n path) Q E p"
  unfolding slot_identity_def
  by (intro wp_rules) (auto simp: regular_def intro: assms)

lemma open_existing_slot_wp [wp_rules]:
  assumes "\<And>h p'. same p p' \<Longrightarrow> entries (disk (world p)) (refers dh, n) = Some (refers h) \<Longrightarrow> Q h p'"
    and "\<And>e p'. same p p' \<Longrightarrow> E e p'"
  shows "wp (open_existing_slot k dh n path role) Q E p"
  unfolding open_existing_slot_def
  by (intro wp_rules) (auto intro: assms)

lemma ensure_slot_missing_wp [wp_rules]:
  assumes "\<And>p'. same p p' \<Longrightarrow> entries (disk (world p)) (refers dh, n) = None \<Longrightarrow> Q () p'"
    and "\<And>e p'. same p p' \<Longrightarrow> E e p'"
  shows "wp (ensure_slot_missing k dh n path role) Q E p"
  unfolding ensure_slot_missing_def
  by (intro wp_rules) (auto intro: assms)

lemma read_regular_slot_wp [wp_rules]:
  assumes "\<And>i p'. same p p' \<Longrightarrow> entries (disk (world p)) (refers dh, n) = Some i \<Longrightarrow>
      regular (nodes (disk (world p)) i) \<Longrightarrow> Q (node_bytes (nodes (disk (world p)) i)) p'"
    and "\<And>e p'. same p p' \<Longrightarrow> E e p'"
  shows "wp (read_regular_slot k dh n path) Q E p"
  unfolding read_regular_slot_def
  by (intro wp_rules) (use assms in \<open>auto simp: unchanged_def\<close>)

section \<open>Seals\<close>

lemma capture_wp [wp_rules]:
  assumes "\<And>seal p'. same p p' \<Longrightarrow> seal_handle seal = h \<Longrightarrow> seal_identity seal = refers h \<Longrightarrow>
      holds refers seal \<Longrightarrow> matches (disk (world p)) seal \<Longrightarrow> Q seal p'"
    and "\<And>e p'. same p p' \<Longrightarrow> E e p'"
  shows "wp (capture k h path) Q E p"
  unfolding capture_def
  by (intro wp_rules) (use assms in \<open>auto simp: unchanged_def holds_def matches_def\<close>)

lemma validate_handle_wp [wp_rules]:
  assumes "\<And>p'. same p p' \<Longrightarrow> holds refers seal \<Longrightarrow> matches (disk (world p)) seal \<Longrightarrow> Q () p'"
    and "\<And>e p'. same p p' \<Longrightarrow> E e p'"
  shows "wp (validate_handle k seal path role) Q E p"
  unfolding validate_handle_def
  by (intro wp_rules) (use assms in \<open>auto simp: unchanged_def holds_def matches_def\<close>)

lemma validate_slot_wp [wp_rules]:
  assumes "\<And>p'. same p p' \<Longrightarrow> holds refers seal \<Longrightarrow> matches (disk (world p)) seal \<Longrightarrow>
      entries (disk (world p)) (refers dh, n) = Some (seal_identity seal) \<Longrightarrow> Q () p'"
    and "\<And>e p'. same p p' \<Longrightarrow> E e p'"
  shows "wp (validate_slot k seal dh n path role) Q E p"
  unfolding validate_slot_def
  by (intro wp_rules) (use assms in \<open>auto simp: unchanged_def\<close>)

lemma read_sealed_source_wp [wp_rules]:
  assumes "\<And>i bs p'. same p p' \<Longrightarrow> lookup (disk (world p)) source = Some i \<Longrightarrow>
      regular (nodes (disk (world p)) i) \<Longrightarrow> node_bytes (nodes (disk (world p)) i) = bs \<Longrightarrow> Q bs p'"
    and "\<And>e p'. same p p' \<Longrightarrow> E e p'"
  shows "wp (read_sealed_source k source) Q E p"
  unfolding read_sealed_source_def open_source_no_follow_def
  by (intro wp_rules) (use assms in \<open>auto simp: unchanged_def matches_def\<close>)

lemma open_optional_sealed_slot_wp [wp_rules]:
  assumes "\<And>p'. same p p' \<Longrightarrow> entries (disk (world p)) (refers dh, n) = None \<Longrightarrow> Q None p'"
    and "\<And>seal p'. same p p' \<Longrightarrow>
      entries (disk (world p)) (refers dh, n) = Some (seal_identity seal) \<Longrightarrow>
      holds refers seal \<Longrightarrow> matches (disk (world p)) seal \<Longrightarrow> Q (Some seal) p'"
    and "\<And>e p'. same p p' \<Longrightarrow> E e p'"
  shows "wp (open_optional_sealed_slot k dh n path) Q E p"
  unfolding open_optional_sealed_slot_def
  by (intro wp_rules) (use assms in \<open>auto simp: unchanged_def\<close>)

end

end
