(* ===== verification/Leases_Laws.thy ===== *)
theory Leases_Laws
  imports Leases Seals_Laws
begin

text \<open>
  What holding a directory means: looking at the namespace changes nothing, and an acquired directory is
  the one the components of its path lead to from the root of the repository.
\<close>

section \<open>Walking down from a directory\<close>

fun walk :: "disk \<Rightarrow> identity \<Rightarrow> string list \<Rightarrow> identity option" where
  "walk d i [] = Some i"
| "walk d i (n # ns) =
     (case entries d (i, n) of
        None \<Rightarrow> None
      | Some j \<Rightarrow> if is_directory (nodes d j) then walk d j ns else None)"

text \<open>A walk only depends on the entries that name directories.\<close>

lemma walk_kept:
  assumes "walk d i ns = Some j"
    and "\<And>s x. entries d s = Some x \<Longrightarrow> is_directory (nodes d x) \<Longrightarrow> entries d' s = Some x \<and> nodes d' x = nodes d x"
  shows "walk d' i ns = Some j"
  using assms(1) by (induction ns arbitrary: i) (auto split: option.splits if_splits dest: assms(2))

lemma all_normal_iff: "all_normal cs \<longleftrightarrow> (\<exists>ns. cs = map Normal ns)"
proof
  show "all_normal cs \<Longrightarrow> \<exists>ns. cs = map Normal ns"
  proof (induction cs rule: all_normal.induct)
    case (2 n cs)
    then obtain ns where "cs = map Normal ns" by auto
    then show ?case by (metis list.simps(9))
  qed auto
next
  have "all_normal (map Normal ns)" for ns
    by (induction ns) auto
  then show "\<exists>ns. cs = map Normal ns \<Longrightarrow> all_normal cs" by auto
qed

text \<open>A seal of a directory and what it was taken of.\<close>

definition dir_holds :: "('h \<Rightarrow> identity) \<Rightarrow> 'h directory_seal \<Rightarrow> bool" where
  "dir_holds rf seal \<longleftrightarrow> rf (dir_handle seal) = dir_identity seal"

lemma final_seal_simps [simp]:
  "final_seal \<lparr>repository = r, descendants = []\<rparr> = root r"
  "final_seal \<lparr>repository = r, descendants = seals @ [x]\<rparr> = x"
  by (simp_all add: final_seal_def)

text \<open>The directories are opened one below the other.\<close>

fun opened_chain :: "disk \<Rightarrow> ('h \<Rightarrow> identity) \<Rightarrow> identity \<Rightarrow> string \<Rightarrow> path_component list \<Rightarrow> 'h directory_seal list \<Rightarrow> bool" where
  "opened_chain d rf i current cs [] \<longleftrightarrow> cs = []"
| "opened_chain d rf i current cs (seal # seals) \<longleftrightarrow>
     (\<exists>n cs'. cs = Normal n # cs' \<and> entries d (i, n) = Some (rf (dir_handle seal)) \<and>
        is_directory (nodes d (rf (dir_handle seal))) \<and>
        dir_path seal = path_push current n \<and>
        same_path (location d (rf (dir_handle seal))) (dir_path seal) \<and>
        opened_chain d rf (rf (dir_handle seal)) (dir_path seal) cs' seals)"

lemma opened_chain_walk:
  "opened_chain d rf i current cs seals \<Longrightarrow>
     \<exists>ns. cs = map Normal ns \<and>
       walk d i ns = Some (case rev seals of [] \<Rightarrow> i | seal # _ \<Rightarrow> rf (dir_handle seal))"
proof (induction seals arbitrary: i current cs)
  case (Cons seal seals)
  then obtain n cs' where cs: "cs = Normal n # cs'"
    and e: "entries d (i, n) = Some (rf (dir_handle seal))" "is_directory (nodes d (rf (dir_handle seal)))"
    and rest: "opened_chain d rf (rf (dir_handle seal)) (dir_path seal) cs' seals"
    by auto
  from Cons.IH [OF rest] obtain ns where ns: "cs' = map Normal ns"
    "walk d (rf (dir_handle seal)) ns =
       Some (case rev seals of [] \<Rightarrow> rf (dir_handle seal) | seal # _ \<Rightarrow> rf (dir_handle seal))"
    by blast
  have "cs = map Normal (n # ns)" using cs ns by simp
  moreover have "walk d i (n # ns) =
      Some (case rev (seal # seals) of [] \<Rightarrow> i | seal # _ \<Rightarrow> rf (dir_handle seal))"
    using e ns by (cases "rev seals") auto
  ultimately show ?case by blast
qed simp

lemma opened_chain_location:
  assumes "opened_chain d rf i current cs seals" "is_absolute current"
    "same_path (location d i) current" "list_all (\<lambda>c. \<exists>n. c = Normal n \<and> entry_name n) cs"
  shows "path_components (location d (case rev seals of [] \<Rightarrow> i | seal # _ \<Rightarrow> rf (dir_handle seal))) =
      path_components current @ cs"
  using assms
proof (induction seals arbitrary: i current cs)
  case (Cons seal seals)
  then obtain n cs' where cs: "cs = Normal n # cs'" "dir_path seal = path_push current n"
    "same_path (location d (rf (dir_handle seal))) (dir_path seal)"
    and rest: "opened_chain d rf (rf (dir_handle seal)) (dir_path seal) cs' seals"
    by auto
  have "path_components (dir_path seal) = path_components current @ [Normal n]"
    using cs Cons.prems by simp
  moreover have "path_components (location d (case rev seals of [] \<Rightarrow> rf (dir_handle seal)
      | seal # _ \<Rightarrow> rf (dir_handle seal))) = path_components (dir_path seal) @ cs'"
    using Cons.IH [OF rest] cs Cons.prems by simp
  ultimately show ?case
    using cs by (cases "rev seals") simp_all
qed (simp add: same_path_def)

section \<open>Which destinations are accepted\<close>

lemma push_components_normal:
  "push_components destination current (map Normal ns) = Inr (foldl path_push current ns)"
  by (induction ns arbitrary: current) auto

lemma map_Normal_snoc: "map Normal ns = cs @ [c] \<Longrightarrow> \<exists>ms m. ns = ms @ [m] \<and> cs = map Normal ms \<and> c = Normal m"
  by (cases ns rule: rev_cases) auto

lemma validate_destination_iff:
  "validate_destination root_path destination = Inr parent \<longleftrightarrow>
     is_absolute root_path \<and> is_absolute destination \<and>
     (\<exists>ns leaf. path_components destination = path_components root_path @ map Normal (ns @ [leaf]) \<and>
        parent = foldl path_push root_path ns)"
proof
  assume v: "validate_destination root_path destination = Inr parent"
  then obtain rel where rel: "strip_prefix destination root_path = Some rel" "all_normal rel"
    "is_absolute root_path" "is_absolute destination"
    by (auto simp: validate_destination_def split: if_splits option.splits)
  then obtain ms where ms: "rel = map Normal ms"
    by (auto simp: all_normal_iff)
  have "rel \<noteq> []"
    using v rel by (auto simp: validate_destination_def parent_components_def)
  then obtain ns leaf where nf: "ms = ns @ [leaf]"
    using ms by (cases ms rule: rev_cases) auto
  then have "parent_components rel = Some (map Normal ns)"
    by (simp add: parent_components_def ms)
  then have "parent = foldl path_push root_path ns"
    using v rel by (simp add: validate_destination_def push_components_normal)
  with rel ms nf show "is_absolute root_path \<and> is_absolute destination \<and>
     (\<exists>ns leaf. path_components destination = path_components root_path @ map Normal (ns @ [leaf]) \<and>
        parent = foldl path_push root_path ns)"
    by (auto simp: strip_prefix_iff)
next
  assume "is_absolute root_path \<and> is_absolute destination \<and>
     (\<exists>ns leaf. path_components destination = path_components root_path @ map Normal (ns @ [leaf]) \<and>
        parent = foldl path_push root_path ns)"
  then obtain ns leaf where a: "is_absolute root_path" "is_absolute destination"
    "path_components destination = path_components root_path @ map Normal (ns @ [leaf])"
    "parent = foldl path_push root_path ns" by blast
  then have "strip_prefix destination root_path = Some (map Normal (ns @ [leaf]))"
    by (simp add: strip_prefix_iff)
  moreover have "all_normal (map Normal (ns @ [leaf]))"
    using all_normal_iff by blast
  ultimately show "validate_destination root_path destination = Inr parent"
    using a push_components_normal [of destination root_path ns]
    by (simp add: validate_destination_def parent_components_def)
qed

lemma is_absolute_foldl_push [simp]: "is_absolute p \<Longrightarrow> is_absolute (foldl path_push p ns)"
  by (induction ns arbitrary: p) auto

lemma path_components_foldl_push:
  "is_absolute p \<Longrightarrow> list_all entry_name ns \<Longrightarrow>
     path_components (foldl path_push p ns) = path_components p @ map Normal ns"
  by (induction ns arbitrary: p) auto

text \<open>The parent directory, below the canonical root.\<close>

lemma destination_parent_Inr:
  assumes "destination_parent lease destination = Inr parent" "is_absolute (dir_path (root lease))"
  obtains ns leaf where
    "path_components destination = path_components (requested_path lease) @ map Normal (ns @ [leaf])"
    "path_components parent = path_components (dir_path (root lease)) @ map Normal ns"
    "list_all entry_name ns" "entry_name leaf"
proof -
  obtain requested where v: "validate_destination (requested_path lease) destination = Inr requested"
    and p: "(case strip_prefix requested (requested_path lease) of
       None \<Rightarrow> Inl (Message [Text ''destination parent is outside requested repository root '',
                            Shown (requested_path lease), Text '': '', Shown requested])
     | Some relative \<Rightarrow> Inr (path_push (dir_path (root lease)) (relative_path relative))) = Inr parent"
    using assms(1) unfolding destination_parent_def by (rule bindR_InrE)
  from v obtain ns leaf where a: "is_absolute (requested_path lease)"
    "path_components destination = path_components (requested_path lease) @ map Normal (ns @ [leaf])"
    "requested = foldl path_push (requested_path lease) ns"
    by (auto simp: validate_destination_iff)
  have e: "entry_name n" if "n \<in> set (ns @ [leaf])" for n
    by (rule path_component_entry [of n destination]) (use that in \<open>auto simp: a(2)\<close>)
  then have ens: "list_all entry_name ns" "entry_name leaf"
    by (auto simp: list_all_iff)
  have "strip_prefix requested (requested_path lease) = Some (map Normal ns)"
    using path_components_foldl_push [OF a(1) ens(1)] by (simp add: a(3) strip_prefix_iff)
  then have "parent = path_push (dir_path (root lease)) (relative_path (map Normal ns))"
    using p by simp
  moreover have "list_all (\<lambda>c. \<exists>n. c = Normal n \<and> entry_name n) (map Normal ns)"
    using ens by (simp add: list_all_iff)
  ultimately have "path_components parent = path_components (dir_path (root lease)) @ map Normal ns"
    using path_components_join [OF assms(2)] by simp
  with that a(2) ens show thesis by blast
qed

context file_system
begin

lemma inspect_open_directory_wp [wp_rules]:
  assumes "\<And>p'. same p p' \<Longrightarrow> is_directory (nodes (disk (world p)) (refers h)) \<Longrightarrow>
      Q (refers h, node_access (nodes (disk (world p)) (refers h))) p'"
    and "\<And>e p'. same p p' \<Longrightarrow> E e p'"
  shows "wp (inspect_open_directory k h path) Q E p"
  unfolding inspect_open_directory_def
  by (intro wp_rules) (auto simp: is_directory_def intro: assms)

lemma validate_open_directory_wp [wp_rules]:
  assumes "\<And>p'. same p p' \<Longrightarrow> same_path (location (disk (world p)) (refers h)) expected \<Longrightarrow> Q () p'"
    and "\<And>e p'. same p p' \<Longrightarrow> E e p'"
  shows "wp (validate_open_directory k h expected) Q E p"
  unfolding validate_open_directory_def
  by (intro wp_rules) (auto intro: assms)

lemma open_directory_at_wp [wp_rules]:
  assumes "\<And>h p'. same p p' \<Longrightarrow> entries (disk (world p)) (refers parent, n) = Some (refers h) \<Longrightarrow> Q h p'"
    and "\<And>e p'. same p p' \<Longrightarrow> E e p'"
  shows "wp (open_directory_at k parent n path) Q E p"
  unfolding open_directory_at_def
  by (intro wp_rules) (auto intro: assms)

lemma open_directory_path_wp [wp_rules]:
  assumes "\<And>h p'. same p p' \<Longrightarrow> lookup (disk (world p)) path = Some (refers h) \<Longrightarrow> Q h p'"
    and "\<And>e p'. same p p' \<Longrightarrow> E e p'"
  shows "wp (open_directory_path k path) Q E p"
  unfolding open_directory_path_def
  by (intro wp_rules) (auto intro: assms)

lemma validate_directory_seal_wp [wp_rules]:
  assumes "\<And>p'. same p p' \<Longrightarrow> dir_holds refers seal \<Longrightarrow>
      same_path (location (disk (world p)) (refers (dir_handle seal))) (dir_path seal) \<Longrightarrow> Q () p'"
    and "\<And>e p'. same p p' \<Longrightarrow> E e p'"
  shows "wp (validate_directory_seal k seal role) Q E p"
  unfolding validate_directory_seal_def
  by (intro wp_rules) (use assms in \<open>auto simp: unchanged_def dir_holds_def\<close>)

lemma validate_root_wp [wp_rules]:
  assumes "\<And>p'. same p p' \<Longrightarrow> dir_holds refers (root lease) \<Longrightarrow>
      same_path (location (disk (world p)) (refers (dir_handle (root lease)))) (dir_path (root lease)) \<Longrightarrow>
      Q () p'"
    and "\<And>e p'. same p p' \<Longrightarrow> E e p'"
  shows "wp (validate_root k lease) Q E p"
  unfolding validate_root_def
  by (intro wp_rules) (use assms in \<open>auto simp: unchanged_def\<close>)

lemma validate_descendants_wp [wp_rules]:
  assumes "\<And>p'. same p p' \<Longrightarrow> Q () p'" and "\<And>e p'. same p p' \<Longrightarrow> E e p'"
  shows "wp (validate_descendants k parent seals) Q E p"
  using assms
proof (induction seals arbitrary: parent p)
  case Nil
  then show ?case
    unfolding validate_descendants.simps by (intro wp_rules) simp
next
  case (Cons seal seals)
  show ?case
    unfolding validate_descendants.simps
    by (intro wp_rules Cons.IH) (use Cons.prems in \<open>auto simp: unchanged_def\<close>)
qed

lemma validate_exclusive_namespace_wp [wp_rules]:
  assumes "\<And>p'. same p p' \<Longrightarrow> Q () p'" and "\<And>e p'. same p p' \<Longrightarrow> E e p'"
  shows "wp (validate_exclusive_namespace k lease) Q E p"
  unfolding validate_exclusive_namespace_def
  by (intro wp_rules) (use assms in \<open>auto simp: unchanged_def\<close>)

lemma drop_repository_wp [wp_rules]:
  assumes "\<And>p'. same p p' \<Longrightarrow> Q () p'"
  shows "wp (drop_repository k lease) Q E p"
  unfolding drop_repository_def
  by (intro wp_rules) (use assms in auto)

lemma acquire_repository_wp [wp_rules]:
  assumes "\<And>lease p'. same p p' \<Longrightarrow> requested_path lease = path \<Longrightarrow> is_absolute (dir_path (root lease)) \<Longrightarrow>
      lookup (disk (world p)) path = Some (refers (dir_handle (root lease))) \<Longrightarrow>
      same_path (location (disk (world p)) (refers (dir_handle (root lease)))) (dir_path (root lease)) \<Longrightarrow>
      Q lease p'"
    and "\<And>e p'. same p p' \<Longrightarrow> E e p'"
  shows "wp (acquire_repository k path) Q E p"
  unfolding acquire_repository_def Let_def
  by (intro wp_rules) (use assms in \<open>auto simp: unchanged_def\<close>)

lemma open_descendants_wp [wp_rules]:
  assumes "\<And>seals p'. same p p' \<Longrightarrow>
      opened_chain (disk (world p)) refers (refers parent) current cs seals \<Longrightarrow> Q seals p'"
    and "\<And>e p'. same p p' \<Longrightarrow> E e p'"
  shows "wp (open_descendants k path parent current cs) Q E p"
  using assms
proof (induction cs arbitrary: parent current p Q E)
  case Nil
  then show ?case
    unfolding open_descendants.simps by (intro wp_rules) simp
next
  case (Cons c cs)
  show ?case
  proof (cases c)
    case (Normal n)
    have c: "path_component_cstring n = Inr m \<Longrightarrow> m = n" for m
      by (simp add: path_component_cstring_def split: if_splits)
    show ?thesis
      unfolding open_descendants.simps Normal path_component.case Let_def
      by (intro wp_rules Cons.IH) (use Cons.prems in \<open>auto simp: unchanged_def Normal dest!: c\<close>)
  qed (simp_all only: open_descendants.simps path_component.case wp_fail, simp_all add: Cons.prems)
qed

lemma acquire_directory_wp [wp_rules]:
  assumes "\<And>lease rel p'. same p p' \<Longrightarrow> repository lease = repo \<Longrightarrow>
      path_components path = path_components (dir_path (root repo)) @ rel \<Longrightarrow>
      same_path (location (disk (world p)) (refers (dir_handle (root repo)))) (dir_path (root repo)) \<Longrightarrow>
      opened_chain (disk (world p)) refers (refers (dir_handle (root repo))) (dir_path (root repo)) rel
        (descendants lease) \<Longrightarrow> Q lease p'"
    and "\<And>e p'. same p p' \<Longrightarrow> E e p'"
  shows "wp (acquire_directory k repo path) Q E p"
  unfolding acquire_directory_def Let_def
  by (intro wp_rules) (use assms in \<open>auto simp: unchanged_def strip_prefix_iff\<close>)

end

end
