(* ===== verification/Publisher_Laws.thy ===== *)
theory Publisher_Laws
  imports Publisher Leases_Laws
begin

text \<open>
  How each operation on a target ends, on any file system: what it did to the disk and to the target,
  and what an error leaves behind.
\<close>

section \<open>Changes of a disk\<close>

text \<open>A new object appears under a free name.\<close>

definition added :: "disk \<Rightarrow> slot \<Rightarrow> identity \<Rightarrow> disk \<Rightarrow> bool" where
  "added d s i d' \<longleftrightarrow>
     entries d s = None \<and> \<not> linked d i \<and> entries d' = (entries d)(s \<mapsto> i) \<and>
     (\<forall>j. j \<noteq> i \<longrightarrow> nodes d' j = nodes d j) \<and> location d' = location d"

text \<open>Only the entries of a disk change.\<close>

definition relinked :: "disk \<Rightarrow> (slot \<Rightarrow> identity option) \<Rightarrow> disk \<Rightarrow> bool" where
  "relinked d es d' \<longleftrightarrow> entries d' = es \<and> nodes d' = nodes d \<and> location d' = location d"

text \<open>A file with exactly these bytes that everybody may read and its owner write.\<close>

definition complete :: "disk \<Rightarrow> identity \<Rightarrow> bytes \<Rightarrow> bool" where
  "complete d i bs \<longleftrightarrow>
     regular (nodes d i) \<and> node_bytes (nodes d i) = bs \<and> and (node_mode (nodes d i)) 0xFFF = 0x1A4"

text \<open>The seal of such a file.\<close>

definition source_seal :: "bytes \<Rightarrow> 'h file_seal \<Rightarrow> bool" where
  "source_seal bs seal \<longleftrightarrow> seal_bytes seal = bs \<and> access_mode (seal_access seal) = 0x1A4"

lemma access_mode_node [simp]: "access_mode (node_access n) = and (node_mode n) 0xFFF"
  by (simp add: node_access_def)

lemma matches_complete:
  "matches d seal \<Longrightarrow> source_seal bs seal \<Longrightarrow> complete d (seal_identity seal) bs"
  by (auto simp: matches_def source_seal_def complete_def simp flip: access_mode_node)

lemma matches_relinked [simp]: "relinked d es d' \<Longrightarrow> matches d' seal = matches d seal"
  by (simp add: relinked_def matches_def)

lemma relinkedD: "relinked d es d' \<Longrightarrow> entries d' = es" "relinked d es d' \<Longrightarrow> nodes d' = nodes d"
  by (simp_all add: relinked_def)

lemma relinked_unlink:
  assumes "relinked d ((entries d)(s := None, q \<mapsto> i)) d1" "relinked d1 ((entries d1)(q := None)) d2"
    "entries d q = None" "entries d1 q = Some j"
  shows "j = i \<and> relinked d ((entries d)(s := None)) d2"
  using assms by (simp add: relinked_def fun_upd_idem_iff)

lemma matches_source_seal:
  "matches d seal \<Longrightarrow> complete d (seal_identity seal) bs \<Longrightarrow> source_seal bs seal"
  by (auto simp: matches_def source_seal_def complete_def simp flip: access_mode_node)

lemma added_trans:
  "added d s i d' \<Longrightarrow> entries d'' = entries d' \<Longrightarrow> location d'' = location d' \<Longrightarrow>
     (\<And>j. j \<noteq> i \<Longrightarrow> nodes d'' j = nodes d' j) \<Longrightarrow> added d s i d''"
  by (simp add: added_def)

lemma regular_change_mode [simp]: "regular (change_mode m n) = regular n"
proof -
  have "and (or (and x S_IFMT) (and m 0xFFF)) S_IFMT = and x S_IFMT" for x :: u16
    by (simp add: S_IFMT_def bit.conj_disj_distrib2 and.assoc)
  then show ?thesis by (simp add: regular_def change_mode_def)
qed

lemma regular_bytes [simp]: "regular (n\<lparr>node_bytes := bs\<rparr>) = regular n"
  by (simp add: regular_def)

lemma node_bytes_change_mode [simp]: "node_bytes (change_mode m n) = node_bytes n"
  by (simp add: change_mode_def)

lemma mode_change_mode: "and (node_mode (change_mode 0x1A4 n)) 0xFFF = (0x1A4 :: u16)"
proof -
  have "and (or (and x S_IFMT) (and 0x1A4 0xFFF)) 0xFFF = (0x1A4 :: u16)" for x :: u16
    by (simp add: S_IFMT_def bit.conj_disj_distrib2 and.assoc)
  then show ?thesis by (simp add: change_mode_def)
qed

lemma overwrite_empty [simp]: "overwrite 0 bs [] = bs"
  by (simp add: overwrite_def)

text \<open>Outside the slots \<open>T\<close> every name still names what it did.\<close>

definition kept_except :: "slot set \<Rightarrow> disk \<Rightarrow> disk \<Rightarrow> bool" where
  "kept_except T d d' \<longleftrightarrow> nodes d' = nodes d \<and> location d' = location d \<and>
     (\<forall>s i. s \<notin> T \<longrightarrow> entries d s = Some i \<longrightarrow> entries d' s = Some i)"

lemma kept_except_refl [simp]: "kept_except T d d"
  by (simp add: kept_except_def)

lemma kept_except_trans: "kept_except T d d1 \<Longrightarrow> kept_except T d1 d2 \<Longrightarrow> kept_except T d d2"
  by (simp add: kept_except_def)

lemma relinked_kept:
  assumes "relinked d es d'" "\<And>s i. s \<notin> T \<Longrightarrow> entries d s = Some i \<Longrightarrow> es s = Some i"
  shows "kept_except T d d'"
  using assms by (simp add: relinked_def kept_except_def)

lemma swap_then_delete:
  assumes "relinked d ((entries d)(a \<mapsto> i, b \<mapsto> j)) d1" "relinked d1 ((entries d1)(a := None)) d2"
  shows "relinked d ((entries d)(b \<mapsto> j, a := None)) d2"
proof -
  have "((entries d)(a \<mapsto> i, b \<mapsto> j, a := None)) = (entries d)(b \<mapsto> j, a := None)"
    by (rule ext) simp
  then show ?thesis
    using assms by (simp add: relinked_def)
qed

text \<open>Where a target keeps its destination and its stage.\<close>

abbreviation name_slot :: "('h \<Rightarrow> identity) \<Rightarrow> 'h target \<Rightarrow> slot" where
  "name_slot rf t \<equiv> (rf (target_fd t), target_name t)"

abbreviation stage_slot :: "('h \<Rightarrow> identity) \<Rightarrow> 'h target \<Rightarrow> string \<Rightarrow> slot" where
  "stage_slot rf t sn \<equiv> (rf (target_fd t), sn)"

text \<open>A target that can be exchanged with its destination, and the disk after the exchange.\<close>

definition ready :: "('h \<Rightarrow> identity) \<Rightarrow> disk \<Rightarrow> 'h target \<Rightarrow> string \<Rightarrow> 'h file_seal \<Rightarrow> bool" where
  "ready rf d t sn seal \<longleftrightarrow>
     stage_name t = Some sn \<and> staged t = Some seal \<and>
     entries d (stage_slot rf t sn) = Some (seal_identity seal) \<and> matches d seal \<and>
     entries d (name_slot rf t) = map_option seal_identity (previous t) \<and>
     (\<forall>prev. previous t = Some prev \<longrightarrow> matches d prev)"

definition exchanged :: "('h \<Rightarrow> identity) \<Rightarrow> disk \<Rightarrow> 'h target \<Rightarrow> string \<Rightarrow> 'h file_seal \<Rightarrow> disk \<Rightarrow> bool" where
  "exchanged rf d t sn seal d' \<longleftrightarrow>
     relinked d ((entries d)(stage_slot rf t sn := map_option seal_identity (previous t),
       name_slot rf t \<mapsto> seal_identity seal)) d'"

lemma exchange_restored:
  "f b = v \<Longrightarrow> f(a := w, b := x, b := v, a := None) = f(a := None)"
  "f b = None \<Longrightarrow> f(a := None, b := x, b := None) = f(a := None)"
  by (rule ext; simp)+

lemma exchange_undone:
  assumes "ready rf d t sn seal" "exchanged rf d t sn seal d1"
    "relinked d1 ((entries d1)(name_slot rf t := map_option seal_identity (previous t), stage_slot rf t sn := None)) d2"
  shows "relinked d ((entries d)(stage_slot rf t sn := None)) d2"
proof -
  have e: "entries d (name_slot rf t) = map_option seal_identity (previous t)"
    using assms(1) by (simp add: ready_def)
  show ?thesis
    using assms(2,3) unfolding exchanged_def relinked_def by (simp only: exchange_restored(1) [of "entries d", OF e])
qed

lemma exchange_undone_none:
  assumes "ready rf d t sn seal" "exchanged rf d t sn seal d1" "previous t = None"
    "relinked d1 ((entries d1)(name_slot rf t := None)) d2"
  shows "relinked d ((entries d)(stage_slot rf t sn := None)) d2"
proof -
  have e: "entries d (name_slot rf t) = None"
    using assms(1,3) by (simp add: ready_def)
  show ?thesis
    using assms(2,4) unfolding exchanged_def relinked_def assms(3) option.map
    by (simp only: exchange_restored(2) [of "entries d", OF e])
qed

lemma kept_except_mono: "kept_except S d d' \<Longrightarrow> S \<subseteq> T \<Longrightarrow> kept_except T d d'"
  unfolding kept_except_def by blast

lemma exchanged_kept: "exchanged rf d t sn seal d' \<Longrightarrow> kept_except {name_slot rf t, stage_slot rf t sn} d d'"
  unfolding exchanged_def by (erule relinked_kept) simp

context file_system
begin

abbreviation dsk :: "'w prog \<Rightarrow> disk" where
  "dsk p \<equiv> disk (world p)"

section \<open>Calls that change the disk\<close>

lemma wp_call_same:
  assumes "\<And>x w. c (world p) = (Inr x, w) \<Longrightarrow> Q x (p\<lparr>world := w\<rparr>)"
    and "\<And>e w. c (world p) = (Inl e, w) \<Longrightarrow> disk w = dsk p"
    and "\<And>e p'. same p p' \<Longrightarrow> E e p'"
  shows "wp (call c) Q E p"
  unfolding wp_call by (rule wpI) (use assms in \<open>auto simp: unchanged_def\<close>)

lemma swap_wp [wp_rules]:
  assumes "\<And>i j p'. entries (dsk p) (refers dh, a) = Some i \<Longrightarrow> entries (dsk p) (refers dh, b) = Some j \<Longrightarrow>
      relinked (dsk p) ((entries (dsk p))((refers dh, a) \<mapsto> j, (refers dh, b) \<mapsto> i)) (dsk p') \<Longrightarrow> Q () p'"
    and "\<And>e p'. same p p' \<Longrightarrow> E e p'"
  shows "wp (rename_slot k dh a b RENAME_SWAP) Q E p"
  unfolding rename_slot_def
  by (rule wp_call_same)
    (use assms in \<open>auto dest!: swap_ok rename_failed simp: relinked_def fun_upd_def\<close>)

lemma excl_wp [wp_rules]:
  assumes "\<And>i p'. entries (dsk p) (refers dh, a) = Some i \<Longrightarrow> entries (dsk p) (refers dh, b) = None \<Longrightarrow>
      relinked (dsk p) ((entries (dsk p))((refers dh, a) := None, (refers dh, b) \<mapsto> i)) (dsk p') \<Longrightarrow> Q () p'"
    and "\<And>e p'. same p p' \<Longrightarrow> E e p'"
  shows "wp (rename_slot k dh a b RENAME_EXCL) Q E p"
  unfolding rename_slot_def
  by (rule wp_call_same)
    (use assms in \<open>auto dest!: excl_ok rename_failed simp: relinked_def fun_upd_def\<close>)

lemma unlink_wp [wp_rules]:
  assumes "\<And>p'. relinked (dsk p) ((entries (dsk p))((refers dh, n) := None)) (dsk p') \<Longrightarrow> Q () p'"
    and "\<And>e p'. same p p' \<Longrightarrow> E e p'"
  shows "wp (unlink_slot k dh n) Q E p"
  unfolding unlink_slot_def
  by (rule wp_call_same) (use assms in \<open>auto dest!: unlink_ok unlink_failed simp: relinked_def\<close>)

lemma open_new_stage_wp [wp_rules]:
  assumes "\<And>h p'. added (dsk p) (refers dh, n) (refers h) (dsk p') \<Longrightarrow> offset (world p') h = 0 \<Longrightarrow>
      regular (nodes (dsk p') (refers h)) \<Longrightarrow> node_bytes (nodes (dsk p') (refers h)) = [] \<Longrightarrow> Q h p'"
    and "\<And>e p'. same p p' \<Longrightarrow> E e p'"
  shows "wp (open_new_stage k dh n) Q E p"
  unfolding open_new_stage_def
proof (rule wp_call_same)
  fix h w
  assume "sys_openat k dh n [O_RDWR, O_CREAT, O_EXCL, O_NOFOLLOW] 0x180 (world p) = (Inr h, w)"
  from create_ok [OF _ _ this] show "Q h (p\<lparr>world := w\<rparr>)"
    by (intro assms(1)) (auto simp: added_def put_node_def)
qed (use assms(2) create_failed in auto)

lemma write_all_wp:
  assumes "\<And>p'. dsk p' = put_node (refers h) ((nodes (dsk p) (refers h))\<lparr>node_bytes :=
         overwrite (offset (world p) h) bs (node_bytes (nodes (dsk p) (refers h)))\<rparr>) (dsk p) \<Longrightarrow> Q () p'"
    and "\<And>e p' bs'. dsk p' = put_node (refers h) ((nodes (dsk p) (refers h))\<lparr>node_bytes := bs'\<rparr>) (dsk p) \<Longrightarrow>
         E e p'"
  shows "wp (call (sys_write_all k h bs)) Q E p"
  unfolding wp_call by (rule wpI) (use assms in \<open>auto dest: write_ok write_failed\<close>)

lemma fchmod_wp:
  assumes "\<And>p'. dsk p' = put_node (refers h) (change_mode m (nodes (dsk p) (refers h))) (dsk p) \<Longrightarrow> Q () p'"
    and "\<And>e p'. same p p' \<Longrightarrow> E e p'"
  shows "wp (call (sys_fchmod k h m)) Q E p"
  by (rule wp_call_same) (use assms in \<open>auto dest: fchmod_ok fchmod_failed\<close>)

lemma create_stage_name_wp [wp_rules]:
  assumes "\<And>p'. dsk p' = dsk p \<Longrightarrow> Q (n @ stage_suffix (process_id k) (stage_counter p)) p'"
    and "\<And>e p'. dsk p' = dsk p \<Longrightarrow> E e p'"
  shows "wp (create_stage_name k n) Q E p"
  using assms by (simp add: wp_def create_stage_name_def Let_def)

lemma create_quarantine_name_wp [wp_rules]:
  assumes "\<And>p'. dsk p' = dsk p \<Longrightarrow> Q (n @ quarantine_suffix (process_id k) (quarantine_counter p)) p'"
    and "\<And>e p'. dsk p' = dsk p \<Longrightarrow> E e p'"
  shows "wp (create_quarantine_name k n) Q E p"
  using assms by (simp add: wp_def create_quarantine_name_def Let_def)

lemma verify_wp [wp_rules]:
  assumes "\<And>i p'. same p p' \<Longrightarrow> entries (dsk p) (name_slot refers t) = Some i \<Longrightarrow>
      regular (nodes (dsk p) i) \<Longrightarrow> node_bytes (nodes (dsk p) i) = source_bytes t \<Longrightarrow> Q () p'"
    and "\<And>e p'. same p p' \<Longrightarrow> E e p'"
  shows "wp (verify k t) Q E p"
  unfolding verify_def
  by (intro wp_rules) (use assms in \<open>auto simp: unchanged_def\<close>)

lemma sync_directory_wp [wp_rules]:
  assumes "\<And>p'. same p p' \<Longrightarrow> Q () p'" and "\<And>e p'. same p p' \<Longrightarrow> E e p'"
  shows "wp (sync_directory k dir) Q E p"
  unfolding sync_directory_def by (intro wp_rules) (use assms in auto)

section \<open>Taking a file away\<close>

lemma quarantine_wp:
  assumes "\<And>p'. entries (dsk p) (refers (lease_fd dir), n) = Some (seal_identity seal) \<Longrightarrow>
      holds refers seal \<Longrightarrow> matches (dsk p) seal \<Longrightarrow>
      relinked (dsk p) ((entries (dsk p))((refers (lease_fd dir), n) := None)) (dsk p') \<Longrightarrow> Q () p'"
    and "\<And>e p'. dsk p' = dsk p \<Longrightarrow> E e p'"
    and "\<And>e i q p'. entries (dsk p) (refers (lease_fd dir), n) = Some i \<Longrightarrow>
      entries (dsk p) (refers (lease_fd dir), q) = None \<Longrightarrow>
      relinked (dsk p) ((entries (dsk p))((refers (lease_fd dir), n) := None, (refers (lease_fd dir), q) \<mapsto> i)) (dsk p') \<Longrightarrow>
      q = n @ quarantine_suffix (process_id k) (quarantine_counter p) \<Longrightarrow> E e p'"
  shows "wp (quarantine_and_delete_sealed_slot k dir n path role seal) Q E p"
  unfolding quarantine_and_delete_sealed_slot_def Let_def
  by (intro wp_rules)
    (use assms in \<open>auto simp: unchanged_def dest!: relinked_unlink\<close>)

section \<open>Staging\<close>

lemma create_stage_wp:
  assumes "\<And>n h p'. added (dsk p) (stage_slot refers t n) (refers h) (dsk p') \<Longrightarrow> offset (world p') h = 0 \<Longrightarrow>
      regular (nodes (dsk p') (refers h)) \<Longrightarrow> node_bytes (nodes (dsk p') (refers h)) = [] \<Longrightarrow>
      Q n (t\<lparr>stage_name := Some n,
        provisional_stage := Some \<lparr>prov_handle = h, prov_identity = Some (refers h)\<rparr>\<rparr>, p')"
    and "\<And>e p'. dsk p' = dsk p \<Longrightarrow> E e (t, p')"
    and "\<And>e n h p'. added (dsk p) (stage_slot refers t n) (refers h) (dsk p') \<Longrightarrow>
      E e (t\<lparr>stage_name := Some n,
        provisional_stage := Some \<lparr>prov_handle = h, prov_identity = None\<rparr>\<rparr>, p')"
  shows "wp (create_stage k) Q E (t, p)"
  unfolding create_stage_def
  by (intro wp_rules) (use assms in \<open>auto simp: unchanged_def\<close>)

text \<open>What writing the stage leaves alone.\<close>

abbreviation rewritten :: "identity \<Rightarrow> 'w prog \<Rightarrow> 'w prog \<Rightarrow> bool" where
  "rewritten i p p' \<equiv>
     entries (dsk p') = entries (dsk p) \<and> location (dsk p') = location (dsk p) \<and>
     (\<forall>j. j \<noteq> i \<longrightarrow> nodes (dsk p') j = nodes (dsk p) j)"

lemma write_stage_wp:
  assumes "provisional_stage t = Some pr" "offset (world p) (prov_handle pr) = 0"
    "regular (nodes (dsk p) (refers (prov_handle pr)))" "node_bytes (nodes (dsk p) (refers (prov_handle pr))) = []"
    and "\<And>p'. rewritten (refers (prov_handle pr)) p p' \<Longrightarrow>
      complete (dsk p') (refers (prov_handle pr)) (source_bytes t) \<Longrightarrow> Q () (t, p')"
    and "\<And>e p'. rewritten (refers (prov_handle pr)) p p' \<Longrightarrow> E e (t, p')"
  shows "wp (write_stage k) Q E (t, p)"
  unfolding write_stage_def Let_def
  by (intro wp_rules write_all_wp fchmod_wp)
    (use assms in \<open>auto simp: unchanged_def put_node_def complete_def mode_change_mode\<close>)

lemma seal_stage_wp:
  assumes "provisional_stage t = Some pr"
    and "\<And>seal p'. same p p' \<Longrightarrow> entries (dsk p) (stage_slot refers t n) = Some (refers (prov_handle pr)) \<Longrightarrow>
      seal_identity seal = refers (prov_handle pr) \<Longrightarrow> holds refers seal \<Longrightarrow> matches (dsk p) seal \<Longrightarrow>
      Q () (t\<lparr>provisional_stage := None, staged := Some seal\<rparr>, p')"
    and "\<And>e p'. same p p' \<Longrightarrow> E e (t, p')"
  shows "wp (seal_stage k n) Q E (t, p)"
  unfolding seal_stage_def Let_def
  by (intro wp_rules) (use assms in \<open>auto simp: unchanged_def\<close>)

lemma stage_wp:
  assumes "\<And>n seal p'. added (dsk p) (stage_slot refers t n) (seal_identity seal) (dsk p') \<Longrightarrow>
      holds refers seal \<Longrightarrow> matches (dsk p') seal \<Longrightarrow> source_seal (source_bytes t) seal \<Longrightarrow>
      Q () (t\<lparr>stage_name := Some n, provisional_stage := None, staged := Some seal\<rparr>, p')"
    and "\<And>e p'. dsk p' = dsk p \<Longrightarrow> E e (t, p')"
    and "\<And>e n h pi p'. added (dsk p) (stage_slot refers t n) (refers h) (dsk p') \<Longrightarrow>
      pi = None \<or> pi = Some (refers h) \<Longrightarrow>
      E e (t\<lparr>stage_name := Some n,
        provisional_stage := Some \<lparr>prov_handle = h, prov_identity = pi\<rparr>\<rparr>, p')"
  shows "wp (stage k) Q E (t, p)"
  unfolding stage_def
proof (intro wp_rules create_stage_wp)
  fix n h p1
  let ?pr = "\<lparr>prov_handle = h, prov_identity = Some (refers h)\<rparr>"
  let ?t = "t\<lparr>stage_name := Some n, provisional_stage := Some ?pr\<rparr>"
  assume a: "added (dsk p) (stage_slot refers t n) (refers h) (dsk p1)"
    and fresh: "offset (world p1) h = 0" "regular (nodes (dsk p1) (refers h))"
      "node_bytes (nodes (dsk p1) (refers h)) = []"
  have late: "added (dsk p) (stage_slot refers t n) (refers h) (dsk p2)"
    if "rewritten (refers h) p1 p2" for p2
    using added_trans [OF a] that by blast
  show "wp (write_stage k) (\<lambda>_. wp (seal_stage k n) Q E) E (?t, p1)"
  proof (rule write_stage_wp [where pr = ?pr])
    fix p2 assume r: "rewritten (refers (prov_handle ?pr)) p1 p2"
      and c: "complete (dsk p2) (refers (prov_handle ?pr)) (source_bytes ?t)"
    show "wp (seal_stage k n) Q E (?t, p2)"
    proof (rule seal_stage_wp [where pr = ?pr])
      fix seal p3
      assume s: "same p2 p3" "seal_identity seal = refers (prov_handle ?pr)" "holds refers seal"
        "matches (dsk p2) seal"
      then show "Q () (?t\<lparr>provisional_stage := None, staged := Some seal\<rparr>, p3)"
        using assms(1) [of n seal p3] late [of p2] r c matches_source_seal [of "dsk p2" seal]
        by (simp add: unchangedD)
    qed (use assms(3) [OF late] r in \<open>simp_all add: unchangedD\<close>)
  qed (use fresh assms(3) [OF late] in simp_all)
qed (use assms(2,3) in auto)

section \<open>Rolling back\<close>

text \<open>A roll back that succeeds has put the entries back; one that fails after it changed anything has
  already taken the published file away from the destination.\<close>

definition own_slots :: "('h \<Rightarrow> identity) \<Rightarrow> 'h target \<Rightarrow> slot set" where
  "own_slots rf t = insert (name_slot rf t) (stage_slot rf t ` set_option (stage_name t))"

lemma remove_rolled_back_wp:
  assumes removed: "\<And>p'. relinked (dsk p) ((entries (dsk p))(stage_slot refers t sn := None)) (dsk p') \<Longrightarrow> Q () p'"
    and early: "\<And>e p'. dsk p' = dsk p \<Longrightarrow> E e p'"
    and late: "\<And>e i q p'. entries (dsk p) (stage_slot refers t q) = None \<Longrightarrow>
      relinked (dsk p) ((entries (dsk p))(stage_slot refers t sn := None, stage_slot refers t q \<mapsto> i)) (dsk p') \<Longrightarrow>
      E e p'"
  shows "wp (remove_rolled_back k t seal prev sn) Q E p"
  unfolding remove_rolled_back_def Let_def
proof (intro wp_rules quarantine_wp)
  fix p1 p2 p3
  assume s: "same p p1" "same p1 p2"
    and q: "relinked (dsk p2) ((entries (dsk p2))(stage_slot refers t sn := None)) (dsk p3)"
  have "dsk p2 = dsk p" using s by (simp add: unchangedD)
  then show "Q () p3" using q by (intro removed) simp
next
  fix p1 p2 e i q p3
  assume s: "same p p1" "same p1 p2"
    and q: "entries (dsk p2) (stage_slot refers t q) = None"
      "relinked (dsk p2) ((entries (dsk p2))(stage_slot refers t sn := None, stage_slot refers t q \<mapsto> i)) (dsk p3)"
  have "dsk p2 = dsk p" using s by (simp add: unchangedD)
  then show "E (Around [Text ''restored '', Shown (display_path t),
      Text '' but failed to remove rollback stage: ''] e []) p3"
    using q by (intro late) simp_all
qed (use early in \<open>simp_all add: unchangedD\<close>)

lemma restore_previous_wp:
  assumes published: "entries (dsk p) (name_slot refers t) = Some (seal_identity seal)"
    and restored: "\<And>p'. entries (dsk p) (stage_slot refers t sn) = Some (seal_identity prev) \<Longrightarrow> matches (dsk p) prev \<Longrightarrow>
      relinked (dsk p) ((entries (dsk p))(name_slot refers t \<mapsto> seal_identity prev,
        stage_slot refers t sn := None)) (dsk p') \<Longrightarrow> Q () p'"
    and early: "\<And>e p'. dsk p' = dsk p \<Longrightarrow> E e p'"
    and late: "\<And>e p'. matches (dsk p) prev \<Longrightarrow>
      entries (dsk p') (name_slot refers t) = Some (seal_identity prev) \<or> target_name t = sn \<Longrightarrow>
      kept_except {name_slot refers t, stage_slot refers t sn} (dsk p) (dsk p') \<Longrightarrow> E e p'"
  shows "wp (restore_previous k t seal prev sn) Q E p"
  unfolding restore_previous_def Let_def
proof (intro wp_bindI validate_slot_wp wp_map_errI swap_wp)
  fix p1 i j p2
  assume p1: "same p p1" and m: "matches (dsk p) prev"
    and sn: "entries (dsk p) (stage_slot refers t sn) = Some (seal_identity prev)"
    and i: "entries (dsk p1) (stage_slot refers t sn) = Some i"
    and j: "entries (dsk p1) (name_slot refers t) = Some j"
    and r: "relinked (dsk p1) ((entries (dsk p1))(stage_slot refers t sn \<mapsto> j, name_slot refers t \<mapsto> i)) (dsk p2)"
  have "dsk p1 = dsk p" using p1 by (rule unchangedD)
  then have r2: "relinked (dsk p) ((entries (dsk p))(stage_slot refers t sn \<mapsto> seal_identity seal,
      name_slot refers t \<mapsto> seal_identity prev)) (dsk p2)"
    using r i j sn published by simp
  show "wp (remove_rolled_back k t seal prev sn) Q E p2"
  proof (rule remove_rolled_back_wp)
    fix p3 assume "relinked (dsk p2) ((entries (dsk p2))(stage_slot refers t sn := None)) (dsk p3)"
    then show "Q () p3" using swap_then_delete [OF r2] by (intro restored [OF sn m]) simp
  next
    fix e p3 assume "dsk p3 = dsk p2"
    then show "E e p3" using r2 by (intro late [OF m]) (auto simp: relinked_def kept_except_def)
  next
    fix e i q p3
    assume "entries (dsk p2) (stage_slot refers t q) = None"
      "relinked (dsk p2) ((entries (dsk p2))(stage_slot refers t sn := None, stage_slot refers t q \<mapsto> i)) (dsk p3)"
    then show "E e p3"
      using r2 by (intro late [OF m]) (auto simp: relinked_def kept_except_def split: if_splits)
  qed
qed (use early in \<open>simp_all add: unchangedD\<close>)

lemma remove_published_wp:
  assumes removed: "\<And>p'. relinked (dsk p) ((entries (dsk p))(name_slot refers t := None)) (dsk p') \<Longrightarrow> Q () p'"
    and early: "\<And>e p'. dsk p' = dsk p \<Longrightarrow> E e p'"
    and late: "\<And>e p'. entries (dsk p') (name_slot refers t) = None \<Longrightarrow>
      kept_except {name_slot refers t} (dsk p) (dsk p') \<Longrightarrow> E e p'"
  shows "wp (remove_published k t seal) Q E p"
  unfolding remove_published_def
proof (intro wp_rules quarantine_wp)
  fix e i q p'
  assume "entries (dsk p) (name_slot refers t) = Some i" "entries (dsk p) (stage_slot refers t q) = None"
    "relinked (dsk p) ((entries (dsk p))(name_slot refers t := None, stage_slot refers t q \<mapsto> i)) (dsk p')"
  then show "E (Around [Text ''failed to remove newly published destination '',
      Shown (display_path t), Text '': ''] e []) p'"
    by (intro late) (auto simp: relinked_def kept_except_def split: if_splits)
qed (use removed early in auto)

abbreviation rolled_back :: "'h target \<Rightarrow> 'h target" where
  "rolled_back t \<equiv> t\<lparr>stage_name := None, staged := None, published := False\<rparr>"

text \<open>The last step of an operation on a target: the directory is made durable, the target updated.\<close>

abbreviation fsync_then :: "string \<Rightarrow> ('h target \<Rightarrow> 'h target) \<Rightarrow> 'h target \<Rightarrow> ('w, 'h, unit) target_action" where
  "fsync_then message f t \<equiv> bindS (map_errS (os_at message (display_path t))
     (outside (sync_directory k (directory t)))) (\<lambda>_. modify_self f)"

lemma fsync_then_wp:
  assumes "\<And>p'. dsk p' = dsk p \<Longrightarrow> Q () (f t, p')" "\<And>e p'. dsk p' = dsk p \<Longrightarrow> E e (t, p')"
  shows "wp (fsync_then message f t) Q E (t, p)"
  by (intro wp_rules) (simp_all add: assms unchangedD)

lemma rollback_none_wp:
  assumes done_none: "\<And>p'. relinked (dsk p) ((entries (dsk p))(name_slot refers t := None)) (dsk p') \<Longrightarrow> Q () (rolled_back t, p')"
    and early: "\<And>e p'. dsk p' = dsk p \<Longrightarrow> E e (t, p')"
    and late_none: "\<And>e p'. entries (dsk p') (name_slot refers t) = None \<Longrightarrow>
      kept_except {name_slot refers t} (dsk p) (dsk p') \<Longrightarrow> E e (t, p')"
  shows "wp (outside (remove_published k t seal)) (\<lambda>_. wp (fsync_then message rolled_back t) Q E) E (t, p)"
proof (intro wp_outsideI remove_published_wp fsync_then_wp)
  fix p1 e p2
  assume r: "relinked (dsk p) ((entries (dsk p))(name_slot refers t := None)) (dsk p1)" and d: "dsk p2 = dsk p1"
  show "Q () (rolled_back t, p2)" using r d by (intro done_none) simp
  have "kept_except {name_slot refers t} (dsk p) (dsk p2)"
    unfolding d using r by (rule relinked_kept) simp
  then show "E e (t, p2)" using r d by (intro late_none) (simp_all add: relinkedD(1))
qed (simp_all add: early late_none)

lemma rollback_some_wp:
  assumes pub: "entries (dsk p) (name_slot refers t) = Some (seal_identity seal)"
    and done_some: "\<And>p'. entries (dsk p) (stage_slot refers t sn) = Some (seal_identity prev) \<Longrightarrow> matches (dsk p) prev \<Longrightarrow>
      relinked (dsk p) ((entries (dsk p))(name_slot refers t \<mapsto> seal_identity prev,
        stage_slot refers t sn := None)) (dsk p') \<Longrightarrow> Q () (rolled_back t, p')"
    and early: "\<And>e p'. dsk p' = dsk p \<Longrightarrow> E e (t, p')"
    and late_some: "\<And>e p'. matches (dsk p) prev \<Longrightarrow>
      entries (dsk p') (name_slot refers t) = Some (seal_identity prev) \<or> target_name t = sn \<Longrightarrow>
      kept_except {name_slot refers t, stage_slot refers t sn} (dsk p) (dsk p') \<Longrightarrow> E e (t, p')"
  shows "wp (outside (restore_previous k t seal prev sn)) (\<lambda>_. wp (fsync_then message rolled_back t) Q E) E (t, p)"
proof (intro wp_outsideI restore_previous_wp [OF pub] fsync_then_wp)
  fix p1 e p2
  assume b: "entries (dsk p) (stage_slot refers t sn) = Some (seal_identity prev)" "matches (dsk p) prev"
    and r: "relinked (dsk p) ((entries (dsk p))(name_slot refers t \<mapsto> seal_identity prev,
        stage_slot refers t sn := None)) (dsk p1)" and d: "dsk p2 = dsk p1"
  show "Q () (rolled_back t, p2)" using b r d by (intro done_some) simp_all
  have "kept_except {name_slot refers t, stage_slot refers t sn} (dsk p) (dsk p2)"
    unfolding d using r by (rule relinked_kept) simp
  then show "E e (t, p2)" using b r d by (intro late_some) (simp_all add: relinkedD(1))
qed (simp_all add: early late_some)

lemma rollback_wp:
  assumes done_some: "\<And>seal sn prev p'. published t \<Longrightarrow> staged t = Some seal \<Longrightarrow> stage_name t = Some sn \<Longrightarrow>
      previous t = Some prev \<Longrightarrow> entries (dsk p) (name_slot refers t) = Some (seal_identity seal) \<Longrightarrow>
      entries (dsk p) (stage_slot refers t sn) = Some (seal_identity prev) \<Longrightarrow> matches (dsk p) prev \<Longrightarrow>
      relinked (dsk p) ((entries (dsk p))(name_slot refers t \<mapsto> seal_identity prev,
        stage_slot refers t sn := None)) (dsk p') \<Longrightarrow> Q () (rolled_back t, p')"
    and done_none: "\<And>seal p'. published t \<Longrightarrow> staged t = Some seal \<Longrightarrow> previous t = None \<Longrightarrow>
      entries (dsk p) (name_slot refers t) = Some (seal_identity seal) \<Longrightarrow>
      relinked (dsk p) ((entries (dsk p))(name_slot refers t := None)) (dsk p') \<Longrightarrow> Q () (rolled_back t, p')"
    and early: "\<And>e p'. dsk p' = dsk p \<Longrightarrow> E e (t, p')"
    and late_some: "\<And>e seal sn prev p'. published t \<Longrightarrow> staged t = Some seal \<Longrightarrow> stage_name t = Some sn \<Longrightarrow>
      previous t = Some prev \<Longrightarrow> entries (dsk p) (name_slot refers t) = Some (seal_identity seal) \<Longrightarrow>
      matches (dsk p) prev \<Longrightarrow>
      entries (dsk p') (name_slot refers t) = Some (seal_identity prev) \<or> target_name t = sn \<Longrightarrow>
      kept_except {name_slot refers t, stage_slot refers t sn} (dsk p) (dsk p') \<Longrightarrow> E e (t, p')"
    and late_none: "\<And>e seal p'. published t \<Longrightarrow> staged t = Some seal \<Longrightarrow> previous t = None \<Longrightarrow>
      entries (dsk p) (name_slot refers t) = Some (seal_identity seal) \<Longrightarrow>
      entries (dsk p') (name_slot refers t) = None \<Longrightarrow>
      kept_except {name_slot refers t} (dsk p) (dsk p') \<Longrightarrow> E e (t, p')"
  shows "wp (rollback k) Q E (t, p)"
  unfolding rollback_def
proof (intro wp_with_selfI wp_bindI wp_outsideI validate_exclusive_namespace_wp wp_rejectI wp_ok_orI validate_slot_wp)
  fix p1 seal p2
  assume s: "same p p1" "same p1 p2" and p: "\<not> \<not> published t" and st: "staged t = Some seal"
    and e: "entries (dsk p1) (name_slot refers t) = Some (seal_identity seal)"
  have d2: "dsk p2 = dsk p" using s by (simp add: unchangedD)
  have pub: "entries (dsk p) (name_slot refers t) = Some (seal_identity seal)"
    using e s by (simp add: unchangedD)
  show "wp (case previous t of
          Some prev \<Rightarrow> bindS (ok_orS (stage_name t)
              (Message [Text ''internal error: previous destination has no rollback slot''])) (\<lambda>sn.
            outside (restore_previous k t seal prev sn))
        | None \<Rightarrow> outside (remove_published k t seal))
      (\<lambda>_. wp (fsync_then ''failed to fsync rollback directory for '' rolled_back t) Q E) E (t, p2)"
  proof (cases "previous t")
    case None
    show ?thesis
      unfolding None option.case
      by (rule rollback_none_wp; unfold d2; use done_none [OF _ st None pub] early late_none [OF _ st None pub] p in blast)
  next
    case (Some prev)
    have "wp (outside (restore_previous k t seal prev sn))
        (\<lambda>_. wp (fsync_then ''failed to fsync rollback directory for '' rolled_back t) Q E) E (t, p2)"
      if sn: "stage_name t = Some sn" for sn
      by (rule rollback_some_wp; unfold d2; use pub done_some [OF _ st sn Some pub] early late_some [OF _ st sn Some pub] p in blast)
    then show ?thesis
      unfolding Some option.case by (intro wp_bindI wp_ok_orI) (simp_all add: early d2)
  qed
qed (use early in \<open>simp_all add: unchangedD\<close>)

section \<open>Publishing\<close>

lemma before_publish_wp:
  assumes "\<And>sn seal p'. same p p' \<Longrightarrow> ready refers (dsk p) t sn seal \<Longrightarrow> Q (sn, seal) (t, p')"
    and "\<And>e p'. same p p' \<Longrightarrow> E e (t, p')"
  shows "wp (before_publish k) Q E (t, p)"
  unfolding before_publish_def Let_def
  by (intro wp_rules) (use assms in \<open>auto simp: unchanged_def ready_def\<close>)

lemma exchange_wp:
  assumes rd: "ready refers (dsk p) t sn seal"
    and exch: "\<And>p'. exchanged refers (dsk p) t sn seal (dsk p') \<Longrightarrow> Q () (t\<lparr>published := True\<rparr>, p')"
    and same: "\<And>e p'. same p p' \<Longrightarrow> E e (t, p')"
    and failed: "\<And>e p'. exchanged refers (dsk p) t sn seal (dsk p') \<Longrightarrow> E e (t\<lparr>published := True\<rparr>, p')"
  shows "wp (exchange k sn seal) Q E (t, p)"
proof -
  have after: "wp (bindS (modify_self (\<lambda>t. t\<lparr>published := True\<rparr>)) (\<lambda>_.
      bindS (outside (validate_slot k seal (target_fd t) (target_name t) (display_path t) ''published generated source'')) (\<lambda>_.
      case previous t of
        Some prev \<Rightarrow> outside (validate_slot k prev (target_fd t) sn (display_path t) ''rollback backup'')
      | None \<Rightarrow> returnS ()))) Q E (t, p1)"
    if "exchanged refers (dsk p) t sn seal (dsk p1)" for p1
    by (intro wp_rules) (use exch failed that in \<open>simp_all add: unchanged_def\<close>)
  show ?thesis
  proof (cases "previous t")
    case None
    have flags: "(if previous t \<noteq> None then RENAME_SWAP else RENAME_EXCL) = RENAME_EXCL"
      using None by simp
    show ?thesis
      unfolding exchange_def Let_def
      by (rule wp_with_selfI, unfold flags,
          intro wp_bindI [of "map_errS _ _"] wp_map_errI wp_outsideI excl_wp after)
        (use rd None same in \<open>simp_all add: exchanged_def ready_def\<close>)
  next
    case (Some prev)
    have flags: "(if previous t \<noteq> None then RENAME_SWAP else RENAME_EXCL) = RENAME_SWAP"
      using Some by simp
    show ?thesis
      unfolding exchange_def Let_def
      by (rule wp_with_selfI, unfold flags,
          intro wp_bindI [of "map_errS _ _"] wp_map_errI wp_outsideI swap_wp after)
        (use rd Some same in \<open>simp_all add: exchanged_def ready_def\<close>)
  qed
qed

text \<open>A failed publication leaves the target untouched, exchanged, rolled back, or with a roll back that
  did not get to its end.\<close>

lemma after_publish_wp:
  assumes fine: "\<And>i p'. same p p' \<Longrightarrow> Q () (t, p')"
    and failed: "\<And>e p'. dsk p' = dsk p \<Longrightarrow> E e (t, p')"
    and undone: "\<And>e seal sn prev p'. published t \<Longrightarrow> staged t = Some seal \<Longrightarrow> stage_name t = Some sn \<Longrightarrow>
      previous t = Some prev \<Longrightarrow>
      relinked (dsk p) ((entries (dsk p))(name_slot refers t \<mapsto> seal_identity prev,
        stage_slot refers t sn := None)) (dsk p') \<Longrightarrow> E e (rolled_back t, p')"
    and undone_none: "\<And>e seal p'. published t \<Longrightarrow> staged t = Some seal \<Longrightarrow> previous t = None \<Longrightarrow>
      relinked (dsk p) ((entries (dsk p))(name_slot refers t := None)) (dsk p') \<Longrightarrow> E e (rolled_back t, p')"
    and late_some: "\<And>e seal sn prev p'. published t \<Longrightarrow> staged t = Some seal \<Longrightarrow> stage_name t = Some sn \<Longrightarrow>
      previous t = Some prev \<Longrightarrow>
      entries (dsk p') (name_slot refers t) = Some (seal_identity prev) \<or> target_name t = sn \<Longrightarrow>
      kept_except {name_slot refers t, stage_slot refers t sn} (dsk p) (dsk p') \<Longrightarrow> E e (t, p')"
    and late_none: "\<And>e seal p'. published t \<Longrightarrow> staged t = Some seal \<Longrightarrow> previous t = None \<Longrightarrow>
      entries (dsk p') (name_slot refers t) = None \<Longrightarrow>
      kept_except {name_slot refers t} (dsk p) (dsk p') \<Longrightarrow> E e (t, p')"
  shows "wp (after_publish k) Q E (t, p)"
proof -
  have undo: "wp (attemptS (rollback k)) (\<lambda>undone. wp (case undone of
        Inr _ \<Rightarrow> failS (Around [] error [Text ''; this destination was rolled back''])
      | Inl rollback_error \<Rightarrow>
          failS (Joined error ''; this destination rollback was incomplete: '' [rollback_error])) Q E) E (t, p1)"
    if "same p p1" for error p1
    by (intro wp_attemptI rollback_wp wp_rules)
      (use that failed undone undone_none late_some late_none in \<open>simp_all add: unchangedD\<close>)
  show ?thesis
    unfolding after_publish_def
    by (intro wp_with_selfI wp_bindI wp_attemptI wp_outsideI wp_map_errI sync_directory_wp verify_wp
          wp_case_InlI wp_case_InrI wp_returnI undo)
      (use fine in \<open>simp_all add: unchanged_def\<close>)
qed

text \<open>After the exchange: published, stuck with both files in place, or taken back.\<close>

lemma after_exchange_wp:
  assumes rd: "ready refers d t sn seal" and x: "exchanged refers d t sn seal (dsk p)"
    and fine: "\<And>p'. dsk p' = dsk p \<Longrightarrow> Q () (t\<lparr>published := True\<rparr>, p')"
    and stuck: "\<And>e p'. dsk p' = dsk p \<Longrightarrow> E e (t\<lparr>published := True\<rparr>, p')"
    and undone: "\<And>e p'. relinked d ((entries d)(stage_slot refers t sn := None)) (dsk p') \<Longrightarrow>
      E e (t\<lparr>stage_name := None, staged := None, published := False\<rparr>, p')"
    and late: "\<And>e p'. entries (dsk p') (name_slot refers t) = map_option seal_identity (previous t) \<or>
        target_name t = sn \<Longrightarrow>
      kept_except {name_slot refers t, stage_slot refers t sn} d (dsk p') \<Longrightarrow>
      E e (t\<lparr>published := True\<rparr>, p')"
  shows "wp (after_publish k) Q E (t\<lparr>published := True\<rparr>, p)"
proof (rule after_publish_wp)
  fix p3 assume "same p p3"
  then show "Q () (t\<lparr>published := True\<rparr>, p3)" by (intro fine) (simp add: unchangedD)
next
  fix e p3 assume "dsk p3 = dsk p"
  then show "E e (t\<lparr>published := True\<rparr>, p3)" by (rule stuck)
next
  fix e seal' sn' prev p3
  assume "stage_name (t\<lparr>published := True\<rparr>) = Some sn'" "previous (t\<lparr>published := True\<rparr>) = Some prev"
    "relinked (dsk p) ((entries (dsk p))(name_slot refers (t\<lparr>published := True\<rparr>) \<mapsto> seal_identity prev,
       stage_slot refers (t\<lparr>published := True\<rparr>) sn' := None)) (dsk p3)"
  then show "E e (rolled_back (t\<lparr>published := True\<rparr>), p3)"
    using undone [OF exchange_undone [OF rd x]] rd by (simp add: ready_def)
next
  fix e p3
  assume "previous (t\<lparr>published := True\<rparr>) = None"
    "relinked (dsk p) ((entries (dsk p))(name_slot refers (t\<lparr>published := True\<rparr>) := None)) (dsk p3)"
  then show "E e (rolled_back (t\<lparr>published := True\<rparr>), p3)"
    using undone [OF exchange_undone_none [OF rd x]] by simp
next
  fix e sn' prev p3
  assume "stage_name (t\<lparr>published := True\<rparr>) = Some sn'" "previous (t\<lparr>published := True\<rparr>) = Some prev"
    "entries (dsk p3) (name_slot refers (t\<lparr>published := True\<rparr>)) = Some (seal_identity prev) \<or>
       target_name (t\<lparr>published := True\<rparr>) = sn'"
    "kept_except {name_slot refers (t\<lparr>published := True\<rparr>), stage_slot refers (t\<lparr>published := True\<rparr>) sn'} (dsk p) (dsk p3)"
  then show "E e (t\<lparr>published := True\<rparr>, p3)"
    using late [OF _ kept_except_trans [OF exchanged_kept [OF x]]] rd by (simp add: ready_def)
next
  fix e p3
  assume "previous (t\<lparr>published := True\<rparr>) = None"
    "entries (dsk p3) (name_slot refers (t\<lparr>published := True\<rparr>)) = None"
    and kept: "kept_except {name_slot refers (t\<lparr>published := True\<rparr>)} (dsk p) (dsk p3)"
  then show "E e (t\<lparr>published := True\<rparr>, p3)"
    using late [OF _ kept_except_trans [OF exchanged_kept [OF x] kept_except_mono [OF kept]]] by simp
qed

lemma publish_wp:
  assumes fine: "\<And>sn seal p'. ready refers (dsk p) t sn seal \<Longrightarrow> exchanged refers (dsk p) t sn seal (dsk p') \<Longrightarrow>
      Q () (t\<lparr>published := True\<rparr>, p')"
    and early: "\<And>e p'. dsk p' = dsk p \<Longrightarrow> E e (t, p')"
    and stuck: "\<And>e sn seal p'. ready refers (dsk p) t sn seal \<Longrightarrow> exchanged refers (dsk p) t sn seal (dsk p') \<Longrightarrow>
      E e (t\<lparr>published := True\<rparr>, p')"
    and undone: "\<And>e sn seal p'. ready refers (dsk p) t sn seal \<Longrightarrow>
      relinked (dsk p) ((entries (dsk p))(stage_slot refers t sn := None)) (dsk p') \<Longrightarrow>
      E e (t\<lparr>stage_name := None, staged := None, published := False\<rparr>, p')"
    and late: "\<And>e sn seal p'. ready refers (dsk p) t sn seal \<Longrightarrow>
      entries (dsk p') (name_slot refers t) = map_option seal_identity (previous t) \<or> target_name t = sn \<Longrightarrow>
      kept_except {name_slot refers t, stage_slot refers t sn} (dsk p) (dsk p') \<Longrightarrow>
      E e (t\<lparr>published := True\<rparr>, p')"
  shows "wp (publish k) Q E (t, p)"
  unfolding publish_def
proof (intro wp_bindI before_publish_wp wp_case_prodI)
  fix sn seal p1
  assume s: "same p p1" and rd: "ready refers (dsk p) t sn seal"
  have d1: "dsk p1 = dsk p" using s by (rule unchangedD)
  show "wp (exchange k sn seal) (\<lambda>_. wp (after_publish k) Q E) E (t, p1)"
  proof (rule exchange_wp)
    show "ready refers (dsk p1) t sn seal" using rd d1 by simp
  next
    fix p2 assume "exchanged refers (dsk p1) t sn seal (dsk p2)"
    then have x: "exchanged refers (dsk p) t sn seal (dsk p2)" using d1 by simp
    show "wp (after_publish k) Q E (t\<lparr>published := True\<rparr>, p2)"
      by (rule after_exchange_wp [OF rd x]) (use fine stuck undone late rd x in simp_all)
  next
    fix e p2 assume "same p1 p2"
    then show "E e (t, p2)" using early d1 by (simp add: unchangedD)
  next
    fix e p2 assume "exchanged refers (dsk p1) t sn seal (dsk p2)"
    then show "E e (t\<lparr>published := True\<rparr>, p2)" using stuck [OF rd] d1 by simp
  qed
qed (use early in \<open>simp_all add: unchangedD\<close>)

section \<open>Finishing and discarding\<close>

abbreviation finished_target :: "'h target \<Rightarrow> 'h target" where
  "finished_target t \<equiv> t\<lparr>stage_name := None, staged := None, previous := None, published := False\<rparr>"

abbreviation finish_tail :: "'h target \<Rightarrow> ('w, 'h, unit) target_action" where
  "finish_tail t \<equiv> fsync_then ''failed to fsync completed destination directory for '' finished_target t"

text \<open>Taking the backup away, and the end.\<close>

lemma finish_backup_wp:
  assumes fine: "\<And>p'. entries (dsk p) (stage_slot refers t sn) = Some (seal_identity prev) \<Longrightarrow>
      relinked (dsk p) ((entries (dsk p))(stage_slot refers t sn := None)) (dsk p') \<Longrightarrow> Q () (finished_target t, p')"
    and early: "\<And>e p'. dsk p' = dsk p \<Longrightarrow> E e (t, p')"
    and late: "\<And>e p'. entries (dsk p) (stage_slot refers t sn) \<noteq> None \<Longrightarrow>
      kept_except {stage_slot refers t sn} (dsk p) (dsk p') \<Longrightarrow> E e (t, p')"
  shows "wp (map_errS f (outside (quarantine_and_delete_sealed_slot k (directory t) sn path role prev)))
    (\<lambda>_. wp (finish_tail t) Q E) E (t, p)"
proof (intro wp_map_errI wp_outsideI quarantine_wp fsync_then_wp)
  fix e p1 p2
  assume q: "entries (dsk p) (stage_slot refers t sn) = Some (seal_identity prev)"
    and r: "relinked (dsk p) ((entries (dsk p))(stage_slot refers t sn := None)) (dsk p1)" and d: "dsk p2 = dsk p1"
  show "Q () (finished_target t, p2)" using q r d by (intro fine) simp_all
  have "kept_except {stage_slot refers t sn} (dsk p) (dsk p2)"
    unfolding d using r by (rule relinked_kept) simp
  then show "E e (t, p2)" using q by (intro late) simp_all
next
  fix e i q p1
  assume i: "entries (dsk p) (stage_slot refers t sn) = Some i"
    and q: "entries (dsk p) (stage_slot refers t q) = None"
    and r: "relinked (dsk p) ((entries (dsk p))(stage_slot refers t sn := None, stage_slot refers t q \<mapsto> i)) (dsk p1)"
  have "kept_except {stage_slot refers t sn} (dsk p) (dsk p1)"
    using r by (rule relinked_kept) (use q in auto)
  then show "E (f e) (t, p1)" using i by (intro late) simp_all
qed (simp_all add: early)

lemma finish_wp:
  assumes fine: "\<And>seal p'. published t \<Longrightarrow> staged t = Some seal \<Longrightarrow>
      entries (dsk p) (name_slot refers t) = Some (seal_identity seal) \<Longrightarrow> previous t = None \<or> stage_name t = None \<Longrightarrow>
      dsk p' = dsk p \<Longrightarrow>
      Q () (finished_target t, p')"
    and fine_some: "\<And>seal sn prev p'. published t \<Longrightarrow> staged t = Some seal \<Longrightarrow> stage_name t = Some sn \<Longrightarrow>
      previous t = Some prev \<Longrightarrow> entries (dsk p) (name_slot refers t) = Some (seal_identity seal) \<Longrightarrow>
      entries (dsk p) (stage_slot refers t sn) = Some (seal_identity prev) \<Longrightarrow>
      relinked (dsk p) ((entries (dsk p))(stage_slot refers t sn := None)) (dsk p') \<Longrightarrow>
      Q () (finished_target t, p')"
    and early: "\<And>e p'. dsk p' = dsk p \<Longrightarrow> E e (t, p')"
    and late: "\<And>e seal sn prev p'. published t \<Longrightarrow> staged t = Some seal \<Longrightarrow> stage_name t = Some sn \<Longrightarrow>
      previous t = Some prev \<Longrightarrow> entries (dsk p) (name_slot refers t) = Some (seal_identity seal) \<Longrightarrow>
      entries (dsk p) (stage_slot refers t sn) \<noteq> None \<Longrightarrow>
      kept_except {stage_slot refers t sn} (dsk p) (dsk p') \<Longrightarrow> E e (t, p')"
  shows "wp (finish k) Q E (t, p)"
  unfolding finish_def Let_def
proof (intro wp_with_selfI wp_bindI wp_outsideI validate_exclusive_namespace_wp wp_rejectI wp_ok_orI validate_slot_wp)
  fix p1 seal p2
  assume s: "same p p1" "same p1 p2" and pub: "\<not> \<not> published t" and st: "staged t = Some seal"
    and e: "entries (dsk p1) (name_slot refers t) = Some (seal_identity seal)"
  have d2: "dsk p2 = dsk p" using s by (simp add: unchangedD)
  have name: "entries (dsk p) (name_slot refers t) = Some (seal_identity seal)"
    using e s by (simp add: unchangedD)
  show "wp (case (previous t, stage_name t) of
      (Some prev, Some sn) \<Rightarrow>
        map_errS (\<lambda>e. Around [Text ''failed to remove previous generated source backup for '',
                          Shown (display_path t), Text '': ''] e [])
          (outside (quarantine_and_delete_sealed_slot k (directory t) sn (display_path t) ''rollback backup'' prev))
    | _ \<Rightarrow> returnS ()) (\<lambda>_. wp (finish_tail t) Q E) E (t, p2)"
  proof (cases "\<exists>prev sn. previous t = Some prev \<and> stage_name t = Some sn")
    case True
    then obtain prev sn where ps: "previous t = Some prev" "stage_name t = Some sn" by blast
    show ?thesis
      unfolding ps prod.case option.case
      by (rule finish_backup_wp; unfold d2;
        use fine_some [OF _ st ps(2,1) name] early late [OF _ st ps(2,1) name] pub in blast)
  next
    case False
    then have none: "previous t = None \<or> stage_name t = None" by force
    have "wp (finish_tail t) Q E (t, p2)"
      by (rule fsync_then_wp; unfold d2; use fine [OF _ st name none] early pub in blast)
    moreover have "previous t = None \<or> (\<exists>prev. previous t = Some prev \<and> stage_name t = None)"
      using none by (cases "previous t") simp_all
    ultimately show ?thesis
      by (elim disjE exE conjE) (simp_all only: prod.case option.case wp_return)
  qed
qed (use early in \<open>simp_all add: unchangedD\<close>)

lemma cleanup_seal_wp:
  assumes "\<And>seal p'. same p p' \<Longrightarrow> Q seal (t, p')" and "\<And>e p'. same p p' \<Longrightarrow> E e (t, p')"
  shows "wp (cleanup_seal k sn) Q E (t, p)"
  unfolding cleanup_seal_def Let_def
  by (intro wp_rules) (use assms in \<open>auto simp: unchanged_def\<close>)

lemma remove_stage_wp:
  assumes gone: "\<And>p'. relinked (dsk p) ((entries (dsk p))(stage_slot refers t sn := None)) (dsk p') \<Longrightarrow>
      Q () (t\<lparr>stage_name := None, provisional_stage := None, staged := None\<rparr>, p')"
    and early: "\<And>e p'. dsk p' = dsk p \<Longrightarrow> E e (t, p')"
    and late: "\<And>e p'. kept_except {stage_slot refers t sn} (dsk p) (dsk p') \<Longrightarrow> E e (t, p')"
  shows "wp (remove_stage k sn) Q E (t, p)"
  unfolding remove_stage_def
proof (intro wp_with_selfI wp_bindI cleanup_seal_wp wp_outsideI quarantine_wp wp_map_errI sync_directory_wp wp_modify_selfI)
  fix seal p2 p3 p4
  assume s: "same p p2" "same p3 p4"
    and r: "relinked (dsk p2) ((entries (dsk p2))(stage_slot refers t sn := None)) (dsk p3)"
  then show "Q () (t\<lparr>stage_name := None, provisional_stage := None, staged := None\<rparr>, p4)"
    by (intro gone) (simp add: unchangedD(1))
next
  fix seal p2 p3 e p4
  assume s: "same p p2" "same p3 p4"
    and r: "relinked (dsk p2) ((entries (dsk p2))(stage_slot refers t sn := None)) (dsk p3)"
  have "kept_except {stage_slot refers t sn} (dsk p2) (dsk p3)"
    using r by (rule relinked_kept) simp
  then show "E (os_at ''failed to fsync discarded stage directory for '' (display_path t) e) (t, p4)"
    using s by (intro late) (simp add: unchangedD(1))
next
  fix seal p2 e i q p3
  assume s: "same p p2"
    and q: "entries (dsk p2) (stage_slot refers t q) = None"
    and r: "relinked (dsk p2) ((entries (dsk p2))(stage_slot refers t sn := None, stage_slot refers t q \<mapsto> i)) (dsk p3)"
  have "kept_except {stage_slot refers t sn} (dsk p2) (dsk p3)"
    using r by (rule relinked_kept) (use q in auto)
  then show "E e (t, p3)"
    using s by (intro late) (simp add: unchangedD(1))
qed (use early in \<open>simp_all add: unchangedD(1)\<close>)

lemma discard_stage_wp:
  assumes idle: "\<And>p'. published t \<or> stage_name t = None \<Longrightarrow> dsk p' = dsk p \<Longrightarrow> Q () (t, p')"
    and gone: "\<And>sn p'. \<not> published t \<Longrightarrow> stage_name t = Some sn \<Longrightarrow>
      relinked (dsk p) ((entries (dsk p))(stage_slot refers t sn := None)) (dsk p') \<Longrightarrow>
      Q () (t\<lparr>stage_name := None, provisional_stage := None, staged := None\<rparr>, p')"
    and early: "\<And>e p'. dsk p' = dsk p \<Longrightarrow> E e (t, p')"
    and late: "\<And>e sn p'. \<not> published t \<Longrightarrow> stage_name t = Some sn \<Longrightarrow>
      kept_except {stage_slot refers t sn} (dsk p) (dsk p') \<Longrightarrow> E e (t, p')"
  shows "wp (discard_stage k) Q E (t, p)"
  unfolding discard_stage_def
proof (intro wp_with_selfI wp_bindI wp_outsideI validate_exclusive_namespace_wp)
  fix p1 assume "same p p1"
  then have d1: "dsk p1 = dsk p" by (rule unchangedD)
  show "wp (case (published t, stage_name t) of (False, Some sn) \<Rightarrow> remove_stage k sn | _ \<Rightarrow> returnS ()) Q E (t, p1)"
  proof (cases "\<exists>sn. \<not> published t \<and> stage_name t = Some sn")
    case True
    then obtain sn where sn: "published t = False" "stage_name t = Some sn" by blast
    show ?thesis
      unfolding sn prod.case bool.case option.case
      by (rule remove_stage_wp) (use d1 early gone late sn in simp_all)
  next
    case False
    then have none: "published t \<or> stage_name t = None" by force
    have r: "(case (published t, stage_name t) of (False, Some sn) \<Rightarrow> f sn | _ \<Rightarrow> returnS ()) = returnS ()"
      for f :: "string \<Rightarrow> ('w, 'h, unit) target_action"
      using none by (auto split: option.splits bool.splits)
    show ?thesis
      unfolding r by (intro wp_rules idle [OF none d1])
  qed
qed (use early in \<open>simp_all add: unchangedD\<close>)

lemmas publisher_wps = stage_wp publish_wp rollback_wp finish_wp discard_stage_wp

end

end
