(* ===== verification/Transaction.thy ===== *)
theory Transaction
  imports Publisher_Laws
begin

text \<open>
  The run over all targets as a transaction. The invariant says where the disk may differ from the disk
  at the start: only in the slots a target still knows as its own. A target that is staged owns its
  stage; one that is published owns its destination and the backup of the previous file; one that is
  settled owns nothing. A run that undoes everything therefore ends with the entries of the start.
\<close>

section \<open>The invariant\<close>

definition stage_slots :: "('h \<Rightarrow> identity) \<Rightarrow> 'h target \<Rightarrow> slot set" where
  "stage_slots rf t = stage_slot rf t ` set_option (stage_name t)"

definition touched :: "('h \<Rightarrow> identity) \<Rightarrow> 'h target \<Rightarrow> slot set" where
  "touched rf t =
     (if \<not> published t then stage_slots rf t
      else if previous t = None then {name_slot rf t}
      else insert (name_slot rf t) (stage_slots rf t))"

definition settled :: "'h target \<Rightarrow> bool" where
  "settled t \<longleftrightarrow> stage_name t = None \<and> \<not> published t"

lemma touched_settled [simp]: "settled t \<Longrightarrow> touched rf t = {}"
  by (simp add: settled_def touched_def stage_slots_def)

text \<open>What a target remembers of the disk at the start.\<close>

definition target_ok :: "('h \<Rightarrow> identity) \<Rightarrow> disk \<Rightarrow> 'h target \<Rightarrow> bool" where
  "target_ok rf d0 t \<longleftrightarrow>
     entries d0 (name_slot rf t) = map_option seal_identity (previous t) \<and>
     (\<forall>sn. stage_name t = Some sn \<longrightarrow> entries d0 (stage_slot rf t sn) = None) \<and>
     (\<forall>seal. staged t = Some seal \<longrightarrow>
        \<not> linked d0 (seal_identity seal) \<and> source_seal (source_bytes t) seal)"

definition base_inv :: "('h \<Rightarrow> identity) \<Rightarrow> disk \<Rightarrow> 'h target list \<Rightarrow> disk \<Rightarrow> bool" where
  "base_inv rf d0 ts d \<longleftrightarrow>
     (\<forall>j<length ts. target_ok rf d0 (ts ! j)) \<and>
     (\<forall>s. (\<forall>j<length ts. s \<notin> touched rf (ts ! j)) \<longrightarrow> entries d s = entries d0 s) \<and>
     (\<forall>i. linked d0 i \<longrightarrow> nodes d i = nodes d0 i) \<and> location d = location d0"

text \<open>The entries and the contents behind them are those of the start.\<close>

definition restored :: "disk \<Rightarrow> disk \<Rightarrow> bool" where
  "restored d0 d \<longleftrightarrow>
     entries d = entries d0 \<and> (\<forall>i. linked d0 i \<longrightarrow> nodes d i = nodes d0 i) \<and> location d = location d0"

lemma base_inv_restored:
  assumes "base_inv rf d0 ts d" "\<And>j. j < length ts \<Longrightarrow> settled (ts ! j)"
  shows "restored d0 d"
  using assms by (simp add: base_inv_def restored_def fun_eq_iff)

lemma base_inv_target: "base_inv rf d0 ts d \<Longrightarrow> j < length ts \<Longrightarrow> target_ok rf d0 (ts ! j)"
  by (simp add: base_inv_def)

lemma base_inv_entries:
  "base_inv rf d0 ts d \<Longrightarrow> (\<And>j. j < length ts \<Longrightarrow> s \<notin> touched rf (ts ! j)) \<Longrightarrow> entries d s = entries d0 s"
  unfolding base_inv_def by blast

lemma base_invI:
  assumes "\<And>j. j < length ts \<Longrightarrow> target_ok rf d0 (ts ! j)"
    and "\<And>s. (\<And>j. j < length ts \<Longrightarrow> s \<notin> touched rf (ts ! j)) \<Longrightarrow> entries d s = entries d0 s"
    and "\<And>i. linked d0 i \<Longrightarrow> nodes d i = nodes d0 i" and "location d = location d0"
  shows "base_inv rf d0 ts d"
  using assms unfolding base_inv_def by blast

lemma base_inv_nodes: "base_inv rf d0 ts d \<Longrightarrow> linked d0 i \<Longrightarrow> nodes d i = nodes d0 i"
  by (simp add: base_inv_def)

lemma base_inv_location: "base_inv rf d0 ts d \<Longrightarrow> location d = location d0"
  by (simp add: base_inv_def)

lemma base_inv_update:
  assumes inv: "base_inv rf d0 ts d" and j: "j < length ts" and ok: "target_ok rf d0 t"
    and again: "\<And>s. s \<notin> touched rf t \<Longrightarrow> s \<in> touched rf (ts ! j) \<Longrightarrow> entries d' s = entries d0 s"
    and stay: "\<And>s. s \<notin> touched rf t \<Longrightarrow> s \<notin> touched rf (ts ! j) \<Longrightarrow> entries d' s = entries d s"
    and nodes: "\<And>i. linked d0 i \<Longrightarrow> nodes d' i = nodes d i" and loc: "location d' = location d"
  shows "base_inv rf d0 (ts[j := t]) d'"
proof -
  have "entries d' s = entries d0 s" if s: "\<And>i. i < length ts \<Longrightarrow> s \<notin> touched rf (ts[j := t] ! i)" for s
  proof (cases "s \<in> touched rf (ts ! j)")
    case True
    then show ?thesis using again s [OF j] j by simp
  next
    case False
    have "s \<notin> touched rf (ts ! i)" if "i < length ts" for i
      using s [OF that] False by (cases "i = j") (simp_all add: nth_list_update)
    then have "entries d s = entries d0 s"
      by (rule base_inv_entries [OF inv])
    then show ?thesis using stay s [OF j] j False by simp
  qed
  moreover have "target_ok rf d0 (ts[j := t] ! i)" if "i < length ts" for i
    using base_inv_target [OF inv that] ok that by (cases "i = j") simp_all
  ultimately show ?thesis
    by (intro base_invI)
      (use nodes loc in \<open>simp_all add: base_inv_nodes [OF inv] base_inv_location [OF inv]\<close>)
qed

lemma base_inv_same:
  assumes "base_inv rf d0 ts d" "entries d' = entries d" "nodes d' = nodes d" "location d' = location d"
  shows "base_inv rf d0 ts d'"
  using assms by (simp add: base_inv_def)

text \<open>While nothing is published every name of the start is still there.\<close>

lemma base_inv_linked:
  assumes inv: "base_inv rf d0 ts d" and unpublished: "\<And>j. j < length ts \<Longrightarrow> \<not> published (ts ! j)"
    and s: "entries d0 s = Some i"
  shows "entries d s = Some i"
proof -
  have "s \<notin> touched rf (ts ! j)" if "j < length ts" for j
    using base_inv_target [OF inv that] unpublished [OF that] s
    by (auto simp: touched_def stage_slots_def target_ok_def)
  then show ?thesis
    using s base_inv_entries [OF inv] by simp
qed

lemma base_inv_unlinked:
  assumes "base_inv rf d0 ts d" "\<And>j. j < length ts \<Longrightarrow> \<not> published (ts ! j)" "\<not> linked d i"
  shows "\<not> linked d0 i"
  using assms(3) base_inv_linked [OF assms(1,2)] unfolding linked_def by blast

lemma base_inv_free:
  assumes "base_inv rf d0 ts d" "\<And>j. j < length ts \<Longrightarrow> \<not> published (ts ! j)" "entries d s = None"
  shows "entries d0 s = None"
  using assms(3) base_inv_linked [OF assms(1,2)] by (cases "entries d0 s") auto

text \<open>The destination and the stage of a target that can be exchanged are different slots.\<close>

lemma ready_slots_differ:
  assumes "ready rf d t sn seal" "target_ok rf d0 t"
  shows "target_name t \<noteq> sn" "map_option seal_identity (previous t) \<noteq> Some (seal_identity seal)"
proof -
  have *: "map_option seal_identity (previous t) \<noteq> Some (seal_identity seal)"
  proof
    assume p: "map_option seal_identity (previous t) = Some (seal_identity seal)"
    then have "entries d0 (name_slot rf t) = Some (seal_identity seal)"
      using assms(2) by (simp add: target_ok_def)
    then have "linked d0 (seal_identity seal)"
      by (rule linkedI)
    then show False
      using assms by (simp add: target_ok_def ready_def)
  qed
  then show "map_option seal_identity (previous t) \<noteq> Some (seal_identity seal)" .
  show "target_name t \<noteq> sn"
    using assms(1) * by (auto simp: ready_def)
qed

section \<open>What every operation keeps of it\<close>

lemma base_inv_exchanged:
  assumes inv: "base_inv rf d0 ts d" and j: "j < length ts" and rd: "ready rf d (ts ! j) sn seal"
    and x: "exchanged rf d (ts ! j) sn seal d'" and up: "\<not> published (ts ! j)"
  shows "base_inv rf d0 (ts[j := (ts ! j)\<lparr>published := True\<rparr>]) d'"
proof -
  let ?t = "ts ! j"
  have e: "entries d' = (entries d)(stage_slot rf ?t sn := map_option seal_identity (previous ?t),
      name_slot rf ?t \<mapsto> seal_identity seal)" "nodes d' = nodes d" "location d' = location d"
    using x by (simp_all add: exchanged_def relinked_def)
  have sn: "stage_name ?t = Some sn" using rd by (simp add: ready_def)
  have free: "entries d0 (stage_slot rf ?t sn) = None"
    using base_inv_target [OF inv j] sn by (simp add: target_ok_def)
  have touched: "touched rf ?t = {stage_slot rf ?t sn}"
    "touched rf (?t\<lparr>published := True\<rparr>) =
       (if previous ?t = None then {name_slot rf ?t} else {name_slot rf ?t, stage_slot rf ?t sn})"
    using up sn by (auto simp: touched_def stage_slots_def)
  show ?thesis
  proof (rule base_inv_update [OF inv j])
    show "target_ok rf d0 (?t\<lparr>published := True\<rparr>)"
      using base_inv_target [OF inv j] by (simp add: target_ok_def)
  next
    fix s assume "s \<notin> touched rf (?t\<lparr>published := True\<rparr>)" "s \<in> touched rf ?t"
    then show "entries d' s = entries d0 s"
      unfolding e touched using free by (cases "previous ?t") auto
  next
    fix s assume "s \<notin> touched rf (?t\<lparr>published := True\<rparr>)" "s \<notin> touched rf ?t"
    then show "entries d' s = entries d s"
      unfolding e touched by (cases "previous ?t") auto
  qed (use e in simp_all)
qed

lemma base_inv_unstaged:
  assumes inv: "base_inv rf d0 ts d" and j: "j < length ts" and sn: "stage_name (ts ! j) = Some sn"
    and r: "relinked d ((entries d)(stage_slot rf (ts ! j) sn := None)) d'" and up: "\<not> published (ts ! j)"
    and t: "t = (ts ! j)\<lparr>stage_name := None, staged := None, published := False\<rparr> \<or>
            t = (ts ! j)\<lparr>stage_name := None, provisional_stage := None, staged := None\<rparr>"
  shows "base_inv rf d0 (ts[j := t]) d'"
proof (rule base_inv_update [OF inv j])
  show "target_ok rf d0 t"
    using base_inv_target [OF inv j] t by (auto simp: target_ok_def)
next
  fix s
  assume "s \<in> touched rf (ts ! j)"
  then have "s = stage_slot rf (ts ! j) sn"
    using up sn by (auto simp: touched_def stage_slots_def)
  then show "entries d' s = entries d0 s"
    using r sn base_inv_target [OF inv j] by (simp add: relinked_def target_ok_def)
next
  fix s
  assume "s \<notin> touched rf (ts ! j)"
  then show "entries d' s = entries d s"
    using r sn up by (auto simp: relinked_def touched_def stage_slots_def)
qed (use r in \<open>simp_all add: relinked_def\<close>)

lemma base_inv_rolled_back:
  assumes inv: "base_inv rf d0 ts d" and j: "j < length ts" and pub: "published (ts ! j)"
    and r: "(\<exists>prev sn. previous (ts ! j) = Some prev \<and> stage_name (ts ! j) = Some sn \<and>
        relinked d ((entries d)(name_slot rf (ts ! j) \<mapsto> seal_identity prev, stage_slot rf (ts ! j) sn := None)) d') \<or>
      previous (ts ! j) = None \<and> relinked d ((entries d)(name_slot rf (ts ! j) := None)) d'"
  shows "base_inv rf d0 (ts[j := (ts ! j)\<lparr>stage_name := None, staged := None, published := False\<rparr>]) d'"
proof (rule base_inv_update [OF inv j])
  show "target_ok rf d0 ((ts ! j)\<lparr>stage_name := None, staged := None, published := False\<rparr>)"
    using base_inv_target [OF inv j] by (simp add: target_ok_def)
next
  fix s
  assume s: "s \<in> touched rf (ts ! j)"
  from r show "entries d' s = entries d0 s"
    by (elim disjE exE conjE) (use s pub base_inv_target [OF inv j] in
      \<open>auto simp: relinkedD(1) touched_def stage_slots_def target_ok_def\<close>)
next
  fix s
  assume s: "s \<notin> touched rf (ts ! j)"
  from r show "entries d' s = entries d s"
    by (elim disjE exE conjE) (use s pub in \<open>auto simp: relinkedD(1) touched_def stage_slots_def\<close>)
qed (use r in \<open>auto simp: relinked_def\<close>)

context file_system
begin

text \<open>Roll backs and discards that succeed settle their target.\<close>

abbreviation settled_at :: "nat set \<Rightarrow> 'h target list \<Rightarrow> bool" where
  "settled_at D ts \<equiv> (\<forall>i<length ts. i \<in> D \<longrightarrow> settled (ts ! i))"

lemma settled_at_update:
  "settled_at D ts \<Longrightarrow> settled t \<Longrightarrow> settled_at (insert j D) (ts[j := t])"
  by (metis insert_iff length_list_update nth_list_update_eq nth_list_update_neq)

lemma unpublished_update:
  "\<not> published t \<Longrightarrow> \<not> published (ts ! i) \<Longrightarrow> \<not> published (ts[j := t] ! i)"
  by (metis list_update_beyond not_le nth_list_update_eq nth_list_update_neq)

lemma undo_rollback:
  assumes inv: "base_inv refers d0 ts (dsk p)" and j: "j < length ts" and D: "settled_at D ts"
  shows "wp (at_index j (rollback k))
    (\<lambda>_ (ts', p'). length ts' = length ts \<and> base_inv refers d0 ts' (dsk p') \<and> settled_at (insert j D) ts' \<and>
       (\<forall>i. \<not> published (ts ! i) \<longrightarrow> \<not> published (ts' ! i)))
    (\<lambda>_ _. True) (ts, p)"
proof (intro wp_at_indexI rollback_wp)
  fix sn prev p'
  assume a: "published (ts ! j)" "stage_name (ts ! j) = Some sn" "previous (ts ! j) = Some prev"
    "relinked (dsk p) ((entries (dsk p))(name_slot refers (ts ! j) \<mapsto> seal_identity prev,
       stage_slot refers (ts ! j) sn := None)) (dsk p')"
  have "base_inv refers d0 (ts[j := rolled_back (ts ! j)]) (dsk p')"
    by (rule base_inv_rolled_back [OF inv j a(1)]) (use a in blast)
  then show "case (rolled_back (ts ! j), p') of (t, p') \<Rightarrow>
      case (ts[j := t], p') of (ts', p') \<Rightarrow> length ts' = length ts \<and> base_inv refers d0 ts' (dsk p') \<and>
        settled_at (insert j D) ts' \<and> (\<forall>i. \<not> published (ts ! i) \<longrightarrow> \<not> published (ts' ! i))"
    using settled_at_update [OF D, of "rolled_back (ts ! j)" j] by (simp add: settled_def unpublished_update)
next
  fix p'
  assume a: "published (ts ! j)" "previous (ts ! j) = None"
    "relinked (dsk p) ((entries (dsk p))(name_slot refers (ts ! j) := None)) (dsk p')"
  have "base_inv refers d0 (ts[j := rolled_back (ts ! j)]) (dsk p')"
    by (rule base_inv_rolled_back [OF inv j a(1)]) (use a in blast)
  then show "case (rolled_back (ts ! j), p') of (t, p') \<Rightarrow>
      case (ts[j := t], p') of (ts', p') \<Rightarrow> length ts' = length ts \<and> base_inv refers d0 ts' (dsk p') \<and>
        settled_at (insert j D) ts' \<and> (\<forall>i. \<not> published (ts ! i) \<longrightarrow> \<not> published (ts' ! i))"
    using settled_at_update [OF D, of "rolled_back (ts ! j)" j] by (simp add: settled_def unpublished_update)
qed simp_all

lemma undo_discard:
  assumes inv: "base_inv refers d0 ts (dsk p)" and j: "j < length ts" and D: "settled_at D ts"
    and up: "\<not> published (ts ! j)"
  shows "wp (at_index j (discard_stage k))
    (\<lambda>_ (ts', p'). length ts' = length ts \<and> base_inv refers d0 ts' (dsk p') \<and> settled_at (insert j D) ts' \<and>
       (\<forall>i. \<not> published (ts ! i) \<longrightarrow> \<not> published (ts' ! i)))
    (\<lambda>_ _. True) (ts, p)"
proof (intro wp_at_indexI discard_stage_wp)
  fix p' assume a: "published (ts ! j) \<or> stage_name (ts ! j) = None" "dsk p' = dsk p"
  then have "settled (ts ! j)" using up by (simp add: settled_def)
  then show "case (ts ! j, p') of (t, p') \<Rightarrow>
      case (ts[j := t], p') of (ts', p') \<Rightarrow> length ts' = length ts \<and> base_inv refers d0 ts' (dsk p') \<and>
        settled_at (insert j D) ts' \<and> (\<forall>i. \<not> published (ts ! i) \<longrightarrow> \<not> published (ts' ! i))"
    using settled_at_update [OF D, of "ts ! j" j] inv a by simp
next
  fix sn p'
  let ?t = "(ts ! j)\<lparr>stage_name := None, provisional_stage := None, staged := None\<rparr>"
  assume a: "stage_name (ts ! j) = Some sn"
    "relinked (dsk p) ((entries (dsk p))(stage_slot refers (ts ! j) sn := None)) (dsk p')"
  have "base_inv refers d0 (ts[j := ?t]) (dsk p')"
    by (rule base_inv_unstaged [OF inv j a up]) simp
  then show "case (?t, p') of (t, p') \<Rightarrow>
      case (ts[j := t], p') of (ts', p') \<Rightarrow> length ts' = length ts \<and> base_inv refers d0 ts' (dsk p') \<and>
        settled_at (insert j D) ts' \<and> (\<forall>i. \<not> published (ts ! i) \<longrightarrow> \<not> published (ts' ! i))"
    using settled_at_update [OF D, of ?t j] up by (simp add: settled_def unpublished_update)
qed simp_all

text \<open>The invariant of undoing: \<open>D\<close> are the targets that are settled already, those from \<open>m\<close> on are not
  published.\<close>

definition undoing :: "disk \<Rightarrow> nat \<Rightarrow> nat \<Rightarrow> nat set \<Rightarrow> 'h target list \<times> 'w prog \<Rightarrow> bool" where
  "undoing d0 n m D = (\<lambda>(ts, p). length ts = n \<and> base_inv refers d0 ts (dsk p) \<and> settled_at D ts \<and>
     (\<forall>i<n. m \<le> i \<longrightarrow> \<not> published (ts ! i)))"

lemma undoing_rollback:
  assumes "undoing d0 n m D s" "j < n"
  shows "wp (at_index j (rollback k)) (\<lambda>_. undoing d0 n m (insert j D)) (\<lambda>_ _. True) s"
proof (cases s)
  case (Pair ts p)
  with assms have a: "base_inv refers d0 ts (dsk p)" "j < length ts" "settled_at D ts" "length ts = n"
    "\<forall>i<n. m \<le> i \<longrightarrow> \<not> published (ts ! i)"
    by (simp_all add: undoing_def)
  show ?thesis
    unfolding Pair
    by (rule wp_mono [OF undo_rollback [OF a(1-3)]]) (use a(4,5) assms(2) in \<open>auto simp: undoing_def settled_def\<close>)
qed

lemma undoing_discard:
  assumes "undoing d0 n m D s" "j < n" "m \<le> j"
  shows "wp (at_index j (discard_stage k)) (\<lambda>_. undoing d0 n m (insert j D)) (\<lambda>_ _. True) s"
proof (cases s)
  case (Pair ts p)
  with assms have a: "base_inv refers d0 ts (dsk p)" "j < length ts" "settled_at D ts" "length ts = n"
    "\<forall>i<n. m \<le> i \<longrightarrow> \<not> published (ts ! i)"
    by (simp_all add: undoing_def)
  have up: "\<not> published (ts ! j)" using a(4,5) assms(2,3) by simp
  show ?thesis
    unfolding Pair
    by (rule wp_mono [OF undo_discard [OF a(1-3) up]]) (use a(4,5) assms(2) in \<open>auto simp: undoing_def settled_def\<close>)
qed

lemma undoing_discards:
  assumes "run_all (map (\<lambda>j. at_index j (discard_stage k)) js) s = Some s'" "undoing d0 n m D s"
    "\<And>j. j \<in> set js \<Longrightarrow> j < n \<and> m \<le> j"
  shows "undoing d0 n m (set js \<union> D) s'"
  by (rule run_all_indices [where I = "undoing d0 n m", OF assms(1,2)]) (use assms(3) undoing_discard in auto)

lemma undoing_rollbacks:
  assumes "run_all (map (\<lambda>j. at_index j (rollback k)) js) s = Some s'" "undoing d0 n m D s"
    "\<And>j. j \<in> set js \<Longrightarrow> j < n"
  shows "undoing d0 n m (set js \<union> D) s'"
  by (rule run_all_indices [where I = "undoing d0 n m", OF assms(1,2)]) (use assms(3) undoing_rollback in auto)

lemma undoing_restored:
  assumes "undoing d0 n m D (ts, p)" "{..<n} \<subseteq> D"
  shows "restored d0 (dsk p)"
  using assms by (auto simp: undoing_def intro!: base_inv_restored)

section \<open>A failed publication is undone\<close>

text \<open>An error that lists the errors of an incomplete clean-up.\<close>

abbreviation incomplete :: "publish_error \<Rightarrow> bool" where
  "incomplete e \<equiv> (\<exists>e0 what es. e = Joined e0 what es \<and> es \<noteq> [])"

abbreviation undone_or_incomplete :: "disk \<Rightarrow> publish_error \<Rightarrow> 'h target list \<times> 'w prog \<Rightarrow> bool" where
  "undone_or_incomplete d0 e s \<equiv> restored d0 (dsk (snd s)) \<or> incomplete e"

lemma stage_failed_wp:
  assumes "undoing d0 n 0 {} s"
  shows "wp (stage_failed k e) Q (undone_or_incomplete d0) s"
proof (cases s)
  case (Pair ts p)
  then have n: "length ts = n" using assms by (simp add: undoing_def)
  show ?thesis
    unfolding stage_failed_def Pair
  proof (intro wp_with_selfI wp_bindI wp_collectI wp_failI)
    fix s' assume "run_all (map (\<lambda>j. at_index j (discard_stage k)) [0..<length ts]) (ts, p) = Some s'"
    from undoing_discards [OF this, of d0 n 0 "{}"] assms Pair n
    have "undoing d0 n 0 {..<n} s'" by (simp add: lessThan_atLeast0)
    then have "restored d0 (dsk (snd s'))"
      by (cases s') (auto intro: undoing_restored)
    then show "undone_or_incomplete d0 (if [] = [] then e
        else Joined e ''; staged-file cleanup was incomplete: '' []) s'" ..
  qed simp
qed

text \<open>A roll back that got stuck does not succeed when it is tried again.\<close>

definition stuck :: "nat \<Rightarrow> 'h target list \<times> 'w prog \<Rightarrow> bool" where
  "stuck j = (\<lambda>(ts, p). j < length ts \<and> published (ts ! j) \<and>
     entries (dsk p) (name_slot refers (ts ! j)) \<noteq> map_option seal_identity (staged (ts ! j)))"

lemma stuck_rollback:
  assumes "stuck j (ts, p)"
  shows "wp (at_index j (rollback k)) (\<lambda>_ _. False) (\<lambda>_ _. True) (ts, p)"
  by (intro wp_at_indexI rollback_wp) (use assms in \<open>auto simp: stuck_def\<close>)

text \<open>The first of the clean-up actions takes the failed target's own exchange back.\<close>

lemma own_exchange_undone:
  assumes "undoing d0 n (Suc j) {} (ts, p) \<or> stuck j (ts, p)" "j < n"
    and run: "run_all (if published (ts ! j) then [at_index j (rollback k)] else []) (ts, p) = Some s1"
  shows "undoing d0 n j {} s1"
proof (cases "published (ts ! j)")
  case True
  then obtain x where x: "at_index j (rollback k) (ts, p) = (Inr x, s1)"
    using run by (auto split: prod.splits sum.splits)
  then have "undoing d0 n (Suc j) {} (ts, p)"
    using assms(1) wp_InrD [OF stuck_rollback x] by blast
  from wp_InrD [OF undoing_rollback [OF this assms(2)] x]
  have u1: "undoing d0 n (Suc j) {j} s1" .
  obtain ts1 p1 where e: "s1 = (ts1, p1)" by fastforce
  have "\<not> published (ts1 ! i)" if "i < n" "j \<le> i" for i
    using u1 that assms(2) unfolding e undoing_def
    by (cases "i = j") (auto simp: settled_def)
  then show ?thesis
    using u1 by (simp add: e undoing_def)
next
  case False
  then have u: "undoing d0 n (Suc j) {} (ts, p)"
    using assms(1) by (auto simp: stuck_def)
  have "\<not> published (ts ! i)" if "i < n" "j \<le> i" for i
    using u that False unfolding undoing_def by (cases "i = j") auto
  then show ?thesis
    using u run False by (auto simp: undoing_def)
qed

lemma publish_failed_wp:
  assumes "undoing d0 n (Suc j) {} s \<or> stuck j s" "j < n" "length (fst s) = n"
  shows "wp (publish_failed k j e) Q (undone_or_incomplete d0) s"
proof (cases s)
  case (Pair ts p)
  have n: "length ts = n" using assms(3) Pair by simp
  have "restored d0 (dsk (snd s'))" if run: "run_all (undo_actions k j ts) (ts, p) = Some s'" for s'
  proof -
    obtain s1 s2
      where s1: "run_all (if published (ts ! j) then [at_index j (rollback k)] else []) (ts, p) = Some s1"
      and s2: "run_all (map (\<lambda>j. at_index j (rollback k)) (rev [0..<j])) s1 = Some s2"
      and s3: "run_all (map (\<lambda>j. at_index j (discard_stage k)) [j..<length ts]) s2 = Some s'"
      using run by (auto simp: undo_actions_def run_all_append split: option.splits)
    from assms(1) have "undoing d0 n j {} s1"
      unfolding Pair by (rule own_exchange_undone [OF _ assms(2) s1])
    from undoing_rollbacks [OF s2 this] assms(2)
    have "undoing d0 n j {..<j} s2" by (simp add: lessThan_atLeast0)
    from undoing_discards [OF s3 this] n
    have "undoing d0 n j ({j..<n} \<union> {..<j}) s'" by simp
    then show ?thesis
      by (cases s') (auto intro: undoing_restored)
  qed
  then show ?thesis
    unfolding publish_failed_def Pair
    by (intro wp_with_selfI wp_bindI wp_collectI wp_failI) auto
qed

end

end
