(* ===== verification/Publish_Safety.thy ===== *)
theory Publish_Safety
  imports Transaction
begin

text \<open>
  What holds however publishing ends, also when its clean-up fails: no file that had a name is lost.
\<close>

context file_system
begin

section \<open>Nothing is lost\<close>

text \<open>Every name of the start still names its unchanged object, or is a destination with a complete new
  file. This holds however the run ends, and so, because a machine that stops is one whose calls fail,
  at every moment.\<close>

abbreviation new_file_at :: "disk \<Rightarrow> disk \<Rightarrow> 'h target \<Rightarrow> bool" where
  "new_file_at d0 d t \<equiv>
     (\<exists>f. \<not> linked d0 f \<and> entries d (name_slot refers t) = Some f \<and> complete d f (source_bytes t))"

definition nothing_lost :: "disk \<Rightarrow> 'h target list \<Rightarrow> disk \<Rightarrow> bool" where
  "nothing_lost d0 ts0 d \<longleftrightarrow>
     (\<forall>s i. entries d0 s = Some i \<longrightarrow>
        entries d s = Some i \<or> (\<exists>t\<in>set ts0. s = name_slot refers t \<and> new_file_at d0 d t)) \<and>
     (\<forall>i. linked d0 i \<longrightarrow> nodes d i = nodes d0 i)"

lemma nothing_lostI:
  assumes "\<And>s i. entries d0 s = Some i \<Longrightarrow>
      entries d s = Some i \<or> (\<exists>t\<in>set ts0. s = name_slot refers t \<and> new_file_at d0 d t)"
    and "\<And>i. linked d0 i \<Longrightarrow> nodes d i = nodes d0 i"
  shows "nothing_lost d0 ts0 d"
  using assms unfolding nothing_lost_def by blast

lemma nothing_lost_kept:
  assumes lost: "nothing_lost d0 ts0 d" and kept: "kept_except T d d'"
    and T: "\<And>x. x \<in> T \<Longrightarrow> entries d0 x = None \<or> entries d' x = entries d0 x"
  shows "nothing_lost d0 ts0 d'"
proof (rule nothing_lostI)
  have n: "nodes d' = nodes d" using kept by (simp add: kept_except_def)
  have e: "entries d' s = Some i" if "s \<notin> T" "entries d s = Some i" for s i
    using kept that unfolding kept_except_def by blast
  show "nodes d' i = nodes d0 i" if "linked d0 i" for i
    using lost that by (simp add: nothing_lost_def n)
  fix s i assume s: "entries d0 s = Some i"
  show "entries d' s = Some i \<or> (\<exists>t\<in>set ts0. s = name_slot refers t \<and> new_file_at d0 d' t)"
  proof (cases "s \<in> T")
    case True
    then show ?thesis using T [of s] s by simp
  next
    case False
    consider "entries d s = Some i" | t where "t \<in> set ts0" "s = name_slot refers t" "new_file_at d0 d t"
      using lost s unfolding nothing_lost_def by blast
    then show ?thesis
    proof cases
      case 1
      then show ?thesis using e [OF False] by simp
    next
      case (2 t)
      then obtain f where f: "\<not> linked d0 f" "entries d s = Some f" "complete d f (source_bytes t)" by auto
      then have "new_file_at d0 d' t"
        using e [OF False f(2)] 2(2) by (auto simp: complete_def n)
      then show ?thesis using 2 by blast
    qed
  qed
qed

lemma nothing_lost_exchanged:
  assumes lost: "nothing_lost d0 ts0 d" and x: "exchanged refers d t sn seal d'"
    and t: "t0 \<in> set ts0" "name_slot refers t = name_slot refers t0" "target_name t \<noteq> sn"
    and new: "\<not> linked d0 (seal_identity seal)" "complete d (seal_identity seal) (source_bytes t0)"
    and free: "entries d0 (stage_slot refers t sn) = None"
  shows "nothing_lost d0 ts0 d'"
proof (rule nothing_lostI)
  have n: "nodes d' = nodes d"
    and e: "entries d' = (entries d)(stage_slot refers t sn := map_option seal_identity (previous t),
      name_slot refers t \<mapsto> seal_identity seal)"
    using x by (simp_all add: exchanged_def relinked_def)
  show "nodes d' i = nodes d0 i" if "linked d0 i" for i
    using lost that by (simp add: nothing_lost_def n)
  fix s i assume s: "entries d0 s = Some i"
  show "entries d' s = Some i \<or> (\<exists>t\<in>set ts0. s = name_slot refers t \<and> new_file_at d0 d' t)"
  proof (cases "s = name_slot refers t0")
    case True
    have "entries d' (name_slot refers t0) = Some (seal_identity seal)" unfolding e t(2) [symmetric] by simp
    then have "new_file_at d0 d' t0" using new by (auto simp: complete_def n)
    with True t(1) show ?thesis by blast
  next
    case False
    moreover have "s \<noteq> stage_slot refers t sn" using s free by auto
    ultimately have same: "entries d' s = entries d s" unfolding e t(2) by (simp only: fun_upd_apply if_False)
    consider "entries d s = Some i" | u where "u \<in> set ts0" "s = name_slot refers u" "new_file_at d0 d u"
      using lost s unfolding nothing_lost_def by blast
    then show ?thesis
    proof cases
      case (2 u)
      then have "new_file_at d0 d' u" using same by (simp add: complete_def n)
      with 2 show ?thesis by blast
    qed (simp add: same)
  qed
qed

text \<open>The invariant of undoing, whatever fails.\<close>

definition undo_safe :: "disk \<Rightarrow> 'h target list \<Rightarrow> 'h target list \<times> 'w prog \<Rightarrow> bool" where
  "undo_safe d0 ts0 = (\<lambda>(ts, p).
     length ts = length ts0 \<and> nothing_lost d0 ts0 (dsk p) \<and>
     (\<forall>i<length ts. entries d0 (name_slot refers (ts ! i)) = map_option seal_identity (previous (ts ! i)) \<and>
        (\<forall>sn. stage_name (ts ! i) = Some sn \<longrightarrow> entries d0 (stage_slot refers (ts ! i) sn) = None)))"

lemma undo_safe_update:
  assumes safe: "undo_safe d0 ts0 (ts, p)" and lost: "nothing_lost d0 ts0 (dsk p')"
    and t: "directory t = directory (ts ! j)" "target_name t = target_name (ts ! j)" "previous t = previous (ts ! j)"
      "stage_name t = None \<or> stage_name t = stage_name (ts ! j)"
  shows "undo_safe d0 ts0 (ts[j := t], p')"
  unfolding undo_safe_def prod.case
proof (intro conjI allI impI)
  fix i assume i: "i < length (ts[j := t])"
  then have old: "entries d0 (name_slot refers (ts ! i)) = map_option seal_identity (previous (ts ! i))"
    "\<And>sn. stage_name (ts ! i) = Some sn \<Longrightarrow> entries d0 (stage_slot refers (ts ! i) sn) = None"
    using safe by (simp_all add: undo_safe_def)
  show "entries d0 (name_slot refers (ts[j := t] ! i)) = map_option seal_identity (previous (ts[j := t] ! i))"
    using old(1) i t by (cases "i = j") simp_all
  fix sn assume "stage_name (ts[j := t] ! i) = Some sn"
  then show "entries d0 (stage_slot refers (ts[j := t] ! i) sn) = None"
    using old(2) [of sn] i t by (cases "i = j") auto
qed (use safe lost in \<open>simp_all add: undo_safe_def\<close>)

lemma undo_safe_step:
  assumes safe: "undo_safe d0 ts0 (ts, p)" and kept: "kept_except T (dsk p) (dsk p')"
    and T: "\<And>x. x \<in> T \<Longrightarrow> entries d0 x = None \<or> entries (dsk p') x = entries d0 x"
    and t: "directory t = directory (ts ! j)" "target_name t = target_name (ts ! j)" "previous t = previous (ts ! j)"
      "stage_name t = None \<or> stage_name t = stage_name (ts ! j)"
  shows "undo_safe d0 ts0 (ts[j := t], p')"
proof (rule undo_safe_update [OF safe _ t])
  have "nothing_lost d0 ts0 (dsk p)" using safe by (simp add: undo_safe_def)
  then show "nothing_lost d0 ts0 (dsk p')" by (rule nothing_lost_kept [OF _ kept T])
qed

lemma undo_safe_at:
  assumes "undo_safe d0 ts0 (ts, p)" "j < length ts"
  shows "entries d0 (name_slot refers (ts ! j)) = map_option seal_identity (previous (ts ! j))"
    and "stage_name (ts ! j) = Some sn \<Longrightarrow> entries d0 (stage_slot refers (ts ! j) sn) = None"
  using assms by (simp_all add: undo_safe_def)

lemma undo_safe_rollback:
  assumes safe: "undo_safe d0 ts0 (ts, p)" and j: "j < length ts"
  shows "wp (at_index j (rollback k)) (\<lambda>_. undo_safe d0 ts0) (\<lambda>_. undo_safe d0 ts0) (ts, p)"
proof (intro wp_at_indexI rollback_wp)
  note at = undo_safe_at [OF safe j]
  fix sn prev p'
  assume a: "stage_name (ts ! j) = Some sn" "previous (ts ! j) = Some prev"
    and r: "relinked (dsk p) ((entries (dsk p))(name_slot refers (ts ! j) \<mapsto> seal_identity prev,
      stage_slot refers (ts ! j) sn := None)) (dsk p')"
  have differ: "name_slot refers (ts ! j) \<noteq> stage_slot refers (ts ! j) sn"
    using at(1) at(2) [OF a(1)] a(2) by auto
  have "undo_safe d0 ts0 (ts[j := rolled_back (ts ! j)], p')"
  proof (rule undo_safe_step [OF safe])
    show "kept_except {name_slot refers (ts ! j), stage_slot refers (ts ! j) sn} (dsk p) (dsk p')"
      using r by (rule relinked_kept) simp
  qed (use at a differ r in \<open>auto simp: relinkedD(1)\<close>)
  then show "case (rolled_back (ts ! j), p') of (t, p') \<Rightarrow> undo_safe d0 ts0 (ts[j := t], p')" by simp
next
  note at = undo_safe_at [OF safe j]
  fix p' assume a: "previous (ts ! j) = None"
    and r: "relinked (dsk p) ((entries (dsk p))(name_slot refers (ts ! j) := None)) (dsk p')"
  have "undo_safe d0 ts0 (ts[j := rolled_back (ts ! j)], p')"
  proof (rule undo_safe_step [OF safe])
    show "kept_except {name_slot refers (ts ! j)} (dsk p) (dsk p')"
      using r by (rule relinked_kept) simp
  qed (use at a in auto)
  then show "case (rolled_back (ts ! j), p') of (t, p') \<Rightarrow> undo_safe d0 ts0 (ts[j := t], p')" by simp
next
  fix p' assume d: "dsk p' = dsk p"
  have "undo_safe d0 ts0 (ts[j := ts ! j], p')"
    by (rule undo_safe_step [OF safe, of "{}"]) (use d in simp_all)
  then show "case (ts ! j, p') of (t, p') \<Rightarrow> undo_safe d0 ts0 (ts[j := t], p')" by simp
next
  note at = undo_safe_at [OF safe j]
  fix sn prev p'
  assume a: "stage_name (ts ! j) = Some sn" "previous (ts ! j) = Some prev"
    and e: "entries (dsk p') (name_slot refers (ts ! j)) = Some (seal_identity prev) \<or> target_name (ts ! j) = sn"
    and kept: "kept_except {name_slot refers (ts ! j), stage_slot refers (ts ! j) sn} (dsk p) (dsk p')"
  have "target_name (ts ! j) \<noteq> sn" using at(1) at(2) [OF a(1)] a(2) by auto
  then have "undo_safe d0 ts0 (ts[j := ts ! j], p')"
    by (intro undo_safe_step [OF safe kept]) (use at a e in auto)
  then show "case (ts ! j, p') of (t, p') \<Rightarrow> undo_safe d0 ts0 (ts[j := t], p')" by simp
next
  note at = undo_safe_at [OF safe j]
  fix p' assume a: "previous (ts ! j) = None" and kept: "kept_except {name_slot refers (ts ! j)} (dsk p) (dsk p')"
  have "undo_safe d0 ts0 (ts[j := ts ! j], p')"
    by (rule undo_safe_step [OF safe kept]) (use at a in auto)
  then show "case (ts ! j, p') of (t, p') \<Rightarrow> undo_safe d0 ts0 (ts[j := t], p')" by simp
qed

lemma undo_safe_discard:
  assumes safe: "undo_safe d0 ts0 (ts, p)" and j: "j < length ts"
  shows "wp (at_index j (discard_stage k)) (\<lambda>_. undo_safe d0 ts0) (\<lambda>_. undo_safe d0 ts0) (ts, p)"
proof -
  have idle: "undo_safe d0 ts0 (ts[j := ts ! j], p')" if "dsk p' = dsk p" for p'
    by (rule undo_safe_step [OF safe, of "{}"]) (use that in simp_all)
  have gone: "undo_safe d0 ts0 (ts[j := t], p')"
    if "stage_name (ts ! j) = Some sn" "kept_except {stage_slot refers (ts ! j) sn} (dsk p) (dsk p')"
      "t = ts ! j \<or> t = (ts ! j)\<lparr>stage_name := None, provisional_stage := None, staged := None\<rparr>" for sn t p'
    by (rule undo_safe_step [OF safe that(2)]) (use undo_safe_at [OF safe j] that(1,3) in auto)
  have stay: "undo_safe d0 ts0 (ts, p')"
    if "stage_name (ts ! j) = Some sn" "kept_except {stage_slot refers (ts ! j) sn} (dsk p) (dsk p')" for sn p'
    using gone [OF that, of "ts ! j"] by simp
  show ?thesis
  proof (intro wp_at_indexI discard_stage_wp)
    fix sn p'
    let ?t = "(ts ! j)\<lparr>stage_name := None, provisional_stage := None, staged := None\<rparr>"
    assume sn: "stage_name (ts ! j) = Some sn"
      and r: "relinked (dsk p) ((entries (dsk p))(stage_slot refers (ts ! j) sn := None)) (dsk p')"
    have "kept_except {stage_slot refers (ts ! j) sn} (dsk p) (dsk p')"
      using r by (rule relinked_kept) simp
    from gone [OF sn this] show "case (?t, p') of (t, p') \<Rightarrow> undo_safe d0 ts0 (ts[j := t], p')" by simp
  qed (use idle stay in simp_all)
qed

text \<open>Undoing what was staged or published.\<close>

lemma stage_failed_safe:
  assumes "undo_safe d0 ts0 s"
  shows "wp (stage_failed k e) Q (\<lambda>_. undo_safe d0 ts0) s"
proof (cases s)
  case (Pair ts p)
  have n: "length ts = length ts0" using assms Pair by (simp add: undo_safe_def)
  show ?thesis
    unfolding stage_failed_def Pair
  proof (intro wp_with_selfI wp_bindI wp_collect_invariant [where I = "undo_safe d0 ts0"] wp_failI)
    fix m s' assume m: "m \<in> set (map (\<lambda>j. at_index j (discard_stage k)) [0..<length ts])" and s': "undo_safe d0 ts0 s'"
    obtain ts' p' where e: "s' = (ts', p')" by fastforce
    have n': "length ts' = length ts0" using s' e by (simp add: undo_safe_def)
    from m obtain i where i: "i < length ts'" "m = at_index i (discard_stage k)"
      using n n' by auto
    then show "wp m (\<lambda>_. undo_safe d0 ts0) (\<lambda>_. undo_safe d0 ts0) s'"
      using undo_safe_discard [OF s' [unfolded e] i(1)] e by simp
  qed (use assms Pair in simp_all)
qed

lemma publish_failed_safe:
  assumes safe: "undo_safe d0 ts0 s" and j: "j < length ts0"
  shows "wp (publish_failed k j e) Q (\<lambda>_. undo_safe d0 ts0) s"
proof (cases s)
  case (Pair ts p)
  have n: "length ts = length ts0" using safe Pair by (simp add: undo_safe_def)
  show ?thesis
    unfolding publish_failed_def Pair
  proof (intro wp_with_selfI wp_bindI wp_collect_invariant [where I = "undo_safe d0 ts0"] wp_failI)
    fix m s' assume m: "m \<in> set (undo_actions k j ts)" and s': "undo_safe d0 ts0 s'"
    obtain ts' p' where e: "s' = (ts', p')" by fastforce
    have n': "length ts' = length ts0" using s' e by (simp add: undo_safe_def)
    have "\<exists>i<length ts'. m = at_index i (rollback k) \<or> m = at_index i (discard_stage k)"
    proof -
      have "m = at_index j (rollback k) \<or> (\<exists>i<j. m = at_index i (rollback k)) \<or>
          (\<exists>i<length ts. m = at_index i (discard_stage k))"
        using m unfolding undo_actions_def by (auto split: if_splits)
      then show ?thesis using j n n' by (metis less_trans)
    qed
    then obtain i where i: "i < length ts'" "m = at_index i (rollback k) \<or> m = at_index i (discard_stage k)"
      by blast
    then show "wp m (\<lambda>_. undo_safe d0 ts0) (\<lambda>_. undo_safe d0 ts0) s'"
      using undo_safe_rollback [OF s' [unfolded e] i(1)] undo_safe_discard [OF s' [unfolded e] i(1)] e by auto
  qed (use safe Pair in simp_all)
qed

end

end
