(* ===== verification/Publish_Run.thy ===== *)
theory Publish_Run
  imports Publish_Safety
begin

text \<open>
  The three phases of a publishing run, each with its own invariant beside \<open>base_inv\<close>: staging, where
  nothing of the start is touched, publishing, where the published targets already hold their new files,
  and finishing, where the backups go.
\<close>

section \<open>Targets over a run\<close>

definition same_target :: "'h target \<Rightarrow> 'h target \<Rightarrow> bool" where
  "same_target t t0 \<longleftrightarrow>
     directory t = directory t0 \<and> target_name t = target_name t0 \<and>
     display_path t = display_path t0 \<and> source_bytes t = source_bytes t0 \<and> previous t = previous t0"

text \<open>A target as \<open>prepare_with_directory\<close> makes it.\<close>

definition fresh_target :: "('h \<Rightarrow> identity) \<Rightarrow> disk \<Rightarrow> 'h target \<Rightarrow> bool" where
  "fresh_target rf d0 t \<longleftrightarrow>
     stage_name t = None \<and> provisional_stage t = None \<and> staged t = None \<and> \<not> published t \<and>
     entries d0 (name_slot rf t) = map_option seal_identity (previous t) \<and>
     (\<forall>prev. previous t = Some prev \<longrightarrow> matches d0 prev)"

definition staged_identity :: "'h target \<Rightarrow> identity option" where
  "staged_identity t = map_option seal_identity (staged t)"

definition staged_at :: "('h \<Rightarrow> identity) \<Rightarrow> disk \<Rightarrow> 'h target \<Rightarrow> bool" where
  "staged_at rf d t \<longleftrightarrow>
     (\<exists>sn seal. stage_name t = Some sn \<and> staged t = Some seal \<and>
        entries d (stage_slot rf t sn) = Some (seal_identity seal))"

text \<open>The destination holds the new file, and the stage the previous one.\<close>

definition backup_at :: "('h \<Rightarrow> identity) \<Rightarrow> disk \<Rightarrow> 'h target \<Rightarrow> bool" where
  "backup_at rf d t \<longleftrightarrow>
     (\<forall>prev sn. previous t = Some prev \<longrightarrow> stage_name t = Some sn \<longrightarrow>
        entries d (stage_slot rf t sn) = Some (seal_identity prev))"

definition published_at :: "('h \<Rightarrow> identity) \<Rightarrow> disk \<Rightarrow> 'h target \<Rightarrow> bool" where
  "published_at rf d t \<longleftrightarrow> backup_at rf d t \<and>
     (\<exists>i. staged_identity t = Some i \<and> entries d (name_slot rf t) = Some i \<and>
        complete d i (source_bytes t))"

lemma same_target_slot: "same_target t t0 \<Longrightarrow> name_slot rf t = name_slot rf t0"
  by (simp add: same_target_def)

lemma published_atI:
  "staged t = Some seal \<Longrightarrow> entries d (name_slot rf t) = Some (seal_identity seal) \<Longrightarrow>
     complete d (seal_identity seal) (source_bytes t) \<Longrightarrow> backup_at rf d t \<Longrightarrow> published_at rf d t"
  by (simp add: published_at_def staged_identity_def)

lemma published_at_kept:
  assumes "published_at rf d t" "nodes d' = nodes d" "entries d' (name_slot rf t) = entries d (name_slot rf t)"
    and "\<And>sn. previous t \<noteq> None \<Longrightarrow> stage_name t = Some sn \<Longrightarrow>
      entries d' (stage_slot rf t sn) = entries d (stage_slot rf t sn)"
  shows "published_at rf d' t"
  using assms by (simp add: published_at_def complete_def backup_at_def)

text \<open>Two targets never stage under the same name.\<close>

definition stages_apart :: "('h \<Rightarrow> identity) \<Rightarrow> 'h target list \<Rightarrow> bool" where
  "stages_apart rf ts \<longleftrightarrow>
     (\<forall>i<length ts. \<forall>l<length ts. i \<noteq> l \<longrightarrow> stage_slots rf (ts ! i) \<inter> stage_slots rf (ts ! l) = {})"

lemma stages_apartD:
  assumes "stages_apart rf ts" "i < length ts" "l < length ts" "i \<noteq> l"
    and "stage_name (ts ! i) = Some a" "stage_name (ts ! l) = Some b"
  shows "stage_slot rf (ts ! i) a \<noteq> stage_slot rf (ts ! l) b"
proof
  assume e: "stage_slot rf (ts ! i) a = stage_slot rf (ts ! l) b"
  have "stage_slot rf (ts ! i) a \<in> stage_slots rf (ts ! i)" "stage_slot rf (ts ! l) b \<in> stage_slots rf (ts ! l)"
    using assms(5,6) by (simp_all add: stage_slots_def)
  moreover have "stage_slots rf (ts ! i) \<inter> stage_slots rf (ts ! l) = {}"
    using assms(1-4) unfolding stages_apart_def by blast
  ultimately show False using e by (metis disjoint_iff)
qed

lemma stages_apart_update:
  assumes "stages_apart rf ts" "stage_slots rf t \<subseteq> stage_slots rf (ts ! j)"
  shows "stages_apart rf (ts[j := t])"
proof -
  have "stage_slots rf (ts[j := t] ! i) \<subseteq> stage_slots rf (ts ! i)" for i
    by (cases "i = j"; cases "i < length ts") (simp_all add: assms(2) list_update_beyond)
  then show ?thesis
    using assms(1) unfolding stages_apart_def length_list_update by blast
qed

context file_system
begin

section \<open>Staging\<close>

definition staging :: "disk \<Rightarrow> 'h target list \<Rightarrow> nat \<Rightarrow> 'h target list \<times> 'w prog \<Rightarrow> bool" where
  "staging d0 ts0 j = (\<lambda>(ts, p).
     length ts = length ts0 \<and> base_inv refers d0 ts (dsk p) \<and>
     (\<forall>i<length ts. same_target (ts ! i) (ts0 ! i) \<and> \<not> published (ts ! i)) \<and>
     (\<forall>i<length ts. j \<le> i \<longrightarrow> stage_name (ts ! i) = None \<and> staged (ts ! i) = None) \<and>
     (\<forall>i<j. staged_at refers (dsk p) (ts ! i)) \<and>
     (\<forall>i<j. \<forall>l<j. i \<noteq> l \<longrightarrow> staged_identity (ts ! i) \<noteq> staged_identity (ts ! l)))"

lemma staging_start:
  assumes "\<And>t. t \<in> set ts \<Longrightarrow> fresh_target refers (dsk p) t"
  shows "staging (dsk p) ts 0 (ts, p)"
proof -
  have f: "fresh_target refers (dsk p) (ts ! i)" if "i < length ts" for i
    using assms that by simp
  have "base_inv refers (dsk p) ts (dsk p)"
    by (rule base_invI) (use f in \<open>auto simp: fresh_target_def target_ok_def\<close>)
  then show ?thesis
    using f by (auto simp: staging_def fresh_target_def same_target_def)
qed

text \<open>A stage was created: only its own, free, slot and a new file.\<close>

lemma added_free:
  assumes inv: "base_inv refers d0 ts d" and up: "\<And>i. i < length ts \<Longrightarrow> \<not> published (ts ! i)"
    and a: "added d (stage_slot refers t sn) i d'"
  shows "entries d0 (stage_slot refers t sn) = None" "\<not> linked d0 i"
  using base_inv_free [OF inv up] base_inv_unlinked [OF inv up] a by (auto simp: added_def)

lemma base_inv_added:
  assumes inv: "base_inv refers d0 ts d" and j: "j < length ts"
    and up: "\<And>i. i < length ts \<Longrightarrow> \<not> published (ts ! i)" and unstaged: "stage_name (ts ! j) = None"
    and a: "added d (stage_slot refers (ts ! j) sn) i d'"
    and t: "target_ok refers d0 t" "stage_name t = Some sn" "\<not> published t" "directory t = directory (ts ! j)"
  shows "base_inv refers d0 (ts[j := t]) d'"
proof (rule base_inv_update [OF inv j t(1)])
  have untouched: "touched refers (ts ! j) = {}"
    using unstaged up [OF j] by (simp add: touched_def stage_slots_def)
  fix s assume "s \<notin> touched refers t"
  then have "s \<noteq> stage_slot refers (ts ! j) sn"
    using t by (auto simp: touched_def stage_slots_def)
  then show "entries d' s = entries d s"
    using a by (simp add: added_def)
next
  fix x assume "linked d0 x"
  then have "x \<noteq> i"
    using base_inv_unlinked [OF inv up] a by (auto simp: added_def)
  then show "nodes d' x = nodes d x"
    using a by (simp add: added_def)
qed (use a unstaged up [OF j] in \<open>simp_all add: added_def touched_def stage_slots_def\<close>)

lemma staging_added:
  assumes stg: "staging d0 ts0 j (ts, p)" "j < length ts0"
    and a: "added (dsk p) (stage_slot refers (ts ! j) sn) (seal_identity seal) (dsk p')"
    and src: "source_seal (source_bytes (ts ! j)) seal"
  shows "staging d0 ts0 (Suc j)
    (ts[j := (ts ! j)\<lparr>stage_name := Some sn, provisional_stage := None, staged := Some seal\<rparr>], p')"
proof -
  let ?t = "(ts ! j)\<lparr>stage_name := Some sn, provisional_stage := None, staged := Some seal\<rparr>"
  have n: "length ts = length ts0" and inv: "base_inv refers d0 ts (dsk p)"
    and same: "\<And>i. i < length ts \<Longrightarrow> same_target (ts ! i) (ts0 ! i)"
    and up: "\<And>i. i < length ts \<Longrightarrow> \<not> published (ts ! i)"
    and later: "\<And>i. i < length ts \<Longrightarrow> j \<le> i \<Longrightarrow> stage_name (ts ! i) = None \<and> staged (ts ! i) = None"
    and earlier: "\<And>i. i < j \<Longrightarrow> staged_at refers (dsk p) (ts ! i)"
    and apart: "\<And>i l. i < j \<Longrightarrow> l < j \<Longrightarrow> i \<noteq> l \<Longrightarrow> staged_identity (ts ! i) \<noteq> staged_identity (ts ! l)"
    using stg unfolding staging_def by auto
  have j: "j < length ts" using stg(2) n by simp
  have ok: "target_ok refers d0 ?t"
    using base_inv_target [OF inv j] added_free [OF inv up a] src up [OF j] by (simp add: target_ok_def)
  have b: "base_inv refers d0 (ts[j := ?t]) (dsk p')"
    by (rule base_inv_added [OF inv j up _ a ok]) (use later [OF j] up [OF j] in simp_all)
  have at: "staged_at refers (dsk p') (ts[j := ?t] ! i)" if "i < Suc j" for i
    using that earlier [of i] j a by (cases "i = j") (auto simp: staged_at_def added_def)
  have "staged_identity (ts ! i) \<noteq> Some (seal_identity seal)" if "i < j" for i
    using earlier [OF that] a by (auto simp: staged_at_def staged_identity_def added_def dest: linkedI)
  moreover have "staged_identity ?t = Some (seal_identity seal)"
    by (simp add: staged_identity_def)
  ultimately have "staged_identity (ts[j := ?t] ! i) \<noteq> staged_identity (ts[j := ?t] ! l)"
    if "i < Suc j" "l < Suc j" "i \<noteq> l" for i l
    using that apart [of i l] j by (metis less_Suc_eq nth_list_update_eq nth_list_update_neq)
  moreover have "same_target (ts[j := ?t] ! i) (ts0 ! i) \<and> \<not> published (ts[j := ?t] ! i)" if "i < length ts" for i
    using same [OF that] up [OF that] that by (cases "i = j") (simp_all add: same_target_def)
  ultimately show ?thesis
    using n b at later by (auto simp: staging_def)
qed

lemma stage_step_pair:
  assumes stg: "staging d0 ts0 j (ts, p)" "j < length ts0"
  shows "wp (at_index j (stage k)) (\<lambda>_. staging d0 ts0 (Suc j)) (\<lambda>_. undoing d0 (length ts0) 0 {}) (ts, p)"
proof -
  have n: "length ts = length ts0" and inv: "base_inv refers d0 ts (dsk p)"
    and up: "\<And>i. i < length ts \<Longrightarrow> \<not> published (ts ! i)"
    and later: "\<And>i. i < length ts \<Longrightarrow> j \<le> i \<Longrightarrow> stage_name (ts ! i) = None \<and> staged (ts ! i) = None"
    using stg unfolding staging_def by auto
  have j: "j < length ts" using stg(2) n by simp
  show ?thesis
  proof (intro wp_at_indexI stage_wp)
    fix sn and seal :: "'h file_seal" and p' :: "'w prog"
    assume "added (dsk p) (stage_slot refers (ts ! j) sn) (seal_identity seal) (dsk p')"
      "source_seal (source_bytes (ts ! j)) seal"
    from staging_added [OF stg this]
    show "case ((ts ! j)\<lparr>stage_name := Some sn, provisional_stage := None, staged := Some seal\<rparr>, p') of
        (t, p') \<Rightarrow> staging d0 ts0 (Suc j) (ts[j := t], p')" by simp
  next
    fix p' assume "dsk p' = dsk p"
    then show "case (ts ! j, p') of (t, p') \<Rightarrow> undoing d0 (length ts0) 0 {} (ts[j := t], p')"
      using inv n up by (simp add: undoing_def)
  next
    fix sn h pi p'
    let ?t = "(ts ! j)\<lparr>stage_name := Some sn,
        provisional_stage := Some \<lparr>prov_handle = h, prov_identity = pi\<rparr>\<rparr>"
    assume a: "added (dsk p) (stage_slot refers (ts ! j) sn) (refers h) (dsk p')"
    have ok: "target_ok refers d0 ?t"
      using base_inv_target [OF inv j] added_free [OF inv up a] later [OF j] up [OF j]
      by (simp add: target_ok_def)
    have "base_inv refers d0 (ts[j := ?t]) (dsk p')"
      by (rule base_inv_added [OF inv j up _ a ok]) (use later [OF j] up [OF j] in simp_all)
    moreover have "\<not> published (ts[j := ?t] ! i)" if "i < length ts" for i
      using up [OF that] up [OF j] by (intro unpublished_update) simp_all
    ultimately show "case (?t, p') of (t, p') \<Rightarrow> undoing d0 (length ts0) 0 {} (ts[j := t], p')"
      using n by (simp add: undoing_def)
  qed
qed

lemma stage_step:
  assumes "staging d0 ts0 j s" "j < length ts0"
  shows "wp (at_index j (stage k)) (\<lambda>_. staging d0 ts0 (Suc j)) (\<lambda>_. undoing d0 (length ts0) 0 {}) s"
  using stage_step_pair [of d0 ts0 j "fst s" "snd s"] assms by simp

text \<open>Before anything is published every name of the start is in place.\<close>

lemma staged_safe:
  assumes inv: "base_inv refers d0 ts (dsk p)" and n: "length ts = length ts0"
    and up: "\<And>i. i < length ts \<Longrightarrow> \<not> published (ts ! i)"
  shows "undo_safe d0 ts0 (ts, p)"
proof -
  have "nothing_lost d0 ts0 (dsk p)"
    by (rule nothing_lostI) (use base_inv_linked [OF inv up] base_inv_nodes [OF inv] in simp_all)
  then show ?thesis
    using n base_inv_target [OF inv] by (simp add: undo_safe_def target_ok_def)
qed

abbreviation failed_end :: "disk \<Rightarrow> 'h target list \<Rightarrow> publish_error \<Rightarrow> 'h target list \<times> 'w prog \<Rightarrow> bool" where
  "failed_end d0 ts0 e s \<equiv> undone_or_incomplete d0 e s \<and> nothing_lost d0 ts0 (dsk (snd s))"

lemma undo_safe_lost: "undo_safe d0 ts0 s \<Longrightarrow> nothing_lost d0 ts0 (dsk (snd s))"
  by (cases s) (simp add: undo_safe_def)

lemma stage_failed_end:
  assumes "undoing d0 (length ts0) 0 {} s"
  shows "wp (stage_failed k e) Q (failed_end d0 ts0) s"
proof -
  have "undo_safe d0 ts0 s"
    using assms by (cases s) (auto simp: undoing_def intro!: staged_safe)
  from wp_conj [OF stage_failed_wp [OF assms, where Q = Q] stage_failed_safe [OF this, where Q = Q]]
  show ?thesis
    by (rule wp_mono) (blast dest: undo_safe_lost)+
qed

lemma stage_targets_wp:
  assumes "staging d0 ts0 j s" "j \<le> length ts0"
  shows "wp (stage_targets k [j..<length ts0]) (\<lambda>_. staging d0 ts0 (length ts0)) (failed_end d0 ts0) s"
  using assms
proof (induction "length ts0 - j" arbitrary: j s)
  case 0
  then show ?case by (simp add: wp_def)
next
  case (Suc m)
  then have j: "j < length ts0" by simp
  then have upt: "[j..<length ts0] = j # [Suc j..<length ts0]" by (simp add: upt_conv_Cons)
  show ?case
    unfolding upt stage_targets.simps
  proof (intro wp_bindI wp_attemptI, rule wp_mono [OF stage_step [OF Suc.prems(1) j]])
    fix x :: unit and s' assume "staging d0 ts0 (Suc j) s'"
    then have "wp (stage_targets k [Suc j..<length ts0]) (\<lambda>_. staging d0 ts0 (length ts0)) (failed_end d0 ts0) s'"
      by (intro Suc.hyps(1)) (use Suc.hyps(2) j in simp_all)
    then show "wp (case Inr x of Inl error \<Rightarrow> stage_failed k error | Inr _ \<Rightarrow> stage_targets k [Suc j..<length ts0])
        (\<lambda>_. staging d0 ts0 (length ts0)) (failed_end d0 ts0) s'" by simp
  next
    fix e s' assume "undoing d0 (length ts0) 0 {} s'"
    then show "wp (case Inl e of Inl error \<Rightarrow> stage_failed k error | Inr _ \<Rightarrow> stage_targets k [Suc j..<length ts0])
        (\<lambda>_. staging d0 ts0 (length ts0)) (failed_end d0 ts0) s'"
      by (simp only: sum.case stage_failed_end)
  qed
qed

section \<open>Publishing\<close>

definition publishing :: "disk \<Rightarrow> 'h target list \<Rightarrow> nat \<Rightarrow> 'h target list \<times> 'w prog \<Rightarrow> bool" where
  "publishing d0 ts0 j = (\<lambda>(ts, p).
     length ts = length ts0 \<and> base_inv refers d0 ts (dsk p) \<and>
     (\<forall>i<length ts. same_target (ts ! i) (ts0 ! i) \<and> stage_name (ts ! i) \<noteq> None) \<and>
     (\<forall>i<length ts. \<forall>l<length ts. i \<noteq> l \<longrightarrow> staged_identity (ts ! i) \<noteq> staged_identity (ts ! l)) \<and>
     stages_apart refers ts \<and>
     (\<forall>i<length ts. if i < j then published (ts ! i) \<and> published_at refers (dsk p) (ts ! i)
        else \<not> published (ts ! i)))"

lemma publishing_start:
  assumes "staging d0 ts0 (length ts0) s"
  shows "publishing d0 ts0 0 s"
proof (cases s)
  case (Pair ts p)
  have "stages_apart refers ts"
    unfolding stages_apart_def
  proof (intro allI impI)
    fix i l assume il: "i < length ts" "l < length ts" "i \<noteq> l"
    have n: "length ts = length ts0" using assms Pair by (simp add: staging_def)
    have "staged_at refers (dsk p) (ts ! i)" "staged_at refers (dsk p) (ts ! l)"
      "staged_identity (ts ! i) \<noteq> staged_identity (ts ! l)"
      using assms il unfolding Pair staging_def n by auto
    then show "stage_slots refers (ts ! i) \<inter> stage_slots refers (ts ! l) = {}"
      by (auto simp: staged_at_def stage_slots_def staged_identity_def)
  qed
  then show ?thesis
    using assms unfolding Pair by (auto simp: staging_def publishing_def staged_at_def)
qed

text \<open>What is needed of the start: the destinations are different slots.\<close>

abbreviation names_apart :: "'h target list \<Rightarrow> bool" where
  "names_apart ts0 \<equiv> \<forall>i<length ts0. \<forall>l<length ts0. i \<noteq> l \<longrightarrow> name_slot refers (ts0 ! i) \<noteq> name_slot refers (ts0 ! l)"

lemma exchanged_entries:
  assumes "exchanged refers d t sn seal d'"
  shows "entries d' = (entries d)(stage_slot refers t sn := map_option seal_identity (previous t),
      name_slot refers t \<mapsto> seal_identity seal)" "nodes d' = nodes d"
  using assms by (simp_all add: exchanged_def relinked_def)

text \<open>The exchange at \<open>j\<close> does not touch what was published before it.\<close>

lemma exchange_keeps_earlier:
  assumes "publishing d0 ts0 j (ts, p)" "j < length ts0" "names_apart ts0" "i < j"
    and rd: "ready refers (dsk p) (ts ! j) sn seal" and x: "exchanged refers (dsk p) (ts ! j) sn seal d'"
  shows "published_at refers d' (ts ! i)"
proof (rule published_at_kept)
  have n: "length ts = length ts0" and inv: "base_inv refers d0 ts (dsk p)" and stages: "stages_apart refers ts"
    and earlier: "published_at refers (dsk p) (ts ! i)"
    and differ: "staged_identity (ts ! i) \<noteq> staged_identity (ts ! j)"
    and same: "same_target (ts ! i) (ts0 ! i)" "same_target (ts ! j) (ts0 ! j)"
    using assms(1,2,4) unfolding publishing_def by auto
  have ij: "i < length ts" "j < length ts" "i \<noteq> j" using assms(2,4) n by simp_all
  note e = exchanged_entries [OF x]
  show "published_at refers (dsk p) (ts ! i)" by (rule earlier)
  have "name_slot refers (ts ! i) \<noteq> name_slot refers (ts ! j)"
    using assms(3) same ij n by (simp add: same_target_def)
  moreover have "name_slot refers (ts ! i) \<noteq> stage_slot refers (ts ! j) sn"
    using earlier differ rd by (auto simp: published_at_def staged_identity_def ready_def)
  ultimately show "entries d' (name_slot refers (ts ! i)) = entries (dsk p) (name_slot refers (ts ! i))"
    unfolding e by (simp only: fun_upd_apply if_False)
  fix b assume b: "previous (ts ! i) \<noteq> None" "stage_name (ts ! i) = Some b"
  then have held: "entries (dsk p) (stage_slot refers (ts ! i) b) = map_option seal_identity (previous (ts ! i))"
    using earlier by (auto simp: published_at_def backup_at_def)
  have "entries d0 (stage_slot refers (ts ! i) b) = None"
    using base_inv_target [OF inv ij(1)] b by (simp add: target_ok_def)
  then have "stage_slot refers (ts ! i) b \<noteq> name_slot refers (ts ! j)"
    using held b rd base_inv_target [OF inv ij(2)] by (auto simp: ready_def target_ok_def)
  moreover have "stage_slot refers (ts ! i) b \<noteq> stage_slot refers (ts ! j) sn"
    by (rule stages_apartD [OF stages ij b(2)]) (use rd in \<open>simp add: ready_def\<close>)
  ultimately show "entries d' (stage_slot refers (ts ! i) b) = entries (dsk p) (stage_slot refers (ts ! i) b)"
    unfolding e by (simp only: fun_upd_apply if_False)
qed (simp add: exchanged_entries [OF x])

text \<open>The target that was exchanged holds its new file.\<close>

lemma exchanged_published:
  assumes inv: "base_inv refers d0 ts d" and j: "j < length ts"
    and rd: "ready refers d (ts ! j) sn seal" and x: "exchanged refers d (ts ! j) sn seal d'"
  shows "published_at refers d' ((ts ! j)\<lparr>published := True\<rparr>)"
proof (rule published_atI [of _ seal])
  have seal: "staged (ts ! j) = Some seal" "matches d seal" "stage_name (ts ! j) = Some sn"
    using rd by (simp_all add: ready_def)
  have src: "source_seal (source_bytes (ts ! j)) seal"
    using base_inv_target [OF inv j] seal(1) by (simp add: target_ok_def)
  have differ: "target_name (ts ! j) \<noteq> sn"
    using ready_slots_differ [OF rd base_inv_target [OF inv j]] by simp
  note e = exchanged_entries [OF x]
  show "staged ((ts ! j)\<lparr>published := True\<rparr>) = Some seal" using seal by simp
  show "entries d' (name_slot refers ((ts ! j)\<lparr>published := True\<rparr>)) = Some (seal_identity seal)" by (simp add: e)
  show "complete d' (seal_identity seal) (source_bytes ((ts ! j)\<lparr>published := True\<rparr>))"
    using matches_complete [OF seal(2) src] e(2) by (simp add: complete_def)
  show "backup_at refers d' ((ts ! j)\<lparr>published := True\<rparr>)"
    using seal(3) differ by (simp add: backup_at_def e)
qed

lemma publishing_exchanged:
  assumes pub: "publishing d0 ts0 j (ts, p)" "j < length ts0" "names_apart ts0"
    and rd: "ready refers (dsk p) (ts ! j) sn seal" and x: "exchanged refers (dsk p) (ts ! j) sn seal (dsk p')"
  shows "publishing d0 ts0 (Suc j) (ts[j := (ts ! j)\<lparr>published := True\<rparr>], p')"
  unfolding publishing_def prod.case
proof (intro conjI allI impI)
  let ?t = "(ts ! j)\<lparr>published := True\<rparr>"
  have n: "length ts = length ts0" and inv: "base_inv refers d0 ts (dsk p)"
    and same: "\<And>i. i < length ts \<Longrightarrow> same_target (ts ! i) (ts0 ! i) \<and> stage_name (ts ! i) \<noteq> None"
    and apart: "\<And>i l. i < length ts \<Longrightarrow> l < length ts \<Longrightarrow> i \<noteq> l \<Longrightarrow> staged_identity (ts ! i) \<noteq> staged_identity (ts ! l)"
    and stages: "stages_apart refers ts"
    and phase: "\<And>i. i < length ts \<Longrightarrow> if i < j then published (ts ! i) else \<not> published (ts ! i)"
    using pub unfolding publishing_def by auto
  have j: "j < length ts" using pub(2) n by simp
  show "length (ts[j := ?t]) = length ts0" using n by simp
  show "base_inv refers d0 (ts[j := ?t]) (dsk p')"
    by (rule base_inv_exchanged [OF inv j rd x]) (use phase [OF j] in simp)
  show "stages_apart refers (ts[j := ?t])"
    by (rule stages_apart_update [OF stages]) (simp add: stage_slots_def)
  fix i assume i: "i < length (ts[j := ?t])"
  show "same_target (ts[j := ?t] ! i) (ts0 ! i)" "stage_name (ts[j := ?t] ! i) \<noteq> None"
    using same [of i] i by (cases "i = j"; simp add: same_target_def)+
  show "if i < Suc j then published (ts[j := ?t] ! i) \<and> published_at refers (dsk p') (ts[j := ?t] ! i)
      else \<not> published (ts[j := ?t] ! i)"
    using i j exchanged_published [OF inv j rd x] exchange_keeps_earlier [OF pub _ rd x, of i] phase [of i]
    by (cases "i = j") (simp_all split: if_splits)
  fix l assume "l < length (ts[j := ?t])" "i \<noteq> l"
  moreover have "staged_identity (ts[j := ?t] ! m) = staged_identity (ts ! m)" for m
    by (cases "m = j"; cases "m < length ts") (simp_all add: staged_identity_def list_update_beyond)
  ultimately show "staged_identity (ts[j := ?t] ! i) \<noteq> staged_identity (ts[j := ?t] ! l)"
    using apart i by simp
qed

lemma publish_step_pair:
  assumes pub: "publishing d0 ts0 j (ts, p)" "j < length ts0" "names_apart ts0"
  shows "wp (at_index j (publish k)) (\<lambda>_. publishing d0 ts0 (Suc j))
    (\<lambda>_ s'. (undoing d0 (length ts0) (Suc j) {} s' \<or> stuck j s') \<and> length (fst s') = length ts0) (ts, p)"
proof -
  have n: "length ts = length ts0" and inv: "base_inv refers d0 ts (dsk p)"
    and later: "\<And>i. i < length ts \<Longrightarrow> j \<le> i \<Longrightarrow> \<not> published (ts ! i)"
    using pub(1) unfolding publishing_def by auto
  have j: "j < length ts" using pub(2) n by simp
  let ?t = "(ts ! j)\<lparr>published := True\<rparr>"
  have undo: "undoing d0 (length ts0) (Suc j) {} (ts[j := t], p')" if "base_inv refers d0 (ts[j := t]) (dsk p')" for t p'
  proof -
    have "\<not> published (ts[j := t] ! i)" if "i < length ts" "Suc j \<le> i" for i
      using later [of i] that by (cases "i = j") simp_all
    with that n show ?thesis by (simp add: undoing_def)
  qed
  show ?thesis
  proof (intro wp_at_indexI publish_wp)
    fix sn seal p'
    assume "ready refers (dsk p) (ts ! j) sn seal" "exchanged refers (dsk p) (ts ! j) sn seal (dsk p')"
    from publishing_exchanged [OF pub this]
    show "case (?t, p') of (t, p') \<Rightarrow> publishing d0 ts0 (Suc j) (ts[j := t], p')" by simp
  next
    fix p' assume "dsk p' = dsk p"
    then show "case (ts ! j, p') of (t, p') \<Rightarrow> (undoing d0 (length ts0) (Suc j) {} (ts[j := t], p') \<or>
        stuck j (ts[j := t], p')) \<and> length (fst (ts[j := t], p')) = length ts0"
      using undo [of "ts ! j" p'] inv n by simp
  next
    fix sn seal p'
    assume rd: "ready refers (dsk p) (ts ! j) sn seal" and x: "exchanged refers (dsk p) (ts ! j) sn seal (dsk p')"
    have "base_inv refers d0 (ts[j := ?t]) (dsk p')"
      by (rule base_inv_exchanged [OF inv j rd x]) (use later [OF j] in simp)
    then show "case (?t, p') of (t, p') \<Rightarrow> (undoing d0 (length ts0) (Suc j) {} (ts[j := t], p') \<or>
        stuck j (ts[j := t], p')) \<and> length (fst (ts[j := t], p')) = length ts0"
      using undo n by simp
  next
    fix sn seal p'
    assume rd: "ready refers (dsk p) (ts ! j) sn seal"
      and r: "relinked (dsk p) ((entries (dsk p))(stage_slot refers (ts ! j) sn := None)) (dsk p')"
    have "base_inv refers d0 (ts[j := rolled_back (ts ! j)]) (dsk p')"
      by (rule base_inv_unstaged [OF inv j _ r]) (use rd later [OF j] in \<open>simp_all add: ready_def\<close>)
    then show "case (rolled_back (ts ! j), p') of (t, p') \<Rightarrow> (undoing d0 (length ts0) (Suc j) {} (ts[j := t], p') \<or>
        stuck j (ts[j := t], p')) \<and> length (fst (ts[j := t], p')) = length ts0"
      using undo n by simp
  next
    fix sn seal p'
    assume rd: "ready refers (dsk p) (ts ! j) sn seal"
      and e: "entries (dsk p') (name_slot refers (ts ! j)) = map_option seal_identity (previous (ts ! j)) \<or>
       target_name (ts ! j) = sn"
    have "stuck j (ts[j := ?t], p')"
      using e ready_slots_differ [OF rd base_inv_target [OF inv j]] rd j by (auto simp: stuck_def ready_def)
    then show "case (?t, p') of (t, p') \<Rightarrow> (undoing d0 (length ts0) (Suc j) {} (ts[j := t], p') \<or>
        stuck j (ts[j := t], p')) \<and> length (fst (ts[j := t], p')) = length ts0"
      using n by simp
  qed
qed

lemma publish_step:
  assumes "publishing d0 ts0 j s" "j < length ts0"
    and "\<And>i l. i < length ts0 \<Longrightarrow> l < length ts0 \<Longrightarrow> i \<noteq> l \<Longrightarrow> name_slot refers (ts0 ! i) \<noteq> name_slot refers (ts0 ! l)"
  shows "wp (at_index j (publish k)) (\<lambda>_. publishing d0 ts0 (Suc j))
    (\<lambda>_ s'. (undoing d0 (length ts0) (Suc j) {} s' \<or> stuck j s') \<and> length (fst s') = length ts0) s"
  using publish_step_pair [of d0 ts0 j "fst s" "snd s"] assms by (simp only: prod.collapse) blast

text \<open>A target that is published has its complete new file; the others have their old one.\<close>

lemma publishing_safe:
  assumes pub: "publishing d0 ts0 j s" and j: "j \<le> length ts0"
  shows "undo_safe d0 ts0 s"
proof (cases s)
  case (Pair ts p)
  from pub Pair have n: "length ts = length ts0" and inv: "base_inv refers d0 ts (dsk p)"
    and same: "\<And>i. i < length ts \<Longrightarrow> same_target (ts ! i) (ts0 ! i)"
    and at: "\<And>i. i < length ts \<Longrightarrow> published (ts ! i) \<Longrightarrow> published_at refers (dsk p) (ts ! i)"
    unfolding publishing_def by (auto split: if_splits)
  have "nothing_lost d0 ts0 (dsk p)"
  proof (rule nothing_lostI)
    fix s i assume s: "entries d0 s = Some i"
    show "entries (dsk p) s = Some i \<or> (\<exists>t\<in>set ts0. s = name_slot refers t \<and> new_file_at d0 (dsk p) t)"
    proof (cases "\<exists>l<length ts. published (ts ! l) \<and> s = name_slot refers (ts ! l)")
      case True
      then obtain l where l: "l < length ts" "published (ts ! l)" "s = name_slot refers (ts ! l)" by blast
      have "new_file_at d0 (dsk p) (ts0 ! l)"
        using at [OF l(1,2)] base_inv_target [OF inv l(1)] same [OF l(1)]
        by (auto simp: published_at_def target_ok_def staged_identity_def same_target_def)
      moreover have "s = name_slot refers (ts0 ! l)" using l(3) same_target_slot [OF same [OF l(1)]] by simp
      moreover have "ts0 ! l \<in> set ts0" using l(1) n by simp
      ultimately show ?thesis by blast
    next
      case False
      have "s \<notin> touched refers (ts ! l)" if l: "l < length ts" for l
      proof -
        have "s \<notin> stage_slots refers (ts ! l)"
          using base_inv_target [OF inv l] s by (auto simp: stage_slots_def target_ok_def)
        then show ?thesis using False l by (auto simp: touched_def)
      qed
      then show ?thesis using base_inv_entries [OF inv] s by simp
    qed
  qed (rule base_inv_nodes [OF inv])
  then show ?thesis
    using Pair n base_inv_target [OF inv] by (simp add: undo_safe_def target_ok_def)
qed

lemma publish_step_safe:
  assumes pub: "publishing d0 ts0 j s" and j0: "j < length ts0"
  shows "wp (at_index j (publish k)) (\<lambda>_ _. True) (\<lambda>_. undo_safe d0 ts0) s"
proof (cases s)
  case (Pair ts p)
  from pub Pair have n: "length ts = length ts0" and inv: "base_inv refers d0 ts (dsk p)"
    and same: "same_target (ts ! j) (ts0 ! j)"
    using j0 unfolding publishing_def by auto
  have safe: "undo_safe d0 ts0 (ts, p)"
    using publishing_safe [OF pub] j0 Pair by simp
  have j: "j < length ts" using j0 n by simp
  note at = undo_safe_at [OF safe j]
  have sn: "stage_name (ts ! j) = Some sn" "target_name (ts ! j) \<noteq> sn"
    if "ready refers (dsk p) (ts ! j) sn seal" for sn seal
    using ready_slots_differ [OF that base_inv_target [OF inv j]] that by (simp_all add: ready_def)
  show ?thesis
    unfolding Pair
  proof (intro wp_at_indexI publish_wp)
    fix p' assume d: "dsk p' = dsk p"
    have "undo_safe d0 ts0 (ts[j := ts ! j], p')"
      by (rule undo_safe_step [OF safe, of "{}"]) (use d in simp_all)
    then show "case (ts ! j, p') of (t, p') \<Rightarrow> undo_safe d0 ts0 (ts[j := t], p')" by simp
  next
    fix sn seal p'
    assume rd: "ready refers (dsk p) (ts ! j) sn seal" and x: "exchanged refers (dsk p) (ts ! j) sn seal (dsk p')"
    have "undo_safe d0 ts0 (ts[j := (ts ! j)\<lparr>published := True\<rparr>], p')"
    proof (rule undo_safe_update [OF safe])
      show "nothing_lost d0 ts0 (dsk p')"
        by (rule nothing_lost_exchanged [OF _ x]) (use rd safe same base_inv_target [OF inv j] j0 at sn [OF rd] in
          \<open>auto simp: undo_safe_def ready_def target_ok_def same_target_def intro: matches_complete\<close>)
    qed simp_all
    then show "case ((ts ! j)\<lparr>published := True\<rparr>, p') of (t, p') \<Rightarrow> undo_safe d0 ts0 (ts[j := t], p')" by simp
  next
    fix sn seal p'
    assume rd: "ready refers (dsk p) (ts ! j) sn seal"
      and r: "relinked (dsk p) ((entries (dsk p))(stage_slot refers (ts ! j) sn := None)) (dsk p')"
    have "kept_except {stage_slot refers (ts ! j) sn} (dsk p) (dsk p')"
      using r by (rule relinked_kept) simp
    then have "undo_safe d0 ts0 (ts[j := rolled_back (ts ! j)], p')"
      by (rule undo_safe_step [OF safe]) (use at(2) [OF sn(1) [OF rd]] in auto)
    then show "case (rolled_back (ts ! j), p') of (t, p') \<Rightarrow> undo_safe d0 ts0 (ts[j := t], p')" by simp
  next
    fix sn seal p'
    assume rd: "ready refers (dsk p) (ts ! j) sn seal"
      and e: "entries (dsk p') (name_slot refers (ts ! j)) = map_option seal_identity (previous (ts ! j)) \<or>
        target_name (ts ! j) = sn"
      and kept: "kept_except {name_slot refers (ts ! j), stage_slot refers (ts ! j) sn} (dsk p) (dsk p')"
    have "undo_safe d0 ts0 (ts[j := (ts ! j)\<lparr>published := True\<rparr>], p')"
      by (rule undo_safe_step [OF safe kept]) (use e at(1) at(2) [OF sn(1) [OF rd]] sn(2) [OF rd] in auto)
    then show "case ((ts ! j)\<lparr>published := True\<rparr>, p') of (t, p') \<Rightarrow> undo_safe d0 ts0 (ts[j := t], p')" by simp
  qed simp
qed

lemma publish_failed_end:
  assumes "(undoing d0 (length ts0) (Suc j) {} s \<or> stuck j s) \<and> length (fst s) = length ts0"
    and safe: "undo_safe d0 ts0 s" and j: "j < length ts0"
  shows "wp (publish_failed k j e) Q (failed_end d0 ts0) s"
proof -
  have "wp (publish_failed k j e) Q (undone_or_incomplete d0) s"
    by (rule publish_failed_wp [OF _ j]) (use assms(1) in simp_all)
  from wp_conj [OF this publish_failed_safe [OF safe j, where Q = Q]] show ?thesis
    by (rule wp_mono) (blast dest: undo_safe_lost)+
qed

lemma publish_targets_wp:
  assumes "publishing d0 ts0 j s" "j \<le> length ts0"
    and slots: "\<And>i l. i < length ts0 \<Longrightarrow> l < length ts0 \<Longrightarrow> i \<noteq> l \<Longrightarrow> name_slot refers (ts0 ! i) \<noteq> name_slot refers (ts0 ! l)"
  shows "wp (publish_targets k [j..<length ts0]) (\<lambda>_. publishing d0 ts0 (length ts0)) (failed_end d0 ts0) s"
  using assms(1,2)
proof (induction "length ts0 - j" arbitrary: j s)
  case 0
  then show ?case by (simp add: wp_def)
next
  case (Suc m)
  then have j: "j < length ts0" by simp
  then have upt: "[j..<length ts0] = j # [Suc j..<length ts0]" by (simp add: upt_conv_Cons)
  show ?case
    unfolding upt publish_targets.simps
  proof (intro wp_bindI wp_attemptI, 
      rule wp_mono [OF wp_conj [OF publish_step [OF Suc.prems(1) j slots] publish_step_safe [OF Suc.prems(1) j]]])
    fix x :: unit and s' assume "publishing d0 ts0 (Suc j) s' \<and> True"
    then have "wp (publish_targets k [Suc j..<length ts0]) (\<lambda>_. publishing d0 ts0 (length ts0)) (failed_end d0 ts0) s'"
      by (intro Suc.hyps(1)) (use Suc.hyps(2) j in simp_all)
    then show "wp (case Inr x of Inl error \<Rightarrow> publish_failed k j error | Inr _ \<Rightarrow> publish_targets k [Suc j..<length ts0])
        (\<lambda>_. publishing d0 ts0 (length ts0)) (failed_end d0 ts0) s'" by simp
  next
    fix e s' assume "((undoing d0 (length ts0) (Suc j) {} s' \<or> stuck j s') \<and> length (fst s') = length ts0) \<and>
      undo_safe d0 ts0 s'"
    then show "wp (case Inl e of Inl error \<Rightarrow> publish_failed k j error | Inr _ \<Rightarrow> publish_targets k [Suc j..<length ts0])
        (\<lambda>_. publishing d0 ts0 (length ts0)) (failed_end d0 ts0) s'"
      unfolding sum.case by (intro publish_failed_end j) simp_all
  qed
qed

section \<open>Finishing\<close>

text \<open>Every destination of the start holds the complete new file; all other names are those of the start.\<close>

abbreviation destinations :: "'h target list \<Rightarrow> slot set" where
  "destinations ts \<equiv> (\<lambda>t. name_slot refers t) ` set ts"

definition all_published :: "disk \<Rightarrow> disk \<Rightarrow> 'h target list \<Rightarrow> bool" where
  "all_published d0 d ts0 \<longleftrightarrow>
     (\<forall>t\<in>set ts0. new_file_at d0 d t) \<and>
     (\<forall>s. s \<notin> destinations ts0 \<longrightarrow> entries d0 s \<noteq> None \<longrightarrow> entries d s = entries d0 s) \<and>
     (\<forall>i. linked d0 i \<longrightarrow> nodes d i = nodes d0 i)"

lemma all_published_kept_except:
  assumes all: "all_published d0 d ts" and kept: "kept_except {x} d d'"
    and free: "entries d0 x = None" "x \<notin> destinations ts"
  shows "all_published d0 d' ts"
proof -
  have e: "entries d' s = Some i" if "s \<noteq> x" "entries d s = Some i" for s i
    using kept that unfolding kept_except_def by blast
  have n: "nodes d' = nodes d" using kept by (simp add: kept_except_def)
  have "new_file_at d0 d' t" if t: "t \<in> set ts" for t
  proof -
    have "name_slot refers t \<noteq> x" using free(2) t by auto
    then show ?thesis using all t e by (auto simp: all_published_def complete_def n)
  qed
  moreover have "entries d' s = entries d0 s" if s: "s \<notin> destinations ts" "entries d0 s \<noteq> None" for s
  proof -
    have "s \<noteq> x" using s(2) free(1) by auto
    moreover have "entries d s = entries d0 s" using all s unfolding all_published_def by blast
    ultimately show ?thesis using e s(2) by fastforce
  qed
  ultimately show ?thesis
    using all by (simp add: all_published_def n)
qed

definition finishing :: "disk \<Rightarrow> 'h target list \<Rightarrow> nat set \<Rightarrow> 'h target list \<times> 'w prog \<Rightarrow> bool" where
  "finishing d0 ts0 D = (\<lambda>(ts, p).
     length ts = length ts0 \<and> stages_apart refers ts \<and>
     (\<forall>i<length ts. name_slot refers (ts ! i) = name_slot refers (ts0 ! i)) \<and>
     (\<forall>i<length ts. if i \<in> D then \<not> published (ts ! i)
        else published (ts ! i) \<and> target_ok refers d0 (ts ! i) \<and> backup_at refers (dsk p) (ts ! i)) \<and>
     (\<forall>i<length ts. new_file_at d0 (dsk p) (ts0 ! i)) \<and>
     (\<forall>s. s \<notin> destinations ts0 \<longrightarrow> (\<forall>i<length ts. i \<notin> D \<longrightarrow> s \<notin> touched refers (ts ! i)) \<longrightarrow>
        entries (dsk p) s = entries d0 s) \<and>
     (\<forall>i. linked d0 i \<longrightarrow> nodes (dsk p) i = nodes d0 i) \<and> location (dsk p) = location d0)"

lemma finishing_start:
  assumes "publishing d0 ts0 (length ts0) s"
  shows "finishing d0 ts0 {} s"
proof (cases s)
  case (Pair ts p)
  from assms Pair have n: "length ts = length ts0" and inv: "base_inv refers d0 ts (dsk p)"
    and same: "\<And>i. i < length ts \<Longrightarrow> same_target (ts ! i) (ts0 ! i)" and apart: "stages_apart refers ts"
    and pub: "\<And>i. i < length ts \<Longrightarrow> published (ts ! i) \<and> published_at refers (dsk p) (ts ! i)"
    unfolding publishing_def by auto
  show ?thesis
    unfolding Pair finishing_def prod.case
  proof (intro conjI allI impI n apart)
    fix i assume i: "i < length ts"
    show "name_slot refers (ts ! i) = name_slot refers (ts0 ! i)"
      using same [OF i] by (rule same_target_slot)
    show "if i \<in> {} then \<not> published (ts ! i)
        else published (ts ! i) \<and> target_ok refers d0 (ts ! i) \<and> backup_at refers (dsk p) (ts ! i)"
      using pub [OF i] base_inv_target [OF inv i] by (simp add: published_at_def)
    show "new_file_at d0 (dsk p) (ts0 ! i)"
      using pub [OF i] base_inv_target [OF inv i] same [OF i]
      by (auto simp: published_at_def target_ok_def staged_identity_def same_target_def)
  next
    fix s assume "\<forall>i<length ts. i \<notin> {} \<longrightarrow> s \<notin> touched refers (ts ! i)"
    then show "entries (dsk p) s = entries d0 s"
      by (intro base_inv_entries [OF inv]) simp
  qed (use inv in \<open>simp_all add: base_inv_nodes base_inv_location\<close>)
qed

lemma finishing_all:
  assumes "finishing d0 ts0 D s"
  shows "all_published d0 (dsk (snd s)) ts0"
proof (cases s)
  case (Pair ts p)
  from assms Pair have n: "length ts = length ts0"
    and name: "\<And>i. i < length ts \<Longrightarrow> name_slot refers (ts ! i) = name_slot refers (ts0 ! i)"
    and st: "\<And>i. i < length ts \<Longrightarrow> i \<notin> D \<Longrightarrow> target_ok refers d0 (ts ! i)"
    and new: "\<And>i. i < length ts \<Longrightarrow> new_file_at d0 (dsk p) (ts0 ! i)"
    and other: "\<And>s. s \<notin> destinations ts0 \<Longrightarrow> (\<And>i. i < length ts \<Longrightarrow> i \<notin> D \<Longrightarrow> s \<notin> touched refers (ts ! i)) \<Longrightarrow>
        entries (dsk p) s = entries d0 s"
    and nodes: "\<And>i. linked d0 i \<Longrightarrow> nodes (dsk p) i = nodes d0 i"
    unfolding finishing_def by auto
  have "new_file_at d0 (dsk p) t" if "t \<in> set ts0" for t
    using new n that by (metis in_set_conv_nth)
  moreover have "entries (dsk p) s = entries d0 s" if s: "s \<notin> destinations ts0" "entries d0 s \<noteq> None" for s
  proof (rule other [OF s(1)])
    fix i assume i: "i < length ts" "i \<notin> D"
    have "name_slot refers (ts0 ! i) \<in> destinations ts0" using i n by simp
    then have "s \<noteq> name_slot refers (ts ! i)" using s(1) name [OF i(1)] by metis
    moreover have "s \<notin> stage_slots refers (ts ! i)"
      using st [OF i] s(2) by (auto simp: target_ok_def stage_slots_def)
    ultimately show "s \<notin> touched refers (ts ! i)" by (simp add: touched_def)
  qed
  ultimately show ?thesis
    using nodes Pair by (simp add: all_published_def)
qed

text \<open>Target \<open>j\<close> is through when only its own slots changed, none of them a destination, and back to what
  they were at the start.\<close>

lemma finishing_insert:
  assumes fin: "finishing d0 ts0 D (ts, p)" and j: "j < length ts"
    and kept: "\<And>i. i < length ts \<Longrightarrow> entries (dsk p') (name_slot refers (ts0 ! i)) = entries (dsk p) (name_slot refers (ts0 ! i))"
    and bk: "\<And>i. i < length ts \<Longrightarrow> i \<notin> insert j D \<Longrightarrow> backup_at refers (dsk p') (ts ! i)"
    and own: "\<And>s. s \<notin> destinations ts0 \<Longrightarrow> s \<in> touched refers (ts ! j) \<Longrightarrow> entries (dsk p') s = entries d0 s"
    and rest: "\<And>s. s \<notin> touched refers (ts ! j) \<Longrightarrow> entries (dsk p') s = entries (dsk p) s"
    and nl: "nodes (dsk p') = nodes (dsk p)" "location (dsk p') = location (dsk p)"
  shows "finishing d0 ts0 (insert j D) (ts[j := finished_target (ts ! j)], p')"
  unfolding finishing_def prod.case
proof (intro conjI allI impI)
  let ?t = "finished_target (ts ! j)"
  have n: "length ts = length ts0" and apart: "stages_apart refers ts"
    and name: "\<And>i. i < length ts \<Longrightarrow> name_slot refers (ts ! i) = name_slot refers (ts0 ! i)"
    and st: "\<And>i. i < length ts \<Longrightarrow> if i \<in> D then \<not> published (ts ! i)
        else published (ts ! i) \<and> target_ok refers d0 (ts ! i) \<and> backup_at refers (dsk p) (ts ! i)"
    and new: "\<And>i. i < length ts \<Longrightarrow> new_file_at d0 (dsk p) (ts0 ! i)"
    and other: "\<And>s. s \<notin> destinations ts0 \<Longrightarrow> (\<And>i. i < length ts \<Longrightarrow> i \<notin> D \<Longrightarrow> s \<notin> touched refers (ts ! i)) \<Longrightarrow>
        entries (dsk p) s = entries d0 s"
    and nodes: "\<And>i. linked d0 i \<Longrightarrow> nodes (dsk p) i = nodes d0 i" and loc: "location (dsk p) = location d0"
    using fin unfolding finishing_def by auto
  show "length (ts[j := ?t]) = length ts0" "location (dsk p') = location d0" using n loc nl by simp_all
  show "stages_apart refers (ts[j := ?t])"
    by (rule stages_apart_update [OF apart]) (simp add: stage_slots_def)
  show "nodes (dsk p') i = nodes d0 i" if "linked d0 i" for i using nodes [OF that] nl by simp
  show "name_slot refers (ts[j := ?t] ! i) = name_slot refers (ts0 ! i)"
    "if i \<in> insert j D then \<not> published (ts[j := ?t] ! i)
     else published (ts[j := ?t] ! i) \<and> target_ok refers d0 (ts[j := ?t] ! i) \<and> backup_at refers (dsk p') (ts[j := ?t] ! i)"
    "new_file_at d0 (dsk p') (ts0 ! i)" if i: "i < length (ts[j := ?t])" for i
  proof -
    show "name_slot refers (ts[j := ?t] ! i) = name_slot refers (ts0 ! i)"
      using name [of i] i by (cases "i = j") simp_all
    show "if i \<in> insert j D then \<not> published (ts[j := ?t] ! i)
        else published (ts[j := ?t] ! i) \<and> target_ok refers d0 (ts[j := ?t] ! i) \<and> backup_at refers (dsk p') (ts[j := ?t] ! i)"
      using st [of i] bk [of i] i by (cases "i = j") (auto split: if_splits)
    show "new_file_at d0 (dsk p') (ts0 ! i)"
      using new [of i] kept [of i] i nl by (auto simp: complete_def)
  qed
  fix s assume s: "s \<notin> destinations ts0"
    and "\<forall>i<length (ts[j := ?t]). i \<notin> insert j D \<longrightarrow> s \<notin> touched refers (ts[j := ?t] ! i)"
  then have free: "s \<notin> touched refers (ts ! i)" if "i < length ts" "i \<notin> insert j D" for i
    using that by force
  show "entries (dsk p') s = entries d0 s"
  proof (cases "s \<in> touched refers (ts ! j)")
    case False
    then have "s \<notin> touched refers (ts ! i)" if "i < length ts" "i \<notin> D" for i
      using free [of i] that by (cases "i = j") simp_all
    then have "entries (dsk p) s = entries d0 s" by (rule other [OF s])
    then show ?thesis using rest [OF False] by simp
  qed (use own s in simp)
qed

text \<open>The slot of a backup is no destination, and was free at the start.\<close>

lemma backup_slot:
  assumes fin: "finishing d0 ts0 D (ts, p)" and j: "j < length ts"
    and pub: "published (ts ! j)" and sn: "stage_name (ts ! j) = Some sn" and prev: "previous (ts ! j) = Some prev"
  shows "\<And>i. i < length ts \<Longrightarrow> name_slot refers (ts0 ! i) \<noteq> stage_slot refers (ts ! j) sn"
    "stage_slot refers (ts ! j) sn \<notin> destinations ts0"
    "entries d0 (stage_slot refers (ts ! j) sn) = None"
    "touched refers (ts ! j) = {name_slot refers (ts ! j), stage_slot refers (ts ! j) sn}"
    "name_slot refers (ts ! j) \<in> destinations ts0"
proof -
  have n: "length ts = length ts0"
    and name: "name_slot refers (ts ! j) = name_slot refers (ts0 ! j)"
    and st: "if j \<in> D then \<not> published (ts ! j)
      else published (ts ! j) \<and> target_ok refers d0 (ts ! j) \<and> backup_at refers (dsk p) (ts ! j)"
    and new: "\<And>i. i < length ts \<Longrightarrow> new_file_at d0 (dsk p) (ts0 ! i)"
    using fin j unfolding finishing_def by auto
  from st pub have ok: "target_ok refers d0 (ts ! j)" "backup_at refers (dsk p) (ts ! j)"
    by (simp_all split: if_splits)
  have "entries d0 (name_slot refers (ts ! j)) = Some (seal_identity prev)"
    using ok pub prev by (simp add: target_ok_def)
  then have "linked d0 (seal_identity prev)" by (rule linkedI)
  moreover have "entries (dsk p) (stage_slot refers (ts ! j) sn) = Some (seal_identity prev)"
    using ok prev sn by (simp add: backup_at_def)
  ultimately show apart: "name_slot refers (ts0 ! i) \<noteq> stage_slot refers (ts ! j) sn" if "i < length ts" for i
    using new [OF that] by auto
  show "stage_slot refers (ts ! j) sn \<notin> destinations ts0"
  proof
    assume "stage_slot refers (ts ! j) sn \<in> destinations ts0"
    then obtain t where "stage_slot refers (ts ! j) sn = name_slot refers t" "t \<in> set ts0" by blast
    then obtain i where "i < length ts0" "stage_slot refers (ts ! j) sn = name_slot refers (ts0 ! i)"
      by (auto simp only: in_set_conv_nth)
    with apart [of i] n show False by simp
  qed
  show "entries d0 (stage_slot refers (ts ! j) sn) = None"
    using ok sn by (simp add: target_ok_def)
  show "touched refers (ts ! j) = {name_slot refers (ts ! j), stage_slot refers (ts ! j) sn}"
    using pub sn prev by (simp add: touched_def stage_slots_def)
  show "name_slot refers (ts ! j) \<in> destinations ts0"
    unfolding name using j n by simp
qed

text \<open>Removing the backup of target \<open>j\<close> finishes it.\<close>

lemma finishing_removed:
  assumes fin: "finishing d0 ts0 D (ts, p)" and j: "j < length ts"
    and pub: "published (ts ! j)" and sn: "stage_name (ts ! j) = Some sn" and prev: "previous (ts ! j) = Some prev"
    and r: "relinked (dsk p) ((entries (dsk p))(stage_slot refers (ts ! j) sn := None)) (dsk p')"
  shows "finishing d0 ts0 (insert j D) (ts[j := finished_target (ts ! j)], p')"
proof (rule finishing_insert [OF fin j])
  note b = backup_slot [OF fin j pub sn prev]
  have e: "entries (dsk p') = (entries (dsk p))(stage_slot refers (ts ! j) sn := None)"
    using r by (rule relinkedD)
  have apart: "stages_apart refers ts"
    and st: "\<And>i. i < length ts \<Longrightarrow> i \<notin> D \<Longrightarrow> backup_at refers (dsk p) (ts ! i)"
    using fin unfolding finishing_def by auto
  show "entries (dsk p') (name_slot refers (ts0 ! i)) = entries (dsk p) (name_slot refers (ts0 ! i))"
    if "i < length ts" for i
    using b(1) [OF that] unfolding e by (simp only: fun_upd_apply if_False)
  show "backup_at refers (dsk p') (ts ! i)" if i: "i < length ts" "i \<notin> insert j D" for i
    unfolding backup_at_def
  proof (intro allI impI)
    fix q x assume q: "previous (ts ! i) = Some q" "stage_name (ts ! i) = Some x"
    have "stage_slot refers (ts ! i) x \<noteq> stage_slot refers (ts ! j) sn"
      by (rule stages_apartD [OF apart i(1) j _ q(2) sn]) (use i in simp)
    then have "entries (dsk p') (stage_slot refers (ts ! i) x) = entries (dsk p) (stage_slot refers (ts ! i) x)"
      unfolding e by (simp only: fun_upd_apply if_False)
    then show "entries (dsk p') (stage_slot refers (ts ! i) x) = Some (seal_identity q)"
      using st [of i] i q by (simp add: backup_at_def)
  qed
  show "entries (dsk p') s = entries d0 s" if "s \<notin> destinations ts0" "s \<in> touched refers (ts ! j)" for s
  proof -
    have "s = stage_slot refers (ts ! j) sn" using b(4,5) that by auto
    then show ?thesis using b(3) by (simp add: e)
  qed
  show "entries (dsk p') s = entries (dsk p) s" if "s \<notin> touched refers (ts ! j)" for s
  proof -
    have "s \<noteq> stage_slot refers (ts ! j) sn" using b(4) that by auto
    then show ?thesis unfolding e by (simp only: fun_upd_apply if_False)
  qed
qed (use r in \<open>simp_all add: relinked_def\<close>)

lemma finish_step_pair:
  assumes fin: "finishing d0 ts0 D (ts, p)" and "j < length ts0"
  shows "wp (at_index j (finish k)) (\<lambda>_. finishing d0 ts0 (insert j D))
    (\<lambda>_ s'. all_published d0 (dsk (snd s')) ts0) (ts, p)"
proof -
  have n: "length ts = length ts0"
    and name: "\<And>i. i < length ts \<Longrightarrow> name_slot refers (ts ! i) = name_slot refers (ts0 ! i)"
    and st: "\<And>i. i < length ts \<Longrightarrow> i \<notin> D \<Longrightarrow> backup_at refers (dsk p) (ts ! i)"
    using fin unfolding finishing_def by auto
  have j: "j < length ts" using assms(2) n by simp
  have all: "all_published d0 (dsk p) ts0" using finishing_all [OF fin] by simp
  show ?thesis
  proof (intro wp_at_indexI finish_wp)
    fix p' assume pub: "published (ts ! j)" and none: "previous (ts ! j) = None \<or> stage_name (ts ! j) = None"
      and d: "dsk p' = dsk p"
    have "touched refers (ts ! j) = {name_slot refers (ts0 ! j)}"
      using pub none name [OF j] by (auto simp: touched_def stage_slots_def)
    then have "s \<in> destinations ts0" if "s \<in> touched refers (ts ! j)" for s
      using that assms(2) by auto
    then have "finishing d0 ts0 (insert j D) (ts[j := finished_target (ts ! j)], p')"
      by (intro finishing_insert [OF fin j]) (use d st in auto)
    then show "case (finished_target (ts ! j), p') of (t, p') \<Rightarrow> finishing d0 ts0 (insert j D) (ts[j := t], p')" by simp
  next
    fix sn prev p'
    assume "published (ts ! j)" "stage_name (ts ! j) = Some sn" "previous (ts ! j) = Some prev"
      "relinked (dsk p) ((entries (dsk p))(stage_slot refers (ts ! j) sn := None)) (dsk p')"
    from finishing_removed [OF fin j this]
    show "case (finished_target (ts ! j), p') of (t, p') \<Rightarrow> finishing d0 ts0 (insert j D) (ts[j := t], p')" by simp
  next
    fix p' assume "dsk p' = dsk p"
    then have "all_published d0 (dsk p') ts0" using all by simp
    then show "case (ts ! j, p') of (t, p') \<Rightarrow> all_published d0 (dsk (snd (ts[j := t], p'))) ts0" by simp
  next
    fix sn prev p'
    assume pub: "published (ts ! j)" and sn: "stage_name (ts ! j) = Some sn" and prev: "previous (ts ! j) = Some prev"
      and kept: "kept_except {stage_slot refers (ts ! j) sn} (dsk p) (dsk p')"
    note b = backup_slot [OF fin j pub sn prev]
    from all_published_kept_except [OF all kept b(3,2)]
    show "case (ts ! j, p') of (t, p') \<Rightarrow> all_published d0 (dsk (snd (ts[j := t], p'))) ts0" by simp
  qed
qed

lemma finish_step:
  assumes "finishing d0 ts0 D s" "j < length ts0"
  shows "wp (at_index j (finish k)) (\<lambda>_. finishing d0 ts0 (insert j D))
    (\<lambda>_ s'. all_published d0 (dsk (snd s')) ts0) s"
  using finish_step_pair [of d0 ts0 D "fst s" "snd s" j] assms by simp

section \<open>The whole run\<close>

text \<open>How publishing all targets ends.\<close>

definition published_result :: "disk \<Rightarrow> disk \<Rightarrow> 'h target list \<Rightarrow> bool" where
  "published_result d0 d ts \<longleftrightarrow>
     all_published d0 d ts \<and> (\<forall>s. s \<notin> destinations ts \<longrightarrow> entries d s = entries d0 s) \<and>
     (\<forall>i. linked d0 i \<longrightarrow> nodes d i = nodes d0 i) \<and> location d = location d0"

lemma finishing_end:
  assumes fin: "finishing d0 ts0 {..<length ts0} s"
  shows "published_result d0 (dsk (snd s)) ts0"
proof (cases s)
  case (Pair ts p)
  from fin Pair have n: "length ts = length ts0"
    and other: "\<And>s. s \<notin> destinations ts0 \<Longrightarrow> (\<And>i. i < length ts \<Longrightarrow> i \<notin> {..<length ts0} \<Longrightarrow> s \<notin> touched refers (ts ! i)) \<Longrightarrow>
        entries (dsk p) s = entries d0 s"
    and nl: "\<And>i. linked d0 i \<Longrightarrow> nodes (dsk p) i = nodes d0 i" "location (dsk p) = location d0"
    unfolding finishing_def by auto
  have "all_published d0 (dsk p) ts0"
    using finishing_all [OF fin] Pair by simp
  moreover have "entries (dsk p) s = entries d0 s" if "s \<notin> destinations ts0" for s
    by (rule other [OF that]) (use n in simp)
  ultimately show ?thesis
    using nl Pair unfolding published_result_def by simp
qed

lemma finish_all_wp:
  assumes "finishing d0 ts {} s"
  shows "wp (sequenceS (map (\<lambda>j. at_index j (finish k)) [0..<length ts]))
    (\<lambda>_ s. published_result d0 (dsk (snd s)) ts) (\<lambda>_ s. all_published d0 (dsk (snd s)) ts) s"
proof (rule wp_sequence_indices [where I = "finishing d0 ts", OF assms])
  fix j D s assume "j \<in> set [0..<length ts]" "finishing d0 ts D s"
  then show "wp (at_index j (finish k)) (\<lambda>_. finishing d0 ts (insert j D))
      (\<lambda>_ s. all_published d0 (dsk (snd s)) ts) s"
    by (intro finish_step) simp_all
next
  fix s assume "finishing d0 ts (set [0..<length ts] \<union> {}) s"
  then show "published_result d0 (dsk (snd s)) ts"
    by (intro finishing_end) (simp add: lessThan_atLeast0)
qed

lemma all_published_lost: "all_published d0 d ts \<Longrightarrow> nothing_lost d0 ts d"
proof (rule nothing_lostI)
  assume all: "all_published d0 d ts"
  fix s i assume s: "entries d0 s = Some i"
  show "entries d s = Some i \<or> (\<exists>t\<in>set ts. s = name_slot refers t \<and> new_file_at d0 d t)"
  proof (cases "s \<in> destinations ts")
    case False
    with all s have "entries d s = entries d0 s" unfolding all_published_def by blast
    with s show ?thesis by simp
  qed (use all in \<open>auto simp: all_published_def\<close>)
qed (simp add: all_published_def)

lemma publish_all_wp:
  assumes fresh: "\<And>t. t \<in> set ts \<Longrightarrow> fresh_target refers (dsk p) t"
    and slots: "\<And>i l. i < length ts \<Longrightarrow> l < length ts \<Longrightarrow> i \<noteq> l \<Longrightarrow> name_slot refers (ts ! i) \<noteq> name_slot refers (ts ! l)"
  shows "wp (publish_all k) (\<lambda>_ s. published_result (dsk p) (dsk (snd s)) ts)
    (\<lambda>e s. (undone_or_incomplete (dsk p) e s \<or> all_published (dsk p) (dsk (snd s)) ts) \<and>
       nothing_lost (dsk p) ts (dsk (snd s))) (ts, p)"
    (is "wp _ ?Q ?E _")
proof -
  let ?finish = "sequenceS (map (\<lambda>j. at_index j (finish k)) [0..<length ts])"
  have finish: "wp ?finish ?Q ?E s" if "publishing (dsk p) ts (length ts) s" for s
    by (rule wp_mono [OF finish_all_wp [OF finishing_start [OF that]]]) (blast dest: all_published_lost)+
  have publish: "wp (publish_targets k [0..<length ts]) (\<lambda>_. wp ?finish ?Q ?E) ?E s"
    if "staging (dsk p) ts (length ts) s" for s
    by (rule wp_mono [OF publish_targets_wp [OF publishing_start [OF that] le0 slots]]) (use finish in blast)+
  have "wp (stage_targets k [0..<length ts])
      (\<lambda>_. wp (bindS (publish_targets k [0..<length ts]) (\<lambda>_. ?finish)) ?Q ?E) ?E (ts, p)"
    by (rule wp_mono [OF stage_targets_wp [OF staging_start [OF fresh] le0]])
      (assumption, erule publish [THEN wp_bindI], blast)
  then show ?thesis
    unfolding publish_all_def by (intro wp_with_selfI wp_bindI)
qed

end

end
