(* ===== verification/Publish_Prepare.thy ===== *)
theory Publish_Prepare
  imports Publish_Run
begin

text \<open>
  Preparing the targets, and the run from its arguments: which directory and name a destination leads
  to, that two destinations never share a slot, and how the whole program ends.
\<close>

section \<open>What a prepared target is\<close>

text \<open>The slot of a destination inside the repository, and the file its source names.\<close>

definition prepared ::
    "('h \<Rightarrow> identity) \<Rightarrow> (disk \<Rightarrow> string \<Rightarrow> identity option) \<Rightarrow> disk \<Rightarrow> 'h repository_lease \<Rightarrow>
       string \<times> string \<Rightarrow> 'h target \<Rightarrow> bool" where
  "prepared rf lk d repo = (\<lambda>(source, destination) t.
     fresh_target rf d t \<and> display_path t = destination \<and>
     (\<exists>i. lk d source = Some i \<and> regular (nodes d i) \<and> source_bytes t = node_bytes (nodes d i)) \<and>
     (\<exists>ns leaf.
        path_components destination = path_components (requested_path repo) @ map Normal (ns @ [leaf]) \<and>
        target_name t = leaf \<and>
        walk d (rf (dir_handle (root repo))) ns = Some (rf (target_fd t)) \<and>
        path_components (location d (rf (target_fd t))) = path_components (dir_path (root repo)) @ map Normal ns))"

text \<open>A directory that was opened for a parent.\<close>

definition lease_ok :: "('h \<Rightarrow> identity) \<Rightarrow> disk \<Rightarrow> 'h repository_lease \<Rightarrow> string \<Rightarrow> 'h directory_lease \<Rightarrow> bool" where
  "lease_ok rf d repo parent dir \<longleftrightarrow> repository dir = repo \<and>
     (\<exists>rel. path_components parent = path_components (dir_path (root repo)) @ rel \<and>
        opened_chain d rf (rf (dir_handle (root repo))) (dir_path (root repo)) rel (descendants dir))"

lemma lease_fd_final:
  "rf (lease_fd dir) =
     (case rev (descendants dir) of [] \<Rightarrow> rf (dir_handle (root (repository dir))) | seal # _ \<Rightarrow> rf (dir_handle seal))"
  by (simp add: final_seal_def split: list.splits)

lemma lease_ok_leads:
  assumes ok: "lease_ok rf d repo parent dir" and root: "is_absolute (dir_path (root repo))"
    "same_path (location d (rf (dir_handle (root repo)))) (dir_path (root repo))"
    and ns: "path_components parent = path_components (dir_path (root repo)) @ map Normal ns" "list_all entry_name ns"
  shows "walk d (rf (dir_handle (root repo))) ns = Some (rf (lease_fd dir))"
    and "path_components (location d (rf (lease_fd dir))) = path_components (dir_path (root repo)) @ map Normal ns"
proof -
  have chain: "opened_chain d rf (rf (dir_handle (root repo))) (dir_path (root repo)) (map Normal ns) (descendants dir)"
    and repo: "repository dir = repo"
    using ok ns(1) by (auto simp: lease_ok_def)
  note fd = lease_fd_final [of rf dir, unfolded repo]
  obtain ms where ms: "map Normal ns = map Normal ms"
    "walk d (rf (dir_handle (root repo))) ms = Some (rf (lease_fd dir))"
    using opened_chain_walk [OF chain] fd by auto
  have "ns = ms"
    using ms(1) by (intro map_injective [of Normal]) (auto simp: inj_def)
  with ms show "walk d (rf (dir_handle (root repo))) ns = Some (rf (lease_fd dir))" by simp
  have "list_all (\<lambda>c. \<exists>n. c = Normal n \<and> entry_name n) (map Normal ns)"
    using ns(2) by (simp add: list_all_iff)
  from opened_chain_location [OF chain root this]
  show "path_components (location d (rf (lease_fd dir))) = path_components (dir_path (root repo)) @ map Normal ns"
    by (simp add: fd)
qed

text \<open>Different destinations have different slots.\<close>

lemma prepared_slots_differ:
  assumes "prepared rf lk d repo (s1, d1) t1" "prepared rf lk d repo (s2, d2) t2" "\<not> same_path d1 d2"
  shows "name_slot rf t1 \<noteq> name_slot rf t2"
proof
  assume same: "name_slot rf t1 = name_slot rf t2"
  obtain ns1 where 1: "path_components d1 = path_components (requested_path repo) @ map Normal (ns1 @ [target_name t1])"
    "path_components (location d (rf (target_fd t1))) = path_components (dir_path (root repo)) @ map Normal ns1"
    using assms(1) by (auto simp: prepared_def)
  obtain ns2 where 2: "path_components d2 = path_components (requested_path repo) @ map Normal (ns2 @ [target_name t2])"
    "path_components (location d (rf (target_fd t2))) = path_components (dir_path (root repo)) @ map Normal ns2"
    using assms(2) by (auto simp: prepared_def)
  have "map Normal ns1 = map Normal ns2" using 1(2) 2(2) same by simp
  with 1(1) 2(1) same have "path_components d1 = path_components d2" by simp
  with assms(3) show False by (simp add: same_path_def)
qed

context file_system
begin

lemma prepare_with_directory_wp:
  assumes "\<And>t i p'. same p p' \<Longrightarrow> directory t = dir \<Longrightarrow> display_path t = destination \<Longrightarrow>
      fresh_target refers (dsk p) t \<Longrightarrow> file_name destination = Some (target_name t) \<Longrightarrow>
      lookup (dsk p) source = Some i \<Longrightarrow> regular (nodes (dsk p) i) \<Longrightarrow>
      source_bytes t = node_bytes (nodes (dsk p) i) \<Longrightarrow> Q t p'"
    and "\<And>e p'. same p p' \<Longrightarrow> E e p'"
  shows "wp (prepare_with_directory k source destination dir) Q E p"
proof -
  have c: "path_component_cstring n = Inr m \<Longrightarrow> m = n" for n m
    by (simp add: path_component_cstring_def split: if_splits)
  show ?thesis
    unfolding prepare_with_directory_def
    by (intro wp_rules) (use assms in \<open>auto simp: unchanged_def fresh_target_def dest!: c\<close>)
qed

lemma lease_for_wp:
  fixes directories :: "(string \<times> 'h directory_lease) list"
  assumes leases: "\<And>path dir. (path, dir) \<in> set directories \<Longrightarrow> lease_ok refers (dsk p) repo path dir"
    and found: "\<And>dir directories' p'. same p p' \<Longrightarrow> lease_ok refers (dsk p) repo parent dir \<Longrightarrow>
      (\<And>path dir. (path, dir) \<in> set directories' \<Longrightarrow> lease_ok refers (dsk p) repo path dir) \<Longrightarrow>
      Q (dir, directories') p'"
    and failed: "\<And>e p'. same p p' \<Longrightarrow> E e p'"
  shows "wp (lease_for k repo directories parent) Q E p"
proof (cases "find (\<lambda>(existing, _). same_path existing parent) directories")
  case None
  show ?thesis
    unfolding lease_for_def None option.case
  proof (intro wp_bindI acquire_directory_wp wp_returnI)
    fix dir :: "'h directory_lease" and rel p'
    assume s: "same p p'" and "repository dir = repo"
      "path_components parent = path_components (dir_path (root repo)) @ rel"
      "opened_chain (dsk p) refers (refers (dir_handle (root repo))) (dir_path (root repo)) rel (descendants dir)"
    then have ok: "lease_ok refers (dsk p) repo parent dir"
      by (auto simp: lease_ok_def)
    show "Q (dir, directories @ [(parent, dir)]) p'"
      by (rule found [OF s ok]) (use leases ok in auto)
  qed (rule failed)
next
  case (Some entry)
  obtain existing dir where e: "entry = (existing, dir)" by fastforce
  from Some have "(existing, dir) \<in> set directories" and "same_path existing parent"
    by (auto simp: find_Some_iff e) (metis nth_mem)
  then have "lease_ok refers (dsk p) repo parent dir"
    using leases [of existing dir] by (simp add: lease_ok_def same_path_def)
  then show ?thesis
    unfolding lease_for_def Some e option.case prod.case
    by (intro wp_returnI found) (use leases in auto)
qed

lemma destination_fresh:
  assumes "list_all2 (prepared refers lookup d repo) past targets"
    and new: "\<not> (\<exists>t\<in>set targets. same_path (display_path t) destination)"
  shows "path_components destination \<notin> set (map (\<lambda>pr. path_components (snd pr)) past)"
proof -
  have "path_components d' \<noteq> path_components destination" if d': "(s, d') \<in> set past" for s d'
  proof -
    from d' assms(1) obtain t where "t \<in> set targets" "prepared refers lookup d repo (s, d') t"
      by (metis in_set_conv_nth list_all2_conv_all_nth)
    then show ?thesis
      using new by (auto simp: prepared_def same_path_def)
  qed
  then show ?thesis by force
qed

lemma prepare_targets_wp:
  fixes directories :: "(string \<times> 'h directory_lease) list"
  assumes root: "is_absolute (dir_path (root repo))"
      "same_path (location (dsk p) (refers (dir_handle (root repo)))) (dir_path (root repo))"
    and done_ok: "list_all2 (prepared refers lookup (dsk p) repo) past targets"
      "distinct (map (\<lambda>pr. path_components (snd pr)) past)"
    and leases: "\<And>path dir. (path, dir) \<in> set directories \<Longrightarrow> lease_ok refers (dsk p) repo path dir"
    and fine: "\<And>ts p'. same p p' \<Longrightarrow> list_all2 (prepared refers lookup (dsk p) repo) (past @ pairs) ts \<Longrightarrow>
      distinct (map (\<lambda>pr. path_components (snd pr)) (past @ pairs)) \<Longrightarrow> Q ts p'"
    and failed: "\<And>e p'. same p p' \<Longrightarrow> E e p'"
  shows "wp (prepare_targets k repo pairs targets directories) Q E p"
  using assms
proof (induction pairs arbitrary: past targets directories p)
  case Nil
  then show ?case
    unfolding prepare_targets.simps by (intro wp_returnI) simp
next
  case (Cons pair pairs)
  obtain source destination where pair: "pair = (source, destination)" by fastforce
  show ?case
    unfolding pair prepare_targets.simps
  proof (intro wp_bindI wp_rejectI wp_liftI)
    fix parent
    assume new: "\<not> (\<exists>t\<in>set targets. same_path (display_path t) destination)"
      and dp: "destination_parent repo destination = Inr parent"
    obtain ns leaf where d: "path_components destination = path_components (requested_path repo) @ map Normal (ns @ [leaf])"
      and parent: "path_components parent = path_components (dir_path (root repo)) @ map Normal ns"
      and ns: "list_all entry_name ns"
      by (rule destination_parent_Inr [OF dp Cons.prems(1)])
    have fresh: "path_components destination \<notin> set (map (\<lambda>pr. path_components (snd pr)) past)"
      by (rule destination_fresh [OF Cons.prems(3) new])
    show "wp (lease_for k repo directories parent)
      (\<lambda>x. wp (case x of (dir, directories) \<Rightarrow>
          bindS (prepare_with_directory k source destination dir) (\<lambda>t.
          prepare_targets k repo pairs (targets @ [t]) directories)) Q E) E p"
    proof (intro lease_for_wp wp_case_prodI wp_bindI prepare_with_directory_wp)
      fix dir directories' p1 t i p2
      assume s: "same p p1" "same p1 p2" and ok: "lease_ok refers (dsk p) repo parent dir"
        and ls: "\<And>path dir. (path, dir) \<in> set directories' \<Longrightarrow> lease_ok refers (dsk p) repo path dir"
        and t: "directory t = dir" "display_path t = destination" "fresh_target refers (dsk p1) t"
          "file_name destination = Some (target_name t)" "lookup (dsk p1) source = Some i"
          "regular (nodes (dsk p1) i)" "source_bytes t = node_bytes (nodes (dsk p1) i)"
      have d1: "dsk p1 = dsk p" and d2: "dsk p2 = dsk p" using s by (simp_all add: unchangedD)
      have "target_name t = leaf"
        using t(4) d by (simp add: file_name_iff)
      then have prep: "prepared refers lookup (dsk p) repo (source, destination) t"
        using t d lease_ok_leads [OF ok Cons.prems(1,2) parent ns] d1 by (auto simp: prepared_def)
      show "wp (prepare_targets k repo pairs (targets @ [t]) directories') Q E p2"
      proof (rule Cons.IH)
        show "list_all2 (prepared refers lookup (dsk p2) repo) (past @ [(source, destination)]) (targets @ [t])"
          using Cons.prems(3) prep d2 by (simp add: list_all2_appendI)
        show "distinct (map (\<lambda>pr. path_components (snd pr)) (past @ [(source, destination)]))"
          using Cons.prems(4) fresh by simp
        show "Q ts p'" if "same p2 p'"
          "list_all2 (prepared refers lookup (dsk p2) repo) ((past @ [(source, destination)]) @ pairs) ts"
          "distinct (map (\<lambda>pr. path_components (snd pr)) ((past @ [(source, destination)]) @ pairs))" for ts p'
          by (rule Cons.prems(6)) (use that s d2 pair in \<open>auto simp: unchanged_def\<close>)
        show "E e p'" if "same p2 p'" for e p'
          by (rule Cons.prems(7)) (use that s in \<open>auto simp: unchanged_def\<close>)
      qed (use Cons.prems(1,2) ls d2 in auto)
    qed (use Cons.prems(5,7) in \<open>auto simp: unchanged_def\<close>)
  qed (use Cons.prems(7) in auto)
qed

end

end
