(* ===== verification/Publish_Outcome.thy ===== *)
theory Publish_Outcome
  imports Publish_Prepare
begin

text \<open>
  How a run of the publisher ends, from its arguments: with every destination replaced by its source and
  nothing else changed, or with everything as it was, or with an error that lists what could not be
  cleaned up, or with all destinations replaced and an old file or its backup not yet taken away.
\<close>

section \<open>Outcomes\<close>

text \<open>The directory entry a destination inside the repository stands for: its parents are walked from the
  root \<open>r\<close> of the repository.\<close>

definition destination_slot :: "disk \<Rightarrow> identity \<Rightarrow> string \<Rightarrow> string \<Rightarrow> slot option" where
  "destination_slot d r repo_root destination =
     (case strip_prefix destination repo_root of
        None \<Rightarrow> None
      | Some cs \<Rightarrow>
          (case rev (map component_text cs) of
             [] \<Rightarrow> None
           | leaf # parents \<Rightarrow> map_option (\<lambda>dir. (dir, leaf)) (walk d r (rev parents))))"

definition destination_slots :: "disk \<Rightarrow> identity \<Rightarrow> string \<Rightarrow> (string \<times> string) list \<Rightarrow> slot set" where
  "destination_slots d r repo_root pairs =
     {s. \<exists>(source, destination)\<in>set pairs. destination_slot d r repo_root destination = Some s}"

text \<open>The destination names a new file with the bytes its source had.\<close>

definition holds_source ::
    "(disk \<Rightarrow> string \<Rightarrow> identity option) \<Rightarrow> disk \<Rightarrow> disk \<Rightarrow> identity \<Rightarrow> string \<Rightarrow> string \<times> string \<Rightarrow> bool" where
  "holds_source lk d0 d r repo_root = (\<lambda>(source, destination).
     \<exists>i s f. lk d0 source = Some i \<and> destination_slot d r repo_root destination = Some s \<and>
       entries d s = Some f \<and> \<not> linked d0 f \<and> complete d f (node_bytes (nodes d0 i)))"

text \<open>All destinations were replaced and no other name that existed was touched; \<open>exactly\<close> when no new
  name was left behind either.\<close>

definition replaced ::
    "bool \<Rightarrow> (disk \<Rightarrow> string \<Rightarrow> identity option) \<Rightarrow> string \<Rightarrow> (string \<times> string) list \<Rightarrow> disk \<Rightarrow> disk \<Rightarrow> bool" where
  "replaced exactly lk repo_root pairs d0 d \<longleftrightarrow>
     (\<exists>r. lk d0 repo_root = Some r \<and>
        (\<forall>pair\<in>set pairs. holds_source lk d0 d r repo_root pair) \<and>
        (\<forall>s. s \<notin> destination_slots d0 r repo_root pairs \<longrightarrow> exactly \<or> entries d0 s \<noteq> None \<longrightarrow>
           entries d s = entries d0 s) \<and>
        (\<forall>i. linked d0 i \<longrightarrow> nodes d i = nodes d0 i))"

text \<open>No file is lost: a name of the start still names its unchanged object, or is a destination with a
  complete new file.\<close>

definition no_file_lost ::
    "(disk \<Rightarrow> string \<Rightarrow> identity option) \<Rightarrow> string \<Rightarrow> (string \<times> string) list \<Rightarrow> disk \<Rightarrow> disk \<Rightarrow> bool" where
  "no_file_lost lk repo_root pairs d0 d \<longleftrightarrow>
     (\<forall>s i. entries d0 s = Some i \<longrightarrow>
        entries d s = Some i \<or>
        (\<exists>(source, destination)\<in>set pairs. \<exists>r j f.
           lk d0 repo_root = Some r \<and> destination_slot d0 r repo_root destination = Some s \<and>
           lk d0 source = Some j \<and> entries d s = Some f \<and> \<not> linked d0 f \<and>
           complete d f (node_bytes (nodes d0 j)))) \<and>
     (\<forall>i. linked d0 i \<longrightarrow> nodes d i = nodes d0 i)"

lemma no_file_lost_refl [simp]: "no_file_lost lk repo_root pairs d d"
  by (simp add: no_file_lost_def)

text \<open>How publishing ends.\<close>

definition publish_failed_well ::
    "(disk \<Rightarrow> string \<Rightarrow> identity option) \<Rightarrow> string \<Rightarrow> (string \<times> string) list \<Rightarrow> disk \<Rightarrow> publish_error \<Rightarrow> disk \<Rightarrow> bool" where
  "publish_failed_well lk repo_root pairs d0 e d \<longleftrightarrow>
     (restored d0 d \<or> (\<exists>e0 what es. e = Joined e0 what es \<and> es \<noteq> []) \<or> replaced False lk repo_root pairs d0 d) \<and>
     no_file_lost lk repo_root pairs d0 d"

lemma destination_slot_prepared:
  assumes "path_components destination = path_components repo_root @ map Normal (ns @ [leaf])"
  shows "destination_slot d r repo_root destination = map_option (\<lambda>dir. (dir, leaf)) (walk d r ns)"
proof -
  have "strip_prefix destination repo_root = Some (map Normal (ns @ [leaf]))"
    using assms by (simp add: strip_prefix_iff)
  then show ?thesis by (simp add: destination_slot_def comp_def)
qed

lemma list_all2_left: "list_all2 R xs ys \<Longrightarrow> x \<in> set xs \<Longrightarrow> \<exists>y\<in>set ys. R x y"
  by (induction rule: list_all2_induct) auto

lemma list_all2_right: "list_all2 R xs ys \<Longrightarrow> y \<in> set ys \<Longrightarrow> \<exists>x\<in>set xs. R x y"
  by (induction rule: list_all2_induct) auto

lemma regular_not_directory: "regular n \<Longrightarrow> \<not> is_directory n"
  by (simp add: regular_def is_directory_def S_IFREG_def S_IFDIR_def)

context file_system
begin

text \<open>The parents of the destinations are found as before.\<close>

lemma prepared_parent_kept:
  assumes prep: "\<And>t. t \<in> set ts \<Longrightarrow> fresh_target refers d0 t"
    and all: "all_published d0 d ts"
    and walk: "walk d0 r ns = Some dir"
  shows "walk d r ns = Some dir"
proof (rule walk_kept [OF walk])
  fix s x assume x: "entries d0 s = Some x" "is_directory (nodes d0 x)"
  have "s \<notin> destinations ts"
  proof
    assume "s \<in> destinations ts"
    then obtain t where t: "t \<in> set ts" "s = name_slot refers t" by auto
    with prep [OF t(1)] x(1) obtain prev where "previous t = Some prev" "x = seal_identity prev"
      by (auto simp: fresh_target_def)
    then have "regular (nodes d0 x)"
      using prep [OF t(1)] by (auto simp: fresh_target_def matches_def)
    with x(2) regular_not_directory show False by blast
  qed
  then have "entries d s = entries d0 s" "nodes d x = nodes d0 x"
    using all linkedI [OF x(1)] x(1) unfolding all_published_def by blast+
  then show "entries d s = Some x \<and> nodes d x = nodes d0 x" using x(1) by simp
qed

lemma prepared_fresh:
  assumes "list_all2 (prepared refers lookup d0 repo) pairs ts" "t \<in> set ts"
  shows "fresh_target refers d0 t"
proof -
  obtain p where "prepared refers lookup d0 repo p t"
    using list_all2_right [OF assms] by blast
  then show ?thesis by (cases p) (auto simp: prepared_def)
qed

lemma prepared_slot:
  assumes "prepared refers lookup d0 repo (source, destination) t"
  shows "destination_slot d0 (refers (dir_handle (root repo))) (requested_path repo) destination = Some (name_slot refers t)"
proof -
  obtain ns where
      "path_components destination = path_components (requested_path repo) @ map Normal (ns @ [target_name t])"
      "walk d0 (refers (dir_handle (root repo))) ns = Some (refers (target_fd t))"
    using assms by (auto simp: prepared_def)
  then show ?thesis by (simp add: destination_slot_prepared)
qed

lemma prepared_slots:
  assumes "list_all2 (prepared refers lookup d0 repo) pairs ts"
  shows "destination_slots d0 (refers (dir_handle (root repo))) (requested_path repo) pairs = destinations ts"
  using assms
proof (induction rule: list_all2_induct)
  case (Cons pair pairs t ts)
  obtain source destination where "pair = (source, destination)" by fastforce
  with Cons show ?case
    using prepared_slot [of d0 repo source destination t] by (auto simp: destination_slots_def)
qed (simp add: destination_slots_def)

lemma prepared_slots_apart:
  assumes prep: "list_all2 (prepared refers lookup d0 repo) pairs ts"
    and apart: "distinct (map (\<lambda>pr. path_components (snd pr)) pairs)"
    and il: "i < length ts" "l < length ts" "i \<noteq> l"
  shows "name_slot refers (ts ! i) \<noteq> name_slot refers (ts ! l)"
proof -
  have n: "length pairs = length ts" using prep by (rule list_all2_lengthD)
  have "prepared refers lookup d0 repo (pairs ! i) (ts ! i)" if "i < length ts" for i
    using list_all2_nthD2 [OF prep that] .
  moreover have "\<not> same_path (snd (pairs ! i)) (snd (pairs ! l))"
    using apart il n by (auto simp: same_path_def distinct_conv_nth)
  ultimately show ?thesis
    using il by (intro prepared_slots_differ [of refers lookup d0 repo "fst (pairs ! i)" "snd (pairs ! i)" _
        "fst (pairs ! l)" "snd (pairs ! l)"]) simp_all
qed

lemma prepared_slots_distinct:
  assumes "list_all2 (prepared refers lookup d0 repo) pairs ts"
    and "distinct (map (\<lambda>pr. path_components (snd pr)) pairs)"
  shows "distinct (map (name_slot refers) ts)"
  using prepared_slots_apart [OF assms] by (simp add: distinct_conv_nth)

lemma published_holds_source:
  assumes prep: "list_all2 (prepared refers lookup d0 repo) pairs ts"
    and all: "all_published d0 d ts"
    and pair: "pair \<in> set pairs"
  shows "holds_source lookup d0 d (refers (dir_handle (root repo))) (requested_path repo) pair"
proof -
  obtain source destination where sd: "pair = (source, destination)" by fastforce
  obtain t where t: "t \<in> set ts" "prepared refers lookup d0 repo pair t"
    using list_all2_left [OF prep pair] by blast
  then obtain i ns where i: "lookup d0 source = Some i" "source_bytes t = node_bytes (nodes d0 i)"
    and ns: "path_components destination = path_components (requested_path repo) @ map Normal (ns @ [target_name t])"
      "walk d0 (refers (dir_handle (root repo))) ns = Some (refers (target_fd t))"
    by (auto simp: prepared_def sd)
  have "walk d (refers (dir_handle (root repo))) ns = Some (refers (target_fd t))"
    by (rule prepared_parent_kept [OF prepared_fresh [OF prep] all ns(2)])
  then have "destination_slot d (refers (dir_handle (root repo))) (requested_path repo) destination =
      Some (name_slot refers t)"
    using destination_slot_prepared [OF ns(1)] by simp
  moreover obtain f where "\<not> linked d0 f" "entries d (name_slot refers t) = Some f" "complete d f (source_bytes t)"
    using all t(1) by (auto simp: all_published_def)
  ultimately show ?thesis
    using i by (auto simp: holds_source_def sd)
qed

lemma published_replaced:
  assumes prep: "list_all2 (prepared refers lookup d0 repo) pairs ts"
    and root: "lookup d0 (requested_path repo) = Some (refers (dir_handle (root repo)))"
    and all: "all_published d0 d ts"
    and exactly: "exactly \<Longrightarrow> published_result d0 d ts"
  shows "replaced exactly lookup (requested_path repo) pairs d0 d"
  unfolding replaced_def
proof (intro exI conjI ballI allI impI, rule root, rule published_holds_source [OF prep all])
  fix s assume "s \<notin> destination_slots d0 (refers (dir_handle (root repo))) (requested_path repo) pairs"
    and "exactly \<or> entries d0 s \<noteq> None"
  then show "entries d s = entries d0 s"
    using exactly all unfolding prepared_slots [OF prep] all_published_def published_result_def by blast
qed (use all in \<open>simp_all add: all_published_def\<close>)

lemma nothing_lost_pairs:
  assumes prep: "list_all2 (prepared refers lookup d0 repo) pairs ts"
    and root: "lookup d0 (requested_path repo) = Some (refers (dir_handle (root repo)))"
    and lost: "nothing_lost d0 ts d"
  shows "no_file_lost lookup (requested_path repo) pairs d0 d"
  unfolding no_file_lost_def
proof (intro conjI allI impI)
  fix s i assume s: "entries d0 s = Some i"
  consider "entries d s = Some i" | t where "t \<in> set ts" "s = name_slot refers t" "new_file_at d0 d t"
    using lost s unfolding nothing_lost_def by blast
  then show "entries d s = Some i \<or>
      (\<exists>(source, destination)\<in>set pairs. \<exists>r j f.
         lookup d0 (requested_path repo) = Some r \<and> destination_slot d0 r (requested_path repo) destination = Some s \<and>
         lookup d0 source = Some j \<and> entries d s = Some f \<and> \<not> linked d0 f \<and>
         complete d f (node_bytes (nodes d0 j)))"
  proof cases
    case (2 t)
    obtain source destination where p: "(source, destination) \<in> set pairs"
      "prepared refers lookup d0 repo (source, destination) t"
      using list_all2_right [OF prep 2(1)] by auto
    moreover obtain j where "lookup d0 source = Some j" "source_bytes t = node_bytes (nodes d0 j)"
      using p(2) by (auto simp: prepared_def)
    ultimately show ?thesis
      using root prepared_slot [OF p(2)] 2(2,3) by fastforce
  qed simp
qed (use lost in \<open>simp add: nothing_lost_def\<close>)

section \<open>Commands\<close>

lemma with_targets_wp:
  assumes "wp m (\<lambda>x s. Q x (snd s)) (\<lambda>e s. E e (snd s)) (ts, p)"
  shows "wp (with_targets ts m) Q E p"
  using assms by (auto simp: wp_def with_targets_def split: prod.splits sum.splits)

lemma restored_refl [simp]: "restored d d"
  by (simp add: restored_def)

lemma publish_targets_end:
  assumes prep: "list_all2 (prepared refers lookup (dsk p) repo) pairs ts"
    and root: "lookup (dsk p) (requested_path repo) = Some (refers (dir_handle (root repo)))"
    and apart: "distinct (map (\<lambda>pr. path_components (snd pr)) pairs)"
  shows "wp (with_targets ts (publish_all k))
    (\<lambda>_ p'. replaced True lookup (requested_path repo) pairs (dsk p) (dsk p') \<and>
       no_file_lost lookup (requested_path repo) pairs (dsk p) (dsk p'))
    (\<lambda>e p'. publish_failed_well lookup (requested_path repo) pairs (dsk p) e (dsk p')) p"
proof (rule with_targets_wp, rule wp_mono [OF publish_all_wp])
  fix t assume "t \<in> set ts"
  then show "fresh_target refers (dsk p) t" by (rule prepared_fresh [OF prep])
next
  fix i l assume "i < length ts" "l < length ts" "i \<noteq> l"
  then show "name_slot refers (ts ! i) \<noteq> name_slot refers (ts ! l)"
    by (rule prepared_slots_apart [OF prep apart])
next
  fix s :: "'h target list \<times> 'w prog" assume "published_result (dsk p) (dsk (snd s)) ts"
  then show "replaced True lookup (requested_path repo) pairs (dsk p) (dsk (snd s)) \<and>
      no_file_lost lookup (requested_path repo) pairs (dsk p) (dsk (snd s))"
    by (intro conjI published_replaced [OF prep root] nothing_lost_pairs [OF prep root])
      (simp_all add: published_result_def all_published_lost)
next
  fix e and s :: "'h target list \<times> 'w prog"
  assume a: "(undone_or_incomplete (dsk p) e s \<or> all_published (dsk p) (dsk (snd s)) ts) \<and>
      nothing_lost (dsk p) ts (dsk (snd s))"
  then show "publish_failed_well lookup (requested_path repo) pairs (dsk p) e (dsk (snd s))"
    using published_replaced [OF prep root, of "dsk (snd s)" False] nothing_lost_pairs [OF prep root, of "dsk (snd s)"]
    unfolding publish_failed_well_def by blast
qed

end

end
