(* ===== verification/Publish_Command.thy ===== *)
theory Publish_Command
  imports Publish_Outcome
begin

text \<open>
  The commands of the publisher from their arguments to their exit code.
\<close>

section \<open>What verifying checks\<close>

definition destinations_match ::
    "(disk \<Rightarrow> string \<Rightarrow> identity option) \<Rightarrow> string \<Rightarrow> (string \<times> string) list \<Rightarrow> disk \<Rightarrow> bool" where
  "destinations_match lk repo_root pairs d \<longleftrightarrow>
     (\<exists>r. lk d repo_root = Some r \<and>
        (\<forall>(source, destination)\<in>set pairs. \<exists>i s f.
           lk d source = Some i \<and> destination_slot d r repo_root destination = Some s \<and> entries d s = Some f \<and>
           regular (nodes d i) \<and> regular (nodes d f) \<and> node_bytes (nodes d f) = node_bytes (nodes d i)))"

definition exit_code :: "publish_error option \<times> i32 \<times> 'w prog \<Rightarrow> i32" where
  "exit_code = (\<lambda>(message, code, p). code)"

context file_system
begin

abbreviation up_to_date :: "disk \<Rightarrow> 'h target \<Rightarrow> bool" where
  "up_to_date d t \<equiv> \<exists>f. entries d (name_slot refers t) = Some f \<and> regular (nodes d f) \<and>
     node_bytes (nodes d f) = source_bytes t"

lemma verify_all_wp:
  fixes ts :: "'h target list"
  assumes "same p p'"
  shows "wp (verify_all k ts) (\<lambda>_ p''. same p p'' \<and> (\<forall>t\<in>set ts. up_to_date (dsk p) t)) (\<lambda>_. same p) p'"
  using assms
proof (induction ts arbitrary: p')
  case Nil
  then show ?case by (simp add: verify_all_def wp_def)
next
  case (Cons t ts)
  have "wp (verify k t) (\<lambda>_. wp (verify_all k ts)
      (\<lambda>_ p''. same p p'' \<and> (\<forall>t\<in>set (t # ts). up_to_date (dsk p) t)) (\<lambda>_. same p)) (\<lambda>_. same p) p'"
  proof (rule verify_wp)
    fix i p1
    assume s: "same p' p1" and i: "entries (dsk p') (name_slot refers t) = Some i"
      "regular (nodes (dsk p') i)" "node_bytes (nodes (dsk p') i) = source_bytes t"
    have "same p p1" using s Cons.prems by (simp add: unchanged_def)
    from Cons.IH [OF this]
    show "wp (verify_all k ts) (\<lambda>_ p''. same p p'' \<and> (\<forall>t\<in>set (t # ts). up_to_date (dsk p) t)) (\<lambda>_. same p) p1"
      by (rule wp_mono) (use i Cons.prems in \<open>simp_all add: unchanged_def\<close>)
  qed (use Cons.prems in \<open>simp add: unchanged_def\<close>)
  then show ?case by (simp add: verify_all_def wp_bind)
qed

lemma up_to_date_match:
  assumes prep: "list_all2 (prepared refers lookup d repo) pairs ts"
    and root: "lookup d (requested_path repo) = Some (refers (dir_handle (root repo)))"
    and all: "\<forall>t\<in>set ts. up_to_date d t"
  shows "destinations_match lookup (requested_path repo) pairs d"
  unfolding destinations_match_def
proof (intro exI conjI, rule root, rule ballI, rule case_prodI2)
  fix pair source destination assume pair: "pair \<in> set pairs" "pair = (source, destination)"
  obtain t where t: "t \<in> set ts" "prepared refers lookup d repo (source, destination) t"
    using list_all2_left [OF prep pair(1)] pair(2) by auto
  moreover obtain i where "lookup d source = Some i" "regular (nodes d i)" "source_bytes t = node_bytes (nodes d i)"
    using t(2) by (auto simp: prepared_def)
  moreover have "destination_slot d (refers (dir_handle (root repo))) (requested_path repo) destination = Some (name_slot refers t)"
    by (rule prepared_slot [OF t(2)])
  ultimately show "\<exists>i s f. lookup d source = Some i \<and>
      destination_slot d (refers (dir_handle (root repo))) (requested_path repo) destination = Some s \<and>
      entries d s = Some f \<and> regular (nodes d i) \<and> regular (nodes d f) \<and> node_bytes (nodes d f) = node_bytes (nodes d i)"
    using all by auto
qed

section \<open>The whole run\<close>

text \<open>What holds of a command once its targets are prepared holds of the run.\<close>

lemma run_publisher_wp:
  assumes command: "\<And>(repo :: 'h repository_lease) ts p' r0 pairs. parse_pairs remainder = Inr (r0, pairs) \<Longrightarrow> same p p' \<Longrightarrow>
      list_all2 (prepared refers lookup (dsk p) repo) pairs ts \<Longrightarrow> requested_path repo = r0 \<Longrightarrow>
      lookup (dsk p) (requested_path repo) = Some (refers (dir_handle (root repo))) \<Longrightarrow>
      distinct (map (\<lambda>pr. path_components (snd pr)) pairs) \<Longrightarrow>
      wp (run_command k command ts) (\<lambda>_ p. Q (dsk p)) (\<lambda>e p. E e (dsk p)) p'"
    and early: "\<And>e. E e (dsk p)"
  shows "wp (run_publisher k (command # remainder)) (\<lambda>_ p. Q (dsk p)) (\<lambda>e p. E e (dsk p)) p"
  unfolding run_publisher_def list.case
proof (intro wp_bindI wp_liftI)
  show "E e (dsk p)" for e by (rule early)
next
  fix rp assume parsed: "parse_pairs remainder = Inr rp"
  obtain r0 pairs where rp: "rp = (r0, pairs)" by fastforce
  let ?run = "\<lambda>repo. bindS (prepare_targets k repo pairs [] []) (run_command k command)"
  have prepared: "wp (?run repo) (\<lambda>_ p. Q (dsk p)) (\<lambda>e p. E e (dsk p)) p1"
    if s: "same p p1" and repo: "requested_path repo = r0" "is_absolute (dir_path (root repo))"
      "lookup (dsk p) r0 = Some (refers (dir_handle (root repo)))"
      "same_path (location (dsk p) (refers (dir_handle (root repo)))) (dir_path (root repo))" for repo :: "'h repository_lease" and p1
  proof (intro wp_bindI prepare_targets_wp)
    have d: "dsk p1 = dsk p" using s by (rule unchangedD(1))
    show "same_path (location (dsk p1) (refers (dir_handle (root repo)))) (dir_path (root repo))"
      using repo d by simp
    show "wp (run_command k command ts) (\<lambda>_ p. Q (dsk p)) (\<lambda>e p. E e (dsk p)) p2"
      if "same p1 p2" "list_all2 (prepared refers lookup (dsk p1) repo) ([] @ pairs) ts"
        "distinct (map (\<lambda>pr. path_components (snd pr)) ([] @ pairs))" for ts p2
      by (rule command [OF parsed [unfolded rp] unchanged_trans [OF s that(1)] _ repo(1)])
        (use that d repo in simp_all)
    show "E e (dsk p2)" if "same p1 p2" for e p2
      using early [of e] unchangedD(1) [OF that] d by simp
  qed (use repo in simp_all)
  have "wp (acquire_repository k r0)
      (\<lambda>repo. wp (finallyS (?run repo) (drop_repository k repo)) (\<lambda>_ p. Q (dsk p)) (\<lambda>e p. E e (dsk p)))
      (\<lambda>e p. E e (dsk p)) p"
  proof (rule acquire_repository_wp)
    fix repo :: "'h repository_lease" and p1 assume s: "same p p1" and repo: "requested_path repo = r0" "is_absolute (dir_path (root repo))"
      "lookup (dsk p) r0 = Some (refers (dir_handle (root repo)))"
      "same_path (location (dsk p) (refers (dir_handle (root repo)))) (dir_path (root repo))"
    show "wp (finallyS (?run repo) (drop_repository k repo)) (\<lambda>_ p. Q (dsk p)) (\<lambda>e p. E e (dsk p)) p1"
      unfolding wp_finally
      by (rule wp_mono [OF prepared [OF s repo]]) (intro drop_repository_wp, simp only: unchangedD(1))+
  qed (use early in \<open>simp only: unchangedD(1)\<close>)
  then show "wp (case rp of (r0, pairs) \<Rightarrow> bindS (acquire_repository k r0)
      (\<lambda>repo. finallyS (bindS (prepare_targets k repo pairs [] []) (run_command k command)) (drop_repository k repo)))
      (\<lambda>_ p. Q (dsk p)) (\<lambda>e p. E e (dsk p)) p"
    unfolding rp prod.case wp_bind .
qed

lemma prepared_run_wp:
  "wp (bindS (acquire_repository k repo_root) (\<lambda>repo.
      bindS (prepare_targets k repo pairs [] []) (\<lambda>ts. returnS (repo, ts))))
    (\<lambda>(repo, ts) p'. list_all2 (prepared refers lookup (dsk p) repo) pairs ts \<and>
       distinct (map (name_slot refers) ts) \<and> dsk p' = dsk p)
    (\<lambda>_ p'. dsk p' = dsk p) p"
proof (intro wp_bindI acquire_repository_wp prepare_targets_wp wp_returnI)
  fix repo :: "'h repository_lease" and p1 ts p2
  assume s: "same p p1" "same p1 p2"
    and ts: "list_all2 (prepared refers lookup (dsk p1) repo) ([] @ pairs) ts"
      "distinct (map (\<lambda>pr. path_components (snd pr)) ([] @ pairs))"
  have d: "dsk p1 = dsk p" "dsk p2 = dsk p" using s by (simp_all add: unchangedD(1))
  show "(case (repo, ts) of (repo, ts) \<Rightarrow> \<lambda>p'. list_all2 (prepared refers lookup (dsk p) repo) pairs ts \<and>
      distinct (map (name_slot refers) ts) \<and> dsk p' = dsk p) p2"
    using prepared_slots_distinct [of "dsk p" repo pairs ts] ts d by simp
qed (simp_all add: unchangedD(1))

lemma publish_run_wp:
  "wp (run_publisher k (''publish'' # repo_root # arguments))
     (\<lambda>_ p'. replaced True lookup repo_root (chunk_pairs arguments) (dsk p) (dsk p') \<and>
        no_file_lost lookup repo_root (chunk_pairs arguments) (dsk p) (dsk p'))
     (\<lambda>e p'. publish_failed_well lookup repo_root (chunk_pairs arguments) (dsk p) e (dsk p')) p"
proof (rule run_publisher_wp [where Q = "\<lambda>d. replaced True lookup repo_root (chunk_pairs arguments) (dsk p) d \<and>
        no_file_lost lookup repo_root (chunk_pairs arguments) (dsk p) d"])
  fix repo :: "'h repository_lease" and ts p' r pairs
  assume parsed: "parse_pairs (repo_root # arguments) = Inr (r, pairs)" and s: "same p p'"
    and rest: "list_all2 (prepared refers lookup (dsk p) repo) pairs ts" "requested_path repo = r"
      "lookup (dsk p) (requested_path repo) = Some (refers (dir_handle (root repo)))"
      "distinct (map (\<lambda>pr. path_components (snd pr)) pairs)"
  have r: "r = repo_root" "pairs = chunk_pairs arguments"
    using parsed by (auto simp: parse_pairs_def split: if_splits)
  show "wp (run_command k ''publish'' ts)
     (\<lambda>_ p'. replaced True lookup repo_root (chunk_pairs arguments) (dsk p) (dsk p') \<and>
        no_file_lost lookup repo_root (chunk_pairs arguments) (dsk p) (dsk p'))
     (\<lambda>e p'. publish_failed_well lookup repo_root (chunk_pairs arguments) (dsk p) e (dsk p')) p'"
    using publish_targets_end [of p' repo pairs ts] rest r unchangedD(1) [OF s]
    by (simp add: run_command_def)
qed (simp add: publish_failed_well_def)

lemma verify_run_wp:
  "wp (run_publisher k (''verify'' # repo_root # arguments))
     (\<lambda>_ p'. dsk p' = dsk p \<and> destinations_match lookup repo_root (chunk_pairs arguments) (dsk p))
     (\<lambda>e p'. dsk p' = dsk p) p"
proof (rule run_publisher_wp [where Q = "\<lambda>d. d = dsk p \<and> destinations_match lookup repo_root (chunk_pairs arguments) (dsk p)"
      and E = "\<lambda>_ d. d = dsk p"])
  fix repo :: "'h repository_lease" and ts p' r pairs
  assume parsed: "parse_pairs (repo_root # arguments) = Inr (r, pairs)" and s: "same p p'"
    and rest: "list_all2 (prepared refers lookup (dsk p) repo) pairs ts" "requested_path repo = r"
      "lookup (dsk p) (requested_path repo) = Some (refers (dir_handle (root repo)))"
  have r: "r = repo_root" "pairs = chunk_pairs arguments"
    using parsed by (auto simp: parse_pairs_def split: if_splits)
  have "wp (verify_all k ts) (\<lambda>_ p''. dsk p'' = dsk p \<and> destinations_match lookup repo_root (chunk_pairs arguments) (dsk p))
      (\<lambda>_ p''. dsk p'' = dsk p) p'"
    by (rule wp_mono [OF verify_all_wp [OF s]])
      (use up_to_date_match [OF rest(1,3)] rest(2) r in \<open>auto simp only: unchangedD(1)\<close>)
  then show "wp (run_command k ''verify'' ts)
     (\<lambda>_ p'. dsk p' = dsk p \<and> destinations_match lookup repo_root (chunk_pairs arguments) (dsk p))
     (\<lambda>e p'. dsk p' = dsk p) p'"
    by (simp add: run_command_def)
qed simp

lemma other_command_wp:
  assumes "command \<noteq> ''verify''" "command \<noteq> ''publish''"
  shows "wp (run_publisher k (command # arguments)) (\<lambda>_ _. False) (\<lambda>_ p'. dsk p' = dsk p) p"
  by (rule run_publisher_wp [where Q = "\<lambda>_. False" and E = "\<lambda>_ d. d = dsk p"])
    (use assms in \<open>simp_all add: run_command_def wp_fail unchangedD(1)\<close>)

end

end
