(* ===== verification/Memory_Disk.thy ===== *)
theory Memory_Disk
  imports Publish_Command "HOL-Library.AList"
begin

text \<open>
  A disk in memory whose calls keep the promises of \<open>file_system\<close>: one process, names as an association
  list, and a function that says which calls fail. A failing write leaves half of its bytes behind. It
  shows that the promises can be kept and lets the publisher run inside the logic.
\<close>

section \<open>The disk\<close>

type_synonym memory_handle = "identity \<times> nat"

record memory =
  links :: "(slot \<times> identity) list"
  objects :: "(identity \<times> node) list"
  places :: "(identity \<times> string) list"
  positions :: "(memory_handle \<times> nat) list"
  opened :: nat
  created :: nat
  calls :: nat

definition blank_node :: node where
  "blank_node = \<lparr>node_mode = S_IFDIR, node_owner = 0, node_group = 0, node_flags = 0, node_acl = [], node_bytes = []\<rparr>"

definition object_of :: "memory \<Rightarrow> identity \<Rightarrow> node" where
  "object_of w i = (case map_of (objects w) i of None \<Rightarrow> blank_node | Some n \<Rightarrow> n)"

definition place_of :: "memory \<Rightarrow> identity \<Rightarrow> string" where
  "place_of w i = (case map_of (places w) i of None \<Rightarrow> '''' | Some p \<Rightarrow> p)"

definition memory_disk :: "memory \<Rightarrow> disk" where
  "memory_disk w = \<lparr>entries = map_of (links w), nodes = object_of w, location = place_of w\<rparr>"

definition memory_offset :: "memory \<Rightarrow> memory_handle \<Rightarrow> nat" where
  "memory_offset w h = (case map_of (positions w) h of None \<Rightarrow> 0 | Some n \<Rightarrow> n)"

definition root_object :: identity where
  "root_object = \<lparr>device = 1, inode = 2\<rparr>"

fun follow :: "disk \<Rightarrow> identity \<Rightarrow> path_component list \<Rightarrow> identity option" where
  "follow d i [] = Some i"
| "follow d i (Normal n # cs) =
     (case entries d (i, n) of None \<Rightarrow> None | Some j \<Rightarrow> follow d j cs)"
| "follow d i (_ # cs) = None"

definition memory_lookup :: "disk \<Rightarrow> string \<Rightarrow> identity option" where
  "memory_lookup d p =
     (case path_components p of RootDir # cs \<Rightarrow> follow d root_object cs | _ \<Rightarrow> None)"

section \<open>The calls\<close>

text \<open>A call counts, and fails when its number is one of the faults.\<close>

definition faulty :: "(nat \<Rightarrow> bool) \<Rightarrow> (memory, os_error, 'a) action \<Rightarrow> (memory, os_error, 'a) action" where
  "faulty faults m w =
     (let w' = w\<lparr>calls := Suc (calls w)\<rparr> in
      if faults (calls w) then (Inl Custom_error, w') else m w')"

definition open_object :: "identity \<Rightarrow> (memory, os_error, memory_handle) action" where
  "open_object i w =
     (Inr (i, opened w),
      w\<lparr>positions := AList.delete (i, opened w) (positions w), opened := Suc (opened w)\<rparr>)"

definition put_object :: "identity \<Rightarrow> node \<Rightarrow> memory \<Rightarrow> memory" where
  "put_object i n w = w\<lparr>objects := AList.update i n (objects w)\<rparr>"

definition memory_openat ::
    "memory_handle \<Rightarrow> string \<Rightarrow> open_flag list \<Rightarrow> u16 \<Rightarrow> (memory, os_error, memory_handle) action" where
  "memory_openat dh n fl m w =
     (if O_CREAT \<in> set fl then
        (let i = \<lparr>device = 1, inode = of_nat (created w)\<rparr> in
         if map_of (links w) (fst dh, n) \<noteq> None \<or> i \<in> snd ` set (links w) then (Inl Custom_error, w)
         else open_object i
           (put_object i \<lparr>node_mode = or S_IFREG (and m 0xFFF), node_owner = 501, node_group = 20, node_flags = 0,
                          node_acl = [], node_bytes = []\<rparr>
             (w\<lparr>links := ((fst dh, n), i) # links w, created := Suc (created w)\<rparr>)))
      else
        (case map_of (links w) (fst dh, n) of
           None \<Rightarrow> (Inl (Raw_os_error ENOENT), w)
         | Some i \<Rightarrow> open_object i w))"

definition memory_rename :: "memory_handle \<Rightarrow> string \<Rightarrow> string \<Rightarrow> u32 \<Rightarrow> (memory, os_error, unit) action" where
  "memory_rename dh a b flags w =
     (case (map_of (links w) (fst dh, a), map_of (links w) (fst dh, b)) of
        (Some x, Some y) \<Rightarrow>
          if flags = RENAME_SWAP
          then (Inr (), w\<lparr>links := AList.update (fst dh, b) x (AList.update (fst dh, a) y (links w))\<rparr>)
          else (Inl Custom_error, w)
      | (Some x, None) \<Rightarrow>
          if flags = RENAME_EXCL
          then (Inr (), w\<lparr>links := AList.update (fst dh, b) x (AList.delete (fst dh, a) (links w))\<rparr>)
          else (Inl Custom_error, w)
      | _ \<Rightarrow> (Inl (Raw_os_error ENOENT), w))"

definition memory_unlink :: "memory_handle \<Rightarrow> string \<Rightarrow> (memory, os_error, unit) action" where
  "memory_unlink dh n w =
     (if map_of (links w) (fst dh, n) = None then (Inl (Raw_os_error ENOENT), w)
      else (Inr (), w\<lparr>links := AList.delete (fst dh, n) (links w)\<rparr>))"

definition write_object :: "memory_handle \<Rightarrow> bytes \<Rightarrow> memory \<Rightarrow> memory" where
  "write_object h bs w =
     (let n = object_of w (fst h) in
      (put_object (fst h) (n\<lparr>node_bytes := overwrite (memory_offset w h) bs (node_bytes n)\<rparr>) w)
        \<lparr>positions := AList.update h (memory_offset w h + length bs) (positions w)\<rparr>)"

definition memory_write ::
    "(nat \<Rightarrow> bool) \<Rightarrow> memory_handle \<Rightarrow> bytes \<Rightarrow> (memory, os_error, unit) action" where
  "memory_write faults h bs w =
     (let w' = w\<lparr>calls := Suc (calls w)\<rparr> in
      if faults (calls w) then (Inl Custom_error, write_object h (take (length bs div 2) bs) w')
      else (Inr (), write_object h bs w'))"

definition memory_kernel :: "(nat \<Rightarrow> bool) \<Rightarrow> (memory, memory_handle) kernel" where
  "memory_kernel faults =
     \<lparr>process_id = 42, geteuid = 501,
      sys_canonicalize = (\<lambda>p. faulty faults (\<lambda>w.
        (if is_absolute p \<and> memory_lookup (memory_disk w) p \<noteq> None then Inr p else Inl (Raw_os_error ENOENT), w))),
      sys_open = (\<lambda>p fl. faulty faults (\<lambda>w.
        case memory_lookup (memory_disk w) p of
          None \<Rightarrow> (Inl (Raw_os_error ENOENT), w) | Some i \<Rightarrow> open_object i w)),
      sys_openat = (\<lambda>dh n fl m. faulty faults (memory_openat dh n fl m)),
      sys_getpath = (\<lambda>h. faulty faults (\<lambda>w. (Inr (place_of w (fst h)), w))),
      sys_flock = (\<lambda>h lock. faulty faults (\<lambda>w. (Inr (), w))),
      sys_fstat = (\<lambda>h. faulty faults (\<lambda>w. (Inr (node_metadata (fst h) (object_of w (fst h))), w))),
      sys_fstatat = (\<lambda>dh n. faulty faults (\<lambda>w.
        (case map_of (links w) (fst dh, n) of
           None \<Rightarrow> Inl (Raw_os_error ENOENT)
         | Some i \<Rightarrow> Inr (node_metadata i (object_of w i)), w))),
      sys_fgetattrlist = (\<lambda>h cap. faulty faults (\<lambda>w.
        (let reply = attr_reply (node_acl (object_of w (fst h))) [] in
         if length reply \<le> cap then Inr reply else Inl Custom_error, w))),
      sys_rewind = (\<lambda>h. faulty faults (\<lambda>w. (Inr (), w\<lparr>positions := AList.delete h (positions w)\<rparr>))),
      sys_read_to_end = (\<lambda>h. faulty faults (\<lambda>w.
        (let bs = node_bytes (object_of w (fst h)) in
         (Inr (drop (memory_offset w h) bs), w\<lparr>positions := AList.update h (length bs) (positions w)\<rparr>)))),
      sys_write_all = memory_write faults,
      sys_fchmod = (\<lambda>h m. faulty faults (\<lambda>w.
        (Inr (), put_object (fst h) (change_mode m (object_of w (fst h))) w))),
      sys_fsync = (\<lambda>h. faulty faults (\<lambda>w. (Inr (), w))),
      sys_dup = (\<lambda>h. faulty faults (open_object (fst h))),
      sys_renameatx_np = (\<lambda>dh a b flags. faulty faults (memory_rename dh a b flags)),
      sys_unlinkat = (\<lambda>dh n. faulty faults (memory_unlink dh n))\<rparr>"

section \<open>The promises are kept\<close>

lemma map_of_without: "map_of (AList.delete s xs) = (map_of xs)(s := None)"
  by (induction xs) (auto simp: fun_eq_iff)

lemma faulty_cases:
  assumes "faulty faults m w = (r, w')"
  obtains "r = Inl Custom_error" "w' = w\<lparr>calls := Suc (calls w)\<rparr>"
  | "m (w\<lparr>calls := Suc (calls w)\<rparr>) = (r, w')"
proof (cases "faults (calls w)")
  case True
  with assms have "r = Inl Custom_error" "w' = w\<lparr>calls := Suc (calls w)\<rparr>"
    by (simp_all add: faulty_def)
  then show thesis by (rule that(1))
next
  case False
  with assms have "m (w\<lparr>calls := Suc (calls w)\<rparr>) = (r, w')"
    by (simp add: faulty_def)
  then show thesis by (rule that(2))
qed

lemma memory_disk_calls [simp]:
  "memory_disk (w\<lparr>calls := n\<rparr>) = memory_disk w"
  "memory_disk (w\<lparr>positions := ps\<rparr>) = memory_disk w"
  "memory_disk (w\<lparr>positions := ps, opened := m\<rparr>) = memory_disk w"
  "memory_disk (w\<lparr>positions := ps, opened := m, calls := n\<rparr>) = memory_disk w"
  by (simp_all add: memory_disk_def object_of_def place_of_def fun_eq_iff)

lemma memory_disk_simps [simp]:
  "entries (memory_disk w) = map_of (links w)" "nodes (memory_disk w) = object_of w"
  "location (memory_disk w) = place_of w"
  by (simp_all add: memory_disk_def)

lemma object_of_calls [simp]: "object_of (w\<lparr>calls := n\<rparr>) = object_of w"
  by (simp add: object_of_def fun_eq_iff)

lemma place_of_calls [simp]: "place_of (w\<lparr>calls := n\<rparr>) = place_of w"
  by (simp add: place_of_def fun_eq_iff)

lemma memory_offset_calls [simp]:
  "memory_offset (w\<lparr>calls := n\<rparr>) = memory_offset w"
  by (simp add: memory_offset_def fun_eq_iff)

lemma memory_disk_links:
  "memory_disk (w\<lparr>links := ls\<rparr>) = (memory_disk w)\<lparr>entries := map_of ls\<rparr>"
  by (simp add: memory_disk_def object_of_def place_of_def fun_eq_iff)

lemma memory_disk_put_object:
  "memory_disk (put_object i n w) = put_node i n (memory_disk w)"
  by (simp add: memory_disk_def object_of_def place_of_def put_object_def put_node_def update_conv' fun_eq_iff)


text \<open>Rules to prove a law of a call.\<close>

lemma faulty_disk:
  assumes "\<And>v. memory_disk (snd (m v)) = memory_disk v"
  shows "memory_disk (snd (faulty faults m w)) = memory_disk w"
  using assms by (simp add: faulty_def Let_def)

lemma faulty_Inr:
  assumes "faulty faults m w = (Inr x, w')"
  shows "m (w\<lparr>calls := Suc (calls w)\<rparr>) = (Inr x, w')"
  using assms by (rule faulty_cases) simp_all

lemma faulty_Inl_disk:
  assumes "faulty faults m w = (Inl e, w')"
    and "\<And>v v'. m v = (Inl e, v') \<Longrightarrow> memory_disk v' = memory_disk v"
  shows "memory_disk w' = memory_disk w"
  using assms(1)
proof (rule faulty_cases)
  assume "m (w\<lparr>calls := Suc (calls w)\<rparr>) = (Inl e, w')"
  then show ?thesis using assms(2) by simp
qed simp

lemma open_object_disk [simp]: "memory_disk (snd (open_object i w)) = memory_disk w"
  by (simp add: open_object_def)

lemma open_object_Inr:
  assumes "open_object i w = (Inr h, w')"
  shows "fst h = i" "memory_offset w' h = 0" "memory_disk w' = memory_disk w"
  using assms by (auto simp: open_object_def memory_offset_def map_of_without)

lemma open_object_not_Inl [simp]: "open_object i w \<noteq> (Inl e, w')"
  by (simp add: open_object_def)

text \<open>Opening.\<close>

lemma memory_openat_plain:
  assumes "O_CREAT \<notin> set fl"
  shows "memory_disk (snd (memory_openat dh n fl m w)) = memory_disk w"
    and "memory_openat dh n fl m w = (Inr h, w') \<Longrightarrow> map_of (links w) (fst dh, n) = Some (fst h) \<and> memory_offset w' h = 0"
  using assms by (auto simp: memory_openat_def split: option.splits dest: open_object_Inr)

lemma memory_openat_Inl:
  assumes "memory_openat dh n fl m w = (Inl e, w')"
  shows "memory_disk w' = memory_disk w"
  using assms by (auto simp: memory_openat_def Let_def split: if_splits option.splits)

lemma memory_openat_new:
  assumes creat: "O_CREAT \<in> set fl" and ok: "memory_openat dh n fl m w = (Inr h, w')"
  shows "map_of (links w) (fst dh, n) = None \<and> \<not> linked (memory_disk w) (fst h) \<and> memory_offset w' h = 0 \<and>
    (\<exists>nd. regular nd \<and> node_bytes nd = [] \<and>
       memory_disk w' = put_node (fst h) nd
         ((memory_disk w)\<lparr>entries := (map_of (links w))((fst dh, n) \<mapsto> fst h)\<rparr>))"
proof -
  let ?i = "\<lparr>device = 1, inode = of_nat (created w)\<rparr>"
  let ?nd = "\<lparr>node_mode = or S_IFREG (and m 0xFFF), node_owner = 501, node_group = 20, node_flags = 0,
    node_acl = [], node_bytes = []\<rparr>"
  let ?v = "put_object ?i ?nd (w\<lparr>links := ((fst dh, n), ?i) # links w, created := Suc (created w)\<rparr>)"
  have free: "map_of (links w) (fst dh, n) = None" "?i \<notin> snd ` set (links w)"
    and opened: "open_object ?i ?v = (Inr h, w')"
    using creat ok by (simp_all add: memory_openat_def Let_def split: if_splits)
  note h = open_object_Inr [OF opened]
  have "\<not> linked (memory_disk w) ?i"
    using free(2) by (force simp: linked_def dest: map_of_SomeD)
  moreover have "and (or S_IFREG (and m 0xFFF)) S_IFMT = S_IFREG"
    by (simp add: S_IFREG_def S_IFMT_def bit.conj_disj_distrib2 and.assoc)
  then have "regular ?nd" by (simp add: regular_def)
  moreover have "memory_disk (w\<lparr>links := ls, created := c\<rparr>) = (memory_disk w)\<lparr>entries := map_of ls\<rparr>" for ls c
    by (simp add: memory_disk_def object_of_def place_of_def fun_eq_iff)
  then have "memory_disk w' = put_node ?i ?nd ((memory_disk w)\<lparr>entries := (map_of (links w))((fst dh, n) \<mapsto> ?i)\<rparr>)"
    unfolding h memory_disk_put_object by simp
  ultimately show ?thesis
    using free(1) h by (intro conjI exI [of _ ?nd]) simp_all
qed

text \<open>Renaming and unlinking.\<close>

lemma memory_rename_Inl:
  assumes "memory_rename dh a b flags w = (Inl e, w')"
  shows "memory_disk w' = memory_disk w"
  using assms by (auto simp: memory_rename_def split: if_splits option.splits)

lemma memory_rename_swap:
  assumes "memory_rename dh a b RENAME_SWAP w = (Inr u, w')"
  shows "map_of (links w) (fst dh, a) \<noteq> None \<and> map_of (links w) (fst dh, b) \<noteq> None \<and>
    memory_disk w' = (memory_disk w)\<lparr>entries := (map_of (links w))
      ((fst dh, a) := map_of (links w) (fst dh, b), (fst dh, b) := map_of (links w) (fst dh, a))\<rparr>"
  using assms by (auto simp: memory_rename_def memory_disk_links update_conv' split: if_splits option.splits)

lemma memory_rename_excl:
  assumes "memory_rename dh a b RENAME_EXCL w = (Inr u, w')"
  shows "map_of (links w) (fst dh, a) \<noteq> None \<and> map_of (links w) (fst dh, b) = None \<and>
    memory_disk w' = (memory_disk w)\<lparr>entries := (map_of (links w))
      ((fst dh, a) := None, (fst dh, b) := map_of (links w) (fst dh, a))\<rparr>"
  using assms by (auto simp: memory_rename_def memory_disk_links map_of_without update_conv' split: if_splits option.splits)

lemma memory_unlink_Inl:
  assumes "memory_unlink dh n w = (Inl e, w')"
  shows "memory_disk w' = memory_disk w"
  using assms by (simp add: memory_unlink_def split: if_splits)

lemma memory_unlink_ok:
  assumes "memory_unlink dh n w = (Inr u, w')"
  shows "memory_disk w' = (memory_disk w)\<lparr>entries := (map_of (links w))((fst dh, n) := None)\<rparr>"
  using assms by (auto simp: memory_unlink_def memory_disk_links map_of_without split: if_splits)

text \<open>Writing.\<close>

lemma write_object_disk:
  "memory_disk (write_object h bs w) =
     put_node (fst h) ((object_of w (fst h))\<lparr>node_bytes :=
       overwrite (memory_offset w h) bs (node_bytes (object_of w (fst h)))\<rparr>) (memory_disk w)"
  by (simp add: write_object_def Let_def memory_disk_put_object)

lemma memory_write_Inl:
  assumes "memory_write faults h bs w = (Inl e, w')"
  shows "\<exists>bs'. memory_disk w' = put_node (fst h) ((object_of w (fst h))\<lparr>node_bytes := bs'\<rparr>) (memory_disk w)"
  using assms by (auto simp: memory_write_def Let_def write_object_disk split: if_splits)

lemma memory_write_Inr:
  assumes "memory_write faults h bs w = (Inr u, w')"
  shows "memory_disk w' = put_node (fst h) ((object_of w (fst h))\<lparr>node_bytes :=
       overwrite (memory_offset w h) bs (node_bytes (object_of w (fst h)))\<rparr>) (memory_disk w)"
  using assms by (auto simp: memory_write_def Let_def write_object_disk split: if_splits)

lemmas kernel_fields = memory_kernel_def kernel.simps

lemma memory_file_system:
  "file_system (memory_kernel faults) memory_disk fst memory_offset memory_lookup"
  apply (rule file_system.intro)
  apply (simp_all only: kernel_fields)
  subgoal by (rule faulty_disk) (simp split: option.splits)
  subgoal by (drule faulty_Inr) (auto split: if_splits)
  subgoal by (rule faulty_disk) (simp split: option.splits)
  subgoal by (drule faulty_Inr) (auto split: option.splits dest: open_object_Inr)
  subgoal by (rule faulty_disk) (rule memory_openat_plain(1))
  subgoal by (drule faulty_Inr, frule (1) memory_openat_plain(2)) simp
  subgoal by (erule faulty_Inl_disk) (rule memory_openat_Inl)
  subgoal by (drule faulty_Inr, frule (1) memory_openat_new) simp
  subgoal by (rule faulty_disk) (simp split: option.splits)
  subgoal by (drule faulty_Inr) simp
  subgoal by (rule faulty_disk) (simp split: option.splits)
  subgoal by (rule faulty_disk) (simp split: option.splits)
  subgoal by (simp add: faulty_def Let_def)
  subgoal by (drule faulty_Inr) auto
  subgoal by (rule faulty_disk) (simp split: option.splits)
  subgoal by (drule faulty_Inr) (auto split: option.splits)
  subgoal by (auto elim!: faulty_cases split: option.splits)
  subgoal by (rule faulty_disk) (simp split: option.splits)
  subgoal by (drule faulty_Inr) (auto simp: Let_def split: if_splits)
  subgoal by (rule faulty_disk) (simp split: option.splits)
  subgoal by (drule faulty_Inr) (auto simp: memory_offset_def map_of_without)
  subgoal by (rule faulty_disk) (simp add: Let_def)
  subgoal by (drule faulty_Inr) (auto simp: Let_def)
  subgoal by (drule memory_write_Inl) simp
  subgoal by (drule memory_write_Inr) simp
  subgoal by (erule faulty_Inl_disk) simp
  subgoal by (drule faulty_Inr) (auto simp: memory_disk_put_object)
  subgoal by (rule faulty_disk) (simp split: option.splits)
  subgoal by (rule faulty_disk) simp
  subgoal by (drule faulty_Inr) (rule open_object_Inr(1))
  subgoal by (erule faulty_Inl_disk) (rule memory_rename_Inl)
  subgoal by (drule faulty_Inr, drule memory_rename_swap) simp
  subgoal by (drule faulty_Inr, drule memory_rename_excl) simp
  subgoal by (erule faulty_Inl_disk) (rule memory_unlink_Inl)
  subgoal by (drule faulty_Inr, drule memory_unlink_ok) simp
  done

interpretation memory: file_system "memory_kernel faults" memory_disk fst memory_offset memory_lookup
  for faults
  by (rule memory_file_system)

end
