(* ===== verification/Memory_Run.thy ===== *)
theory Memory_Run
  imports Memory_Disk
begin

text \<open>
  Running the publisher on a small disk in memory, inside the logic: the actions are evaluated from the
  outside in, so that only the branch that is taken is looked at.
\<close>

section \<open>A small disk\<close>

text \<open>A repository \<open>/r\<close> with a source \<open>s\<close> and an old generated file \<open>d\<close>.\<close>

definition object_number :: "nat \<Rightarrow> identity" where
  "object_number n = \<lparr>device = 1, inode = of_nat n\<rparr>"

definition small_memory :: memory where
  "small_memory =
     \<lparr>links =
        [((object_number 2, ''r''), object_number 3),
         ((object_number 3, ''s''), object_number 4),
         ((object_number 3, ''d''), object_number 5)],
      objects =
        [(object_number 3, blank_node\<lparr>node_mode := 0x41ED, node_owner := 501\<rparr>),
         (object_number 4, blank_node\<lparr>node_mode := 0x81A4, node_owner := 501, node_bytes := [1, 2]\<rparr>),
         (object_number 5, blank_node\<lparr>node_mode := 0x81A4, node_owner := 501, node_bytes := [7]\<rparr>)],
      places = [(object_number 2, ''/''), (object_number 3, ''/r'')],
      positions = [], opened = 10, created = 9, calls = 10\<rparr>"

definition small_start :: "memory prog" where
  "small_start = \<lparr>world = small_memory, stage_counter = 0, quarantine_counter = 0\<rparr>"

definition small_run :: "(nat \<Rightarrow> bool) \<Rightarrow> string \<Rightarrow> publish_error option \<times> i32 \<times> memory prog" where
  "small_run faults command =
     publisher_main (memory_kernel faults) [command, ''/r'', ''/r/s'', ''/r/d''] small_start"

definition bytes_at :: "memory prog \<Rightarrow> string \<Rightarrow> bytes option" where
  "bytes_at p n = map_option (\<lambda>i. node_bytes (object_of (world p) i)) (map_of (links (world p)) (object_number 3, n))"



section \<open>Evaluating actions\<close>

text \<open>Only the state of an action is simplified; the action itself is looked at when it is run.\<close>

lemma bindS_cong: "s = s' \<Longrightarrow> bindS m g s = bindS m g s'" by simp
lemma map_errS_cong: "s = s' \<Longrightarrow> map_errS f m s = map_errS f m s'" by simp
lemma ignoreS_cong: "s = s' \<Longrightarrow> ignoreS m s = ignoreS m s'" by simp
lemma attemptS_cong: "s = s' \<Longrightarrow> attemptS m s = attemptS m s'" by simp
lemma finallyS_cong: "s = s' \<Longrightarrow> finallyS m f s = finallyS m f s'" by simp
lemma outside_cong: "s = s' \<Longrightarrow> outside m s = outside m s'" by simp
lemma with_self_cong: "s = s' \<Longrightarrow> with_self m s = with_self m s'" by simp
lemma at_index_cong: "s = s' \<Longrightarrow> at_index i m s = at_index i m s'" by simp
lemma faulty_cong: "s = s' \<Longrightarrow> faulty f m s = faulty f m s'" by simp
lemma call_cong: "s = s' \<Longrightarrow> call m s = call m s'" by simp

lemmas state_congs =
  bindS_cong map_errS_cong ignoreS_cong attemptS_cong finallyS_cong outside_cong with_self_cong at_index_cong faulty_cong call_cong

text \<open>What running an action does.\<close>

lemma bindS_eval: "bindS m g s = (case m s of (r, s') \<Rightarrow> (case r of Inl e \<Rightarrow> (Inl e, s') | Inr x \<Rightarrow> g x s'))"
  by (simp add: bindS_def split: prod.splits sum.splits)

lemma map_errS_eval: "map_errS f m s = (case m s of (r, s') \<Rightarrow> (case r of Inl e \<Rightarrow> (Inl (f e), s') | Inr x \<Rightarrow> (Inr x, s')))"
  by (simp add: map_errS_def split: prod.splits sum.splits)

lemma ignoreS_eval: "ignoreS m s = (case m s of (r, s') \<Rightarrow> (Inr (), s'))"
  by (simp add: ignoreS_def split: prod.splits sum.splits)

lemma attemptS_eval: "attemptS m s = (case m s of (r, s') \<Rightarrow> (Inr r, s'))"
  by (simp add: attemptS_def)

lemma finallyS_eval: "finallyS m f s = (case m s of (r, s') \<Rightarrow> (case f s' of (_, s'') \<Rightarrow> (r, s'')))"
  by (simp add: finallyS_def bindS_eval attemptS_def ignoreS_eval liftS_def split: prod.splits sum.splits)

lemma outside_eval: "outside m s = (case s of (t, p) \<Rightarrow> (case m p of (r, p') \<Rightarrow> (r, (t, p'))))"
  by (simp add: outside_def)

lemma with_self_eval: "with_self m s = (case s of (t, p) \<Rightarrow> m t (t, p))"
  by (simp add: with_self_def)

lemma modify_self_eval: "modify_self m s = (case s of (t, p) \<Rightarrow> (Inr (), (m t, p)))"
  by (simp add: modify_self_def)

lemma at_index_eval: "at_index i m s = (case s of (ts, p) \<Rightarrow> (case m (ts ! i, p) of (r, q) \<Rightarrow> (case q of (t, p') \<Rightarrow> (r, (ts[i := t], p')))))"
  by (simp add: at_index_def)

lemma faulty_eval:
  "faulty f m w =
     (if f (calls w) then (Inl Custom_error, w\<lparr>calls := Suc (calls w)\<rparr>) else m (w\<lparr>calls := Suc (calls w)\<rparr>))"
  by (simp add: faulty_def Let_def)

lemma parse_none: "parse_acl_reply path (attr_reply [] []) = Inr []"
  by (rule parse_attr_reply) (simp add: ACL_BUFFER_def)

lemma small_suffixes: "show_nat 42 = ''42''" "show_nat 0 = ''0''" "show_nat (Suc 0) = ''1''"
  by code_simp+

text \<open>The definitions of the program and of the disk.\<close>

lemmas run_evals =
  bindS_eval map_errS_eval ignoreS_eval attemptS_eval finallyS_eval outside_eval with_self_eval
  modify_self_eval at_index_eval faulty_eval parse_none bindR_def returnS_def failS_def
  is_absolute_def path_components_def entry_name_def path_push_def strip_prefix_def
  parent_components_def file_name_def call_def at_path_def os_at_def identity_differs_def
  access_differs_def capture_extended_acl_def inspect_open_object_def inspect_open_regular_file_def
  inspect_open_regular_identity_def read_open_file_def path_component_cstring_def
  slot_display_path_def open_existing_slot_def slot_identity_def ensure_slot_missing_def
  read_regular_slot_def open_new_stage_def rename_slot_def unlink_slot_def stage_suffix_def
  quarantine_suffix_def create_stage_name_def create_quarantine_name_def capture_def
  validate_handle_def validate_slot_def open_source_no_follow_def read_sealed_source_def
  open_optional_sealed_slot_def validate_destination_def destination_parent_def
  open_directory_path_def open_directory_at_def inspect_open_directory_def
  enforce_trusted_directory_policy_def validate_open_directory_def validate_directory_seal_def
  validate_root_def drop_repository_def acquire_repository_def final_seal_def
  validate_exclusive_namespace_def acquire_directory_def sync_directory_def
  prepare_with_directory_def verify_def quarantine_and_delete_sealed_slot_def no_provisional_def
  create_stage_def write_stage_def seal_stage_def stage_def not_published_def remove_rolled_back_def restore_previous_def
  remove_published_def rollback_def before_publish_def exchange_def after_publish_def publish_def
  finish_def cleanup_seal_def remove_stage_def discard_stage_def usage_message_def parse_pairs_def lease_for_def
  stage_failed_def undo_actions_def publish_failed_def publish_all_def verify_all_def
  with_targets_def run_command_def run_publisher_def publisher_main_def rejectS_def liftS_def
  ok_orS_def memory_kernel_def kernel.simps S_IFMT_def S_IFREG_def S_IFDIR_def ACL_BUFFER_def
  ENOENT_def RENAME_SWAP_def RENAME_EXCL_def small_suffixes same_path_def change_mode_def
  overwrite_def memory_lookup_def memory_openat_def memory_rename_def memory_unlink_def
  memory_write_def open_object_def put_object_def write_object_def memory_offset_def object_of_def
  place_of_def memory_disk_def blank_node_def object_number_def root_object_def small_run_def
  bytes_at_def small_start_def small_memory_def

section \<open>Runs\<close>

lemma small_publish_run:
  "case small_run (\<lambda>_. False) ''publish'' of
     (e, c, p) \<Rightarrow> (e, c, bytes_at p ''d'', bytes_at p ''s'', length (links (world p))) = (None, 0, Some [1, 2], Some [1, 2], 3)"
  by (simp add: run_evals Let_def cong: state_congs)

lemma small_verify_run:
  "case small_run (\<lambda>_. False) ''verify'' of
     (e, c, p) \<Rightarrow> (e \<noteq> None, c, bytes_at p ''d'', links (world p) = links small_memory) = (True, 1, Some [7], True)"
  by (simp add: run_evals Let_def cong: state_congs)

text \<open>The write of the stage stops half way: the stage is taken away and nothing else has changed.\<close>

lemma small_failed_run:
  "case small_run (\<lambda>n. n = 68) ''publish'' of
     (e, c, p) \<Rightarrow> (e \<noteq> None, c, bytes_at p ''d'', links (world p) = links small_memory) = (True, 1, Some [7], True)"
  by (simp add: run_evals Let_def cong: state_congs)

end
