(* ===== verification/Namespace_Laws.thy ===== *)
theory Namespace_Laws
  imports Leases_Laws
begin

text \<open>
  The exclusive namespace: what a successful validation says of every directory from the root of the
  repository down to the directory of a destination.
\<close>

section \<open>Trusted directories\<close>

text \<open>Owned by the effective user, not writable for group or others, no access control list.\<close>

definition trusted :: "u32 \<Rightarrow> access_state \<Rightarrow> bool" where
  "trusted effective_user access \<longleftrightarrow>
     access_owner access = effective_user \<and> \<not> bit (access_mode access) 4 \<and> \<not> bit (access_mode access) 1 \<and>
     extended_acl access = []"

lemma write_bits: "and (w :: u16) 0x12 = 0 \<longleftrightarrow> \<not> bit w 4 \<and> \<not> bit w 1"
proof -
  have m: "(0x12 :: u16) = or (2 ^ 4) (2 ^ 1)" by simp
  have "bit (0x12 :: u16) n \<longleftrightarrow> n = 4 \<or> n = 1" for n
    by (simp only: m bit_or_iff bit_exp_iff) auto
  then have "bit (and w 0x12) n \<longleftrightarrow> bit w n \<and> (n = 4 \<or> n = 1)" for n
    by (simp only: bit_and_iff)
  then show ?thesis
    by (metis bit_0_eq bot_apply bot_bool_def bit_eqI)
qed

lemma enforce_trusted_iff:
  "enforce_trusted_directory_policy effective_user path access = Inr () \<longleftrightarrow> trusted effective_user access"
  by (auto simp: enforce_trusted_directory_policy_def trusted_def write_bits)

section \<open>Validated namespaces\<close>

text \<open>The handle is bound to the sealed directory, which is as it was and where it was.\<close>

definition directory_held :: "u32 \<Rightarrow> disk \<Rightarrow> ('h \<Rightarrow> identity) \<Rightarrow> 'h directory_seal \<Rightarrow> bool" where
  "directory_held effective_user d rf seal \<longleftrightarrow>
     rf (dir_handle seal) = dir_identity seal \<and> is_directory (nodes d (dir_identity seal)) \<and>
     node_access (nodes d (dir_identity seal)) = dir_access seal \<and> trusted effective_user (dir_access seal) \<and>
     same_path (location d (dir_identity seal)) (dir_path seal)"

text \<open>Each directory is still the entry of the one above it that it was opened as.\<close>

fun directories_linked :: "disk \<Rightarrow> 'h directory_seal \<Rightarrow> 'h directory_seal list \<Rightarrow> bool" where
  "directories_linked d parent [] \<longleftrightarrow> True"
| "directories_linked d parent (seal # seals) \<longleftrightarrow>
     (\<exists>n. name_from_parent seal = Some n \<and> entries d (dir_identity parent, n) = Some (dir_identity seal)) \<and>
     directories_linked d seal seals"

definition namespace_held :: "u32 \<Rightarrow> disk \<Rightarrow> ('h \<Rightarrow> identity) \<Rightarrow> 'h directory_lease \<Rightarrow> bool" where
  "namespace_held effective_user d rf lease \<longleftrightarrow>
     list_all (directory_held effective_user d rf) (root (repository lease) # descendants lease) \<and>
     directories_linked d (root (repository lease)) (descendants lease)"

context file_system
begin

lemma validate_directory_seal_held:
  assumes "\<And>p'. same p p' \<Longrightarrow> directory_held (geteuid k) (disk (world p)) refers seal \<Longrightarrow> Q () p'"
    and "\<And>e p'. same p p' \<Longrightarrow> E e p'"
  shows "wp (validate_directory_seal k seal role) Q E p"
  unfolding validate_directory_seal_def
  by (intro wp_rules)
    (use assms in \<open>auto simp: unchanged_def directory_held_def dest!: enforce_trusted_iff [THEN iffD1]\<close>)

lemma validate_descendants_held:
  assumes "dir_identity parent = refers (dir_handle parent)"
    and "\<And>p'. same p p' \<Longrightarrow> list_all (directory_held (geteuid k) (disk (world p)) refers) seals \<Longrightarrow>
      directories_linked (disk (world p)) parent seals \<Longrightarrow> Q () p'"
    and "\<And>e p'. same p p' \<Longrightarrow> E e p'"
  shows "wp (validate_descendants k parent seals) Q E p"
  using assms
proof (induction seals arbitrary: parent p)
  case Nil
  then show ?case
    unfolding validate_descendants.simps by (intro wp_rules) simp
next
  case (Cons seal seals)
  show ?case
    unfolding validate_descendants.simps
  proof (intro wp_bindI validate_directory_seal_held)
    fix p1 assume s: "same p p1" and held: "directory_held (geteuid k) (disk (world p)) refers seal"
    have d: "disk (world p1) = disk (world p)" using s by (rule unchangedD(1))
    have id: "refers (dir_handle seal) = dir_identity seal" using held by (simp add: directory_held_def)
    show "wp (ok_orS (name_from_parent seal)
        (Message [Text ''internal error: destination ancestor lacks its parent-relative name'']))
      (\<lambda>n. wp (bindS (map_errS
         (\<lambda>e. Around [Text ''destination directory chain is missing or unreadable at '',
                    Shown (dir_path seal), Text '': ''] e [])
         (open_directory_at k (dir_handle parent) n (dir_path seal))) (\<lambda>reopened.
       bindS (inspect_open_directory k reopened (dir_path seal)) (\<lambda>(i, access).
       bindS (rejectS (i \<noteq> dir_identity seal)
         (identity_differs ''destination directory chain identity mismatched at ''
            (dir_path seal) (dir_identity seal) i)) (\<lambda>_.
       bindS (rejectS (access \<noteq> dir_access seal)
         (access_differs ''destination directory chain access policy mismatched at ''
            (dir_path seal) (dir_access seal) access)) (\<lambda>_.
       validate_descendants k seal seals))))) Q E) E p1"
      by (intro wp_rules Cons.IH) (use Cons.prems s held id in \<open>auto simp: unchanged_def\<close>)
  qed (use Cons.prems in simp)
qed

lemma validate_exclusive_namespace_held:
  assumes "\<And>p'. same p p' \<Longrightarrow> namespace_held (geteuid k) (disk (world p)) refers lease \<Longrightarrow> Q () p'"
    and "\<And>e p'. same p p' \<Longrightarrow> E e p'"
  shows "wp (validate_exclusive_namespace k lease) Q E p"
  unfolding validate_exclusive_namespace_def validate_root_def
  by (intro wp_bindI validate_directory_seal_held validate_open_directory_wp validate_descendants_held)
    (use assms in \<open>auto simp: unchanged_def namespace_held_def directory_held_def\<close>)

text \<open>A directory that was acquired has been validated.\<close>

lemma acquire_directory_held:
  assumes "\<And>lease p'. same p p' \<Longrightarrow> repository lease = repo \<Longrightarrow>
      namespace_held (geteuid k) (disk (world p)) refers lease \<Longrightarrow> Q lease p'"
    and "\<And>e p'. same p p' \<Longrightarrow> E e p'"
  shows "wp (acquire_directory k repo path) Q E p"
  unfolding acquire_directory_def Let_def
  by (intro wp_bindI validate_root_wp wp_ok_orI open_descendants_wp validate_exclusive_namespace_held wp_returnI)
    (use assms in \<open>auto simp: unchanged_def\<close>)

end

end
