(* ===== verification/Publisher_Properties.thy ===== *)
theory Publisher_Properties
  imports Memory_Run Namespace_Laws
begin

text \<open>
  What the publisher of generated sources promises, over every operating system that keeps the promises
  of \<open>file_system\<close>; each is applied to the disk in memory.
\<close>

lemma foldl_push_components:
  "is_absolute p \<Longrightarrow> list_all entry_name ns \<Longrightarrow>
     path_components (foldl path_push p ns) = path_components p @ map Normal ns"
  by (induction ns arbitrary: p) (simp_all add: path_components_push)

definition inside_root :: "string \<Rightarrow> string \<Rightarrow> bool" where
  "inside_root repo_root destination \<longleftrightarrow>
     is_absolute repo_root \<and> is_absolute destination \<and>
     (\<exists>ns leaf. path_components destination = path_components repo_root @ map Normal (ns @ [leaf]))"

lemma small_offset:
  fixes w :: u32
  shows "- (2 ^ 31) \<le> sint w" "sint w < 2 ^ 31"
  using sint_greater_eq [of w] sint_less [of w] by simp_all

definition small_lease :: "memory_handle directory_lease" where
  "small_lease =
     \<lparr>repository = \<lparr>requested_path = ''/r'',
        root = \<lparr>dir_handle = (object_number 3, 0), dir_path = ''/r'', name_from_parent = None,
                 dir_identity = object_number 3,
                 dir_access = \<lparr>access_mode = 0x1ED, access_owner = 501, access_group = 0, access_flags = 0,
                               extended_acl = []\<rparr>\<rparr>\<rparr>,
      descendants = []\<rparr>"

definition small_seal :: "memory_handle file_seal" where
  "small_seal =
     \<lparr>seal_handle = (object_number 5, 0), seal_identity = object_number 5,
      seal_access = node_access (object_of small_memory (object_number 5)), seal_bytes = [7]\<rparr>"

section \<open>Runs\<close>

text \<open>C4: A publish run that succeeds leaves at every destination a new, complete, readable file with the
  bytes its source had and nothing else changed; one that fails has restored everything, or lists in its
  error what it could not clean up, or had published everything and only kept backups; no call's failure
  is excluded.\<close>
theorem publish_replaces_or_restores:
  assumes "file_system k disk refers offset lookup"
  shows "case run_publisher k (''publish'' # repo_root # arguments) p of
      (Inr _, p') \<Rightarrow> replaced True lookup repo_root (chunk_pairs arguments) (disk (world p)) (disk (world p'))
    | (Inl e, p') \<Rightarrow>
        restored (disk (world p)) (disk (world p')) \<or> (\<exists>e0 what es. e = Joined e0 what es \<and> es \<noteq> []) \<or>
        replaced False lookup repo_root (chunk_pairs arguments) (disk (world p)) (disk (world p'))"
  using file_system.publish_run_wp [OF assms, of repo_root arguments p]
  by (auto simp: wp_def publish_failed_well_def split: prod.splits sum.splits)

theorem publish_replaces_or_restores_witness:
  "case run_publisher (memory_kernel (\<lambda>n. n = 70)) (''publish'' # ''/r'' # [''/r/s'', ''/r/d'']) small_start of
      (Inr _, p') \<Rightarrow> replaced True memory_lookup ''/r'' (chunk_pairs [''/r/s'', ''/r/d''])
        (memory_disk (world small_start)) (memory_disk (world p'))
    | (Inl e, p') \<Rightarrow>
        restored (memory_disk (world small_start)) (memory_disk (world p')) \<or>
        (\<exists>e0 what es. e = Joined e0 what es \<and> es \<noteq> []) \<or>
        replaced False memory_lookup ''/r'' (chunk_pairs [''/r/s'', ''/r/d''])
          (memory_disk (world small_start)) (memory_disk (world p'))"
  by (rule publish_replaces_or_restores [OF memory_file_system])

text \<open>C3: However a publish run ends, whatever calls failed and even when its clean-up failed, every name
  that existed still names its unchanged file, or is a destination that names a complete new file. Since a
  machine that stops is one whose remaining calls fail, this holds at every moment of the run.\<close>
theorem publish_loses_no_file:
  assumes "file_system k disk refers offset lookup"
  shows "no_file_lost lookup repo_root (chunk_pairs arguments) (disk (world p))
    (disk (world (snd (run_publisher k (''publish'' # repo_root # arguments) p))))"
  using file_system.publish_run_wp [OF assms, of repo_root arguments p]
  by (auto simp: wp_def publish_failed_well_def split: prod.splits sum.splits)

theorem publish_loses_no_file_witness:
  "no_file_lost memory_lookup ''/r'' (chunk_pairs [''/r/s'', ''/r/d'']) (memory_disk (world small_start))
    (memory_disk (world (snd (run_publisher (memory_kernel (\<lambda>n. n > 120))
       (''publish'' # ''/r'' # [''/r/s'', ''/r/d'']) small_start))))"
  by (rule publish_loses_no_file [OF memory_file_system])

text \<open>C20: Verifying changes nothing, and succeeds only when every destination holds the bytes of its
  source.\<close>
theorem verify_only_compares:
  assumes "file_system k disk refers offset lookup"
  shows "case run_publisher k (''verify'' # repo_root # arguments) p of
      (Inr _, p') \<Rightarrow> disk (world p') = disk (world p) \<and>
        destinations_match lookup repo_root (chunk_pairs arguments) (disk (world p))
    | (Inl e, p') \<Rightarrow> disk (world p') = disk (world p)"
  using file_system.verify_run_wp [OF assms, of repo_root arguments p]
  by (auto simp: wp_def split: prod.splits sum.splits)

theorem verify_only_compares_witness:
  "case run_publisher (memory_kernel (\<lambda>_. False)) (''verify'' # ''/r'' # [''/r/s'', ''/r/d'']) small_start of
      (Inr _, p') \<Rightarrow> memory_disk (world p') = memory_disk (world small_start) \<and>
        destinations_match memory_lookup ''/r'' (chunk_pairs [''/r/s'', ''/r/d'']) (memory_disk (world small_start))
    | (Inl e, p') \<Rightarrow> memory_disk (world p') = memory_disk (world small_start)"
  by (rule verify_only_compares [OF memory_file_system])

text \<open>Any other command, and any command with arguments that are not a root and pairs, ends with exit
  code 1 and a message, and the disk as it was.\<close>
theorem wrong_command_changes_nothing:
  assumes "file_system k disk refers offset lookup"
    and "arguments = [] \<or> (\<exists>e. parse_pairs (tl arguments) = Inl e) \<or> hd arguments \<notin> {''verify'', ''publish''}"
  shows "case publisher_main k arguments p of (message, c, p') \<Rightarrow>
    message \<noteq> None \<and> c = 1 \<and> disk (world p') = disk (world p)"
proof (cases arguments)
  case Nil
  then show ?thesis by (simp add: publisher_main_def run_publisher_def failS_def)
next
  case (Cons command remainder)
  show ?thesis
  proof (cases "parse_pairs remainder")
    case (Inl e)
    then show ?thesis
      using Cons by (simp add: publisher_main_def run_publisher_def bindS_def liftS_def)
  next
    case (Inr rp)
    then have "command \<noteq> ''verify''" "command \<noteq> ''publish''" using assms(2) Cons by auto
    from file_system.other_command_wp [OF assms(1) this, of remainder p] Cons show ?thesis
      by (auto simp: wp_def publisher_main_def split: prod.splits sum.splits)
  qed
qed

theorem wrong_command_changes_nothing_witness:
  "case publisher_main (memory_kernel (\<lambda>_. False)) [''check'', ''/r'', ''/r/s'', ''/r/d''] small_start of
    (message, c, p') \<Rightarrow> message \<noteq> None \<and> c = 1 \<and> memory_disk (world p') = memory_disk (world small_start)"
  by (rule wrong_command_changes_nothing [OF memory_file_system]) simp

text \<open>On the small disk in memory, where no call fails, publishing exits with 0 and no message, the
  destination has the bytes of its source, and no stage or backup is left.\<close>
theorem small_publish_succeeds:
  "case small_run (\<lambda>_. False) ''publish'' of (message, c, p) \<Rightarrow>
     message = None \<and> c = 0 \<and> bytes_at p ''d'' = bytes_at p ''s'' \<and> bytes_at p ''s'' = Some [1, 2] \<and>
     length (links (world p)) = length (links small_memory)"
  using small_publish_run by (simp add: small_memory_def split: prod.splits)

section \<open>Preparation\<close>

text \<open>C23: Preparation makes one well-formed target for each pair of arguments: a directory inside the
  repository that the path of the destination leads to, the bytes of the source, the seal of the file the
  destination names now; and no two targets have the same destination. Nothing on the disk changes.\<close>
theorem prepared_targets_well_formed:
  assumes "file_system k disk refers offset lookup"
  shows "case bindS (acquire_repository k repo_root) (\<lambda>repo.
      bindS (prepare_targets k repo pairs [] []) (\<lambda>ts. returnS (repo, ts))) p of
      (Inr (repo, ts), p') \<Rightarrow>
        list_all2 (prepared refers lookup (disk (world p)) repo) pairs ts \<and>
        distinct (map (name_slot refers) ts) \<and> disk (world p') = disk (world p)
    | (Inl e, p') \<Rightarrow> disk (world p') = disk (world p)"
  using file_system.prepared_run_wp [OF assms, of repo_root pairs p]
  by (auto simp: wp_def split: prod.splits sum.splits)

theorem prepared_targets_well_formed_witness:
  "case bindS (acquire_repository (memory_kernel (\<lambda>_. False)) ''/r'') (\<lambda>repo.
      bindS (prepare_targets (memory_kernel (\<lambda>_. False)) repo [(''/r/s'', ''/r/d'')] [] [])
        (\<lambda>ts. returnS (repo, ts))) small_start of
      (Inr (repo, ts), p') \<Rightarrow>
        list_all2 (prepared fst memory_lookup (memory_disk (world small_start)) repo) [(''/r/s'', ''/r/d'')] ts \<and>
        distinct (map (name_slot fst) ts) \<and> memory_disk (world p') = memory_disk (world small_start)
    | (Inl e, p') \<Rightarrow> memory_disk (world p') = memory_disk (world small_start)"
  by (rule prepared_targets_well_formed [OF memory_file_system])

text \<open>C24: A destination is accepted exactly when it is absolute and its components extend those of the
  absolute repository root by file names only, at least one; its parent then has its components but the
  last.\<close>
theorem destinations_inside_root:
  "case validate_destination repo_root destination of
      Inr parent \<Rightarrow> inside_root repo_root destination \<and> path_components parent = butlast (path_components destination)
    | Inl e \<Rightarrow> \<not> inside_root repo_root destination"
proof (cases "validate_destination repo_root destination")
  case (Inl e)
  then show ?thesis
    using validate_destination_iff [of repo_root destination] by (auto simp: inside_root_def)
next
  case (Inr parent)
  then obtain ns leaf where p: "is_absolute repo_root" "is_absolute destination"
    "path_components destination = path_components repo_root @ map Normal (ns @ [leaf])"
    "parent = foldl path_push repo_root ns"
    using validate_destination_iff [of repo_root destination parent] by auto
  have "Normal n \<in> set (path_components destination)" if "n \<in> set ns" for n
    unfolding p(3) using that by simp
  then have "list_all entry_name ns"
    using path_component_entry unfolding list_all_iff by blast
  then show ?thesis
    using Inr p by (auto simp: inside_root_def foldl_push_components butlast_append)
qed

text \<open>C22: A successful validation of the exclusive namespace means that every directory from the root of
  the repository down is held, is a directory, is where and as it was sealed, belongs to the user, cannot
  be written by others and has no access control list, and is still the entry of the directory above that
  it was opened as; validating changes nothing.\<close>
theorem validated_namespace_is_exclusive:
  assumes "file_system k disk refers offset lookup"
  shows "case validate_exclusive_namespace k lease p of
      (Inr _, p') \<Rightarrow> namespace_held (geteuid k) (disk (world p)) refers lease \<and> disk (world p') = disk (world p)
    | (Inl e, p') \<Rightarrow> disk (world p') = disk (world p)"
proof -
  have "wp (validate_exclusive_namespace k lease)
      (\<lambda>_ p'. namespace_held (geteuid k) (disk (world p)) refers lease \<and> disk (world p') = disk (world p))
      (\<lambda>_ p'. disk (world p') = disk (world p)) p"
    by (rule file_system.validate_exclusive_namespace_held [OF assms]) (simp_all add: unchangedD(1))
  then show ?thesis by (simp add: wp_def split: prod.splits sum.splits)
qed

theorem validated_namespace_is_exclusive_witness:
  "case validate_exclusive_namespace (memory_kernel (\<lambda>_. False)) small_lease small_start of
      (Inr _, p') \<Rightarrow> namespace_held (geteuid (memory_kernel (\<lambda>_. False))) (memory_disk (world small_start)) fst small_lease \<and>
        memory_disk (world p') = memory_disk (world small_start)
    | (Inl e, p') \<Rightarrow> memory_disk (world p') = memory_disk (world small_start)"
  by (rule validated_namespace_is_exclusive [OF memory_file_system])

section \<open>Single operations\<close>

text \<open>C21: Quarantining deletes a file only when the name really led to the sealed, still unchanged file;
  otherwise nothing is deleted: the disk is as it was, or the file has a new name beside the old one.\<close>
theorem quarantine_deletes_only_sealed:
  assumes "file_system k disk refers offset lookup"
  shows "case quarantine_and_delete_sealed_slot k dir n path role seal p of
      (Inr _, p') \<Rightarrow>
        entries (disk (world p)) (refers (lease_fd dir), n) = Some (seal_identity seal) \<and>
        matches (disk (world p)) seal \<and> refers (seal_handle seal) = seal_identity seal \<and>
        relinked (disk (world p)) ((entries (disk (world p)))((refers (lease_fd dir), n) := None)) (disk (world p'))
    | (Inl e, p') \<Rightarrow> disk (world p') = disk (world p) \<or>
        (\<exists>i q. entries (disk (world p)) (refers (lease_fd dir), n) = Some i \<and>
           entries (disk (world p)) (refers (lease_fd dir), q) = None \<and>
           relinked (disk (world p)) ((entries (disk (world p)))((refers (lease_fd dir), n) := None,
             (refers (lease_fd dir), q) \<mapsto> i)) (disk (world p')))"
proof -
  have "wp (quarantine_and_delete_sealed_slot k dir n path role seal)
      (\<lambda>_ p'. entries (disk (world p)) (refers (lease_fd dir), n) = Some (seal_identity seal) \<and>
        matches (disk (world p)) seal \<and> refers (seal_handle seal) = seal_identity seal \<and>
        relinked (disk (world p)) ((entries (disk (world p)))((refers (lease_fd dir), n) := None)) (disk (world p')))
      (\<lambda>e p'. disk (world p') = disk (world p) \<or>
        (\<exists>i q. entries (disk (world p)) (refers (lease_fd dir), n) = Some i \<and>
           entries (disk (world p)) (refers (lease_fd dir), q) = None \<and>
           relinked (disk (world p)) ((entries (disk (world p)))((refers (lease_fd dir), n) := None,
             (refers (lease_fd dir), q) \<mapsto> i)) (disk (world p')))) p"
    by (rule file_system.quarantine_wp [OF assms]) (auto simp: holds_def)
  then show ?thesis by (simp add: wp_def split: prod.splits sum.splits)
qed

theorem quarantine_deletes_only_sealed_witness:
  "case quarantine_and_delete_sealed_slot (memory_kernel (\<lambda>_. False)) small_lease ''d'' ''/r/d'' ''destination''
      small_seal small_start of
      (Inr _, p') \<Rightarrow>
        entries (memory_disk (world small_start)) (fst (lease_fd small_lease), ''d'') = Some (seal_identity small_seal) \<and>
        matches (memory_disk (world small_start)) small_seal \<and> fst (seal_handle small_seal) = seal_identity small_seal \<and>
        relinked (memory_disk (world small_start))
          ((entries (memory_disk (world small_start)))((fst (lease_fd small_lease), ''d'') := None)) (memory_disk (world p'))
    | (Inl e, p') \<Rightarrow> memory_disk (world p') = memory_disk (world small_start) \<or>
        (\<exists>i q. entries (memory_disk (world small_start)) (fst (lease_fd small_lease), ''d'') = Some i \<and>
           entries (memory_disk (world small_start)) (fst (lease_fd small_lease), q) = None \<and>
           relinked (memory_disk (world small_start))
             ((entries (memory_disk (world small_start)))((fst (lease_fd small_lease), ''d'') := None,
               (fst (lease_fd small_lease), q) \<mapsto> i)) (memory_disk (world p')))"
  by (rule quarantine_deletes_only_sealed [OF memory_file_system])

text \<open>C25: The parser of the kernel's answer returns exactly the bytes the answer points at, and only when
  they lie between the header and the returned length, which fits the buffer; it never reads outside it.\<close>
theorem acl_reply_within_buffer:
  "parse_acl_reply path written = Inr acl \<longleftrightarrow>
     (\<exists>start. 4 + sint (read_u32 written 4) = int start \<and>
        12 \<le> unat (read_u32 written 0) \<and> unat (read_u32 written 0) \<le> ACL_BUFFER \<and> 12 \<le> start \<and>
        start + unat (read_u32 written 8) \<le> unat (read_u32 written 0) \<and>
        acl = buffer_slice written start (start + unat (read_u32 written 8)))"
proof -
  define total where "total = unat (read_u32 written 0)"
  define off where "off = 4 + sint (read_u32 written 4)"
  define len where "len = read_u32 written 8"
  have off: "- (2 ^ 63) \<le> off" "off < 2 ^ 63" "off < 2 ^ 32"
    using small_offset [of "read_u32 written 4"] by (simp_all add: off_def)
  have len: "unat len < 2 ^ 32" using unat_less_2p [of len] by simp
  show ?thesis
  proof (cases "0 \<le> off")
    case False
    then have "off \<noteq> int start" for start by linarith
    then show ?thesis
      using False off by (auto simp: parse_acl_reply_def Let_def off_def [symmetric])
  next
    case True
    then obtain start where start: "off = int start" by (metis nonneg_int_cases)
    have small: "start < 2 ^ 32" using off(3) start by simp
    have s: "unat (of_int off :: usize) = start" "unat (ucast len :: usize) = unat len"
      using small by (simp_all add: start unat_of_nat)
    have add: "checked_add (of_int off :: usize) (ucast len) = Some (of_int off + ucast len)"
      using small len s by (simp add: checked_add_def)
    have sum: "unat (of_int off + ucast len :: usize) = start + unat len"
      using checked_add_SomeD [OF add] s small len by simp
    have "parse_acl_reply path written =
      (if total < 12 \<or> ACL_BUFFER < total then
         Inl (Message [Text ''extended ACL descriptor response had an invalid length for '', Shown path, Text '': '', Number total])
       else if start < 12 \<or> total < start + unat len then
         Inl (at_path ''extended ACL descriptor response was out of bounds for '' path)
       else Inr (buffer_slice written start (start + unat len)))"
      using off True add s sum
      by (simp add: parse_acl_reply_def Let_def total_def off_def [symmetric] len_def [symmetric])
    then show ?thesis
      using start by (auto simp: total_def [symmetric] off_def [symmetric] len_def [symmetric])
  qed
qed

text \<open>A directory is rejected exactly when it is not the user's, can be written by the group or others,
  or has an access control list, and the error names the first of these that holds.\<close>
theorem untrusted_directory_error:
  "enforce_trusted_directory_policy user path access =
     (if trusted user access then Inr ()
      else Inl (if access_owner access \<noteq> user then
          Message [Text ''destination directory is not owned by the effective user at '', Shown path,
                   Text '': expected uid '', Number (unat user), Text '', found '', Number (unat (access_owner access))]
        else if bit (access_mode access) 4 \<or> bit (access_mode access) 1 then
          Message [Text ''destination directory permits group or other writes at '', Shown path,
                   Text '': mode '', Mode (access_mode access)]
        else Message [Text ''destination directory has an extended ACL and is not a trusted-exclusive namespace: '',
                      Shown path]))"
  by (auto simp: enforce_trusted_directory_policy_def trusted_def write_bits at_path_def)

end
