(* ===== verification/Proto_Codegen.thy ===== *)
theory Proto_Codegen
  imports Prelude
begin

text \<open>
  The driver of the protobuf code generator, \<open>tools/proto-codegen/src/main.rs\<close>: its arguments, the
  output directory, one call of \<open>prost_build\<close>. The library and \<open>create_dir_all\<close> are parameters, actions
  on the state \<open>'w\<close> of the file system.
\<close>

datatype codegen_error = CodegenUsage string | CodegenIo io_error

definition codegen_usage :: string where
  "codegen_usage = ''usage: proto-codegen <protoc> <out-dir>''"

text \<open>The configuration handed to \<open>prost_build\<close>.\<close>

record codegen_config =
  protoc_executable :: string
  codegen_out_dir :: string

text \<open>\<open>ok_or\<close> on the next argument.\<close>

fun next_arg :: "string list \<Rightarrow> codegen_error + string \<times> string list" where
  "next_arg [] = Inl (CodegenUsage codegen_usage)"
| "next_arg (a # args) = Inr (a, args)"

text \<open>\<open>args\<close> are the process's arguments, the program's own name first.\<close>

definition codegen_main ::
  "(string \<Rightarrow> ('w, io_error, unit) action) \<Rightarrow>
   (codegen_config \<Rightarrow> string list \<Rightarrow> string list \<Rightarrow> ('w, io_error, unit) action) \<Rightarrow>
   string list \<Rightarrow> ('w, codegen_error, unit) action" where
  "codegen_main create_dir_all compile_protos args w =
     (case bindR (next_arg (drop 1 args)) (\<lambda>(protoc, args).
           bindR (next_arg args) (\<lambda>(out_dir, args).
           if args \<noteq> [] then Inl (CodegenUsage codegen_usage)
           else Inr (protoc, out_dir)))
      of
        Inl e \<Rightarrow> (Inl e, w)
      | Inr (protoc, out_dir) \<Rightarrow>
          bindS (map_errS CodegenIo (create_dir_all out_dir)) (\<lambda>_.
          map_errS CodegenIo
            (compile_protos \<lparr>protoc_executable = protoc, codegen_out_dir = out_dir\<rparr>
              [''proto/diskplan/v1/ipc.proto''] [''proto''])) w)"

text \<open>Any other number of arguments than two is the usage error and touches nothing.\<close>

lemma codegen_usage_error:
  "length args \<noteq> 3 \<Longrightarrow> codegen_main create compile args w = (Inl (CodegenUsage codegen_usage), w)"
  by (cases args rule: next_arg.cases; cases "tl args" rule: next_arg.cases; cases "tl (tl args)" rule: next_arg.cases)
    (auto simp: codegen_main_def)

text \<open>The generator runs only after its output directory is there, on this repository's one schema.\<close>

lemma codegen_creates_first:
  assumes "create out_dir w = (r, w1)"
  shows "codegen_main create compile [program, protoc, out_dir] w =
    (case r of
       Inl e \<Rightarrow> (Inl (CodegenIo e), w1)
     | Inr _ \<Rightarrow> map_errS CodegenIo (compile \<lparr>protoc_executable = protoc, codegen_out_dir = out_dir\<rparr>
          [''proto/diskplan/v1/ipc.proto''] [''proto'']) w1)"
  using assms by (simp add: codegen_main_def bindS_def map_errS_def split: sum.split)

end
