(* ===== verification/Spec2Isabelle.thy ===== *)
theory Spec2Isabelle
  imports Canonical_Laws Framing_Laws Handshake Session_Bounds Transport Interactive Render_Laws
    Publisher_Properties Proto_Codegen
begin

text \<open>
  A verification library of diskplan's Rust side: the terminal frontend, the protocol it speaks with
  the Swift engine, the canonical encoding of evidence, and the tool that publishes generated sources.
  Paths are under \<open>src/rust\<close>, those of the frontend under its directory \<open>crates\<close>.

  How the program works. The command line (\<open>diskplan-cli/src/main.rs\<close>) starts the interactive program
  (\<open>tui/mod.rs\<close>). A driver thread (\<open>tui/driver.rs\<close>) owns a session with the engine process
  (\<open>diskplan-cli/src/lib.rs\<close>): it spawns the child, negotiates a version and capabilities
  (\<open>diskplan-core/src/handshake.rs\<close>), exchanges protobuf envelopes (\<open>diskplan-proto\<close>) in
  length-prefixed frames (\<open>diskplan-core/src/framing.rs\<close>), forwards the user's controls and puts the
  engine's events into a bounded channel that merges runs of progress events (\<open>tui/event.rs\<close>). The
  application loop (\<open>tui/app.rs\<close>) takes events from the channel and the terminal, reduces them
  (\<open>tui/reducer.rs\<close>) to a new state (\<open>tui/model.rs\<close>) and effects for the driver, and draws the state
  (\<open>tui/render.rs\<close>). Independently, \<open>diskplan-core/src/canonical.rs\<close> defines the one byte encoding of an
  evidence record and its digest, and \<open>tools/generated-source-publish/src/main.rs\<close> replaces a set of
  tracked files by freshly generated ones as one transaction, on a file system where calls may fail.

  Theories of the frontend and the protocol, in dependency order.

  \<^item> \<open>Prelude\<close>: machine integers, \<open>checked_add\<close>, \<open>Result\<close> as a sum with \<open>bindR\<close>, stateful fallible code
    as actions with \<open>bindS\<close>, I/O errors, decimal and big-endian formats, ascending lists.
  \<^item> \<open>Machine\<close>: event-driven machines (\<open>run\<close>) and what a promise about one step gives for a run, as
    locales: an invariant, a monotone relation, consecutive numbers, a last stop output. The reducer,
    the channel and the session are interpretations.
  \<^item> \<open>Codec\<close>: the interface of a byte decoder and encoder pair (locale \<open>codec\<close>) and the laws of
    sequencing it; strict UTF-8.
  \<^item> \<open>Canonical\<close>, \<open>Canonical_Laws\<close>: \<open>canonical.rs\<close> and its laws; every field codec interprets \<open>codec\<close>.
  \<^item> \<open>Framing\<close>, \<open>Framing_Laws\<close>: \<open>framing.rs\<close> over scripts of \<open>read\<close> calls, against the format of a
    byte stream (\<open>parse_frame\<close>).
  \<^item> \<open>Proto\<close>: the generated messages and enums, with their names and discriminants.
  \<^item> \<open>Handshake\<close>: \<open>negotiate\<close> and \<open>validate_accepted\<close>, against the set-level agreement \<open>agreed\<close>.
  \<^item> \<open>Model\<close>, \<open>Reducer\<close>: the frontend's state and every handler of the reducer.
  \<^item> \<open>Reducer_Spec\<close>: the contract, an inductive relation \<open>engine_step\<close> of what the engine may do in a
    state; the handlers compute it and fail on everything else. \<open>Reducer_Inv\<close>: the invariant \<open>app_inv\<close>.
    \<open>Reducer_Laws\<close>, \<open>Reducer_Runs\<close>, \<open>Reducer_Control\<close>: the reducer as a machine, the accounting of
    requests and event numbers, the life cycle of a scan, keys, cancellation, a whole session.
  \<^item> \<open>Render\<close>, \<open>Render_Laws\<close>: the lines of text of every screen width with their number formats, and
    the widgets in the order and the rectangles they are drawn in; no panic, nothing outside the frame,
    byte counts rounded to the nearest, footer against reducer.
  \<^item> \<open>Event_Queue\<close>, \<open>Event_Queue_Laws\<close>: the channel's operations under its mutex as a machine of steps,
    and its contract (locale \<open>compacting_channel\<close>): what comes out stands block by block for what went in.
  \<^item> \<open>Pipeline\<close>: channel and reducer together.
  \<^item> \<open>Process\<close>, \<open>Session\<close>, \<open>Session_Laws\<close>: the operating system as scripts of answers, a log and a count
    of the calls, the session with its shutdown escalation, and what it guarantees of the child and of
    the events. Starting the reader thread may panic, as \<open>thread::spawn\<close> does, with the child spawned.
    \<open>Session_Order\<close>: the relations on the operating system that every operation of a session respects
    because the calls do (locale \<open>os_order\<close>). \<open>Session_Bounds\<close>: how many calls, failed ones too, a
    shutdown can make.
    \<open>Transport\<close>: from the bytes the engine writes to the events the session returns.
  \<^item> \<open>Driver\<close>: the worker thread and the handle the frontend holds. \<open>Driver_Child\<close>: what becomes of the
    engine's process over the life of the thread. \<open>App\<close>: the application loop, and what it is with a
    sink that accepts what it is asked for (locale \<open>accepting_sink\<close>). \<open>Worker_Thread\<close>: the thread from its start
    to its last message, the texts of its errors, the source of events, and the two threads together:
    the frontend comes to an end. \<open>Driver_Steps\<close>: the thread step by step beside the holder of its
    handle, where a send into a full channel and a join wait; each turn gives the result of the loop of
    \<open>Driver\<close>. \<open>Frontend\<close>: the terminal guard, the interactive program with the order in which it drops
    what it holds, and the command line. \<open>Interactive\<close>: the interactive program with the driver's handle,
    a run of the reducer when all goes well, and its ways out, from wherever the thread stands.
  \<^item> \<open>Proto_Codegen\<close>: the program that has the messages generated, over the library it calls.

  Theories of the publisher, in dependency order.

  \<^item> \<open>Action_Logic\<close>: \<open>wp\<close>, how an action ends with a value and with an error, its rules, collecting errors.
  \<^item> \<open>Paths\<close>: paths as bytes, their components, joining and stripping prefixes. \<open>File_System\<close>: the calls of
    libc and \<open>std::fs\<close> as a record, a parameter of every definition, and the locale \<open>file_system\<close> of what
    they promise: a successful call does what its manual says, a failed one changes nothing named.
  \<^item> \<open>Seals\<close>, \<open>Seals_Laws\<close>: held files, their seals (identity, access state, bytes), slots, access control
    lists. \<open>Leases\<close>, \<open>Leases_Laws\<close>, \<open>Namespace_Laws\<close>: the held directories from the root of the
    repository down to a destination, acquired and validated.
  \<^item> \<open>Publisher\<close>, \<open>Publisher_Laws\<close>: one target per destination: stage, publish by one atomic rename, roll
    back, finish, discard, verify; and the run over all of them. \<open>Transaction\<close>: the invariant of the run,
    which slots of the disk a target owns in each of its phases.
  \<^item> \<open>Publish_Safety\<close>, \<open>Publish_Run\<close>, \<open>Publish_Prepare\<close>, \<open>Publish_Outcome\<close>, \<open>Publish_Command\<close>: no file is
    lost; the phases of a run; preparation; how a run ends; the commands.
  \<^item> \<open>Memory_Disk\<close>, \<open>Memory_Run\<close>: a disk in memory on which any call can be made to fail, the
    interpretation of \<open>file_system\<close>, and runs on it inside the logic.
  \<^item> \<open>Publisher_Properties\<close>: the promises of the publisher, each applied to the disk in memory.

  Correspondence. Structs are records, enums are datatypes with the source's constructors (prefixed
  where two would clash), \<open>u8\<close> to \<open>u64\<close>, \<open>i32\<close>, \<open>i64\<close> and \<open>usize\<close> are words of their width where the value
  is stored or added, Rust strings are their bytes, \<open>Result\<close> is a sum with the error on the left. A
  handler takes the state and returns its result and the new state; an error keeps what was done
  before it. Loops are recursive functions with termination proofs: a read loop ends because each call
  uses up the script of the reader, a polling loop because each turn uses up an answer of the clock,
  the worker's loop because each turn uses up an outcome of the command queue, a loop of the publisher
  because it goes over a list; joining the driver's thread ends, or is seen to wait, because each of its
  steps brings it nearer its end. No fuel is used.

  What is outside and therefore a parameter or a script: SHA-256, the protobuf codec, pipes and their
  failures, process and terminal calls, the file system, the clock, the thread schedule (a sequence of
  channel operations), the layout of an area by \<open>ratatui\<close>. A used-up script answers that nothing more
  happens (end of file, time over, queue closed). A write that fails leaves the modelled pipe as it was,
  since the session never uses it again for anything but closing; a write, and every call of the
  operating system, is assumed to return. Poisoned mutexes are left out: no code
  panics while holding one. Kinds of I/O errors are kept as far as the program names them. A machine
  that stops in the middle of publishing is a run whose remaining calls all fail.

  Not modelled: of the publisher, the closing of descriptors, the fault hooks compiled for its tests
  only, and file systems that do not tell upper from lower case (names are compared exactly); what
  \<open>ratatui\<close> writes to the terminal itself; the test modules; the Swift engine, the
  scripts, and the widget, terminal and async libraries.
\<close>

end
